(* ===== verification/Prelude.thy ===== *)
theory Prelude
  imports Main "HOL-Library.AList" "HOL-Library.Word"
begin

text \<open>
  What the components share. Machine integers are words of their width, a Rust \<open>HashMap\<close>
  is a list of key/value pairs with distinct keys, a \<open>Result\<close> is a sum with the error on
  the left, a handler that mutates its state and may fail returns both the result and the
  state it leaves behind (a Rust \<open>?\<close> keeps the changes made before it), a persisted file
  is a value of type \<open>disk_file\<close> (JSON values are in \<open>Json\<close>).
\<close>

named_theorems exec_defs \<open>definitions unfolded to run a handler\<close>

type_synonym u8 = "8 word"
type_synonym u16 = "16 word"
type_synonym u32 = "32 word"
type_synonym u64 = "64 word"
type_synonym u256 = "256 word"
type_synonym address = "160 word"
type_synonym bytes = "8 word list"

section \<open>Results and handlers\<close>

text \<open>A computation that reads and writes a state and may stop with an error.\<close>

type_synonym ('s, 'e, 'a) handler = "'s \<Rightarrow> ('e + 'a) \<times> 's"

definition and_then :: "('s, 'e, 'a) handler \<Rightarrow> ('a \<Rightarrow> ('s, 'e, 'b) handler) \<Rightarrow> ('s, 'e, 'b) handler" where
  "and_then m f s = (case m s of (Inl e, s') \<Rightarrow> (Inl e, s') | (Inr x, s') \<Rightarrow> f x s')"

text \<open>Statements one after the other, each ended with \<open>?\<close>.\<close>

fun run_seq :: "('s, 'e, unit) handler list \<Rightarrow> ('s, 'e, unit) handler" where
  "run_seq [] s = (Inr (), s)"
| "run_seq (m # ms) s = (case m s of (Inl e, s') \<Rightarrow> (Inl e, s') | (Inr _, s') \<Rightarrow> run_seq ms s')"

text \<open>A statement that cannot fail.\<close>

definition step :: "('s \<Rightarrow> 's) \<Rightarrow> ('s, 'e, unit) handler" where
  "step f s = (Inr (), f s)"

definition is_ok :: "'e + 'a \<Rightarrow> bool" where
  "is_ok r = (case r of Inl _ \<Rightarrow> False | Inr _ \<Rightarrow> True)"

definition ok_or :: "'e \<Rightarrow> 'a option \<Rightarrow> 'e + 'a" where
  "ok_or e x = (case x of None \<Rightarrow> Inl e | Some a \<Rightarrow> Inr a)"

lemma is_ok_simps [simp]: "is_ok (Inr x)" "\<not> is_ok (Inl e)"
  by (simp_all add: is_ok_def)

lemma map_sum_eq_iff:
  "map_sum f g r = Inr y \<longleftrightarrow> (\<exists>x. r = Inr x \<and> y = g x)"
  "map_sum f g r = Inl e \<longleftrightarrow> (\<exists>x. r = Inl x \<and> e = f x)"
  by (cases r; auto)+

lemma is_ok_map_sum [simp]: "is_ok (map_sum f g r) = is_ok r"
  by (cases r) simp_all

lemma is_ok_iff: "is_ok r \<longleftrightarrow> (\<exists>x. r = Inr x)"
  by (cases r) simp_all

lemma ok_or_simps [simp]: "ok_or e None = Inl e" "ok_or e (Some a) = Inr a"
  by (simp_all add: ok_or_def)

lemma ok_or_Inr [simp]: "ok_or e x = Inr a \<longleftrightarrow> x = Some a"
  by (cases x) simp_all

lemma step_apply [simp]: "step f s = (Inr (), f s)"
  by (simp add: step_def)

text \<open>
  An invariant that every statement of a sequence keeps is kept by the sequence, whether it
  runs to its end or stops at an error.
\<close>

lemma run_seq_invariant:
  assumes "\<And>m s r s'. m \<in> set ms \<Longrightarrow> m s = (r, s') \<Longrightarrow> P s \<Longrightarrow> P s'"
    and "P s" and "run_seq ms s = (r, s')"
  shows "P s'"
  using assms
proof (induction ms arbitrary: s)
  case Nil
  then show ?case by simp
next
  case (Cons m ms)
  obtain q s1 where m: "m s = (q, s1)" by (cases "m s")
  have "P s1" using Cons.prems(1) [of m s q s1] Cons.prems(2) m by simp
  show ?case
  proof (cases q)
    case (Inl e)
    with m Cons.prems(3) \<open>P s1\<close> show ?thesis by simp
  next
    case (Inr u)
    with m Cons.prems(3) have "run_seq ms s1 = (r, s')" by simp
    then show ?thesis
      using Cons.IH [of s1] Cons.prems(1) \<open>P s1\<close> by (meson list.set_intros(2))
  qed
qed

lemma run_seq_append:
  "run_seq (ms @ ns) s = (case run_seq ms s of (Inl e, s') \<Rightarrow> (Inl e, s') | (Inr _, s') \<Rightarrow> run_seq ns s')"
  by (induction ms arbitrary: s) (auto split: sum.splits prod.splits)

text \<open>
  A handler keeps a property of the state, whether it succeeds or fails; the rules below reduce
  a handler to the statements it is made of.
\<close>

definition keeps :: "('s \<Rightarrow> bool) \<Rightarrow> ('s, 'e, 'a) handler \<Rightarrow> bool" where
  "keeps P h = (\<forall>s. P s \<longrightarrow> P (snd (h s)))"

named_theorems keeps_intros \<open>rules for \<open>keeps\<close>\<close>

lemma keepsD: "keeps P h \<Longrightarrow> P s \<Longrightarrow> P (snd (h s))"
  by (simp add: keeps_def)

lemma keeps_run_seq [keeps_intros]: "\<forall>m \<in> set ms. keeps P m \<Longrightarrow> keeps P (run_seq ms)"
proof -
  assume all: "\<forall>m \<in> set ms. keeps P m"
  have "P (snd (run_seq ms s))" if "P s" for s
  proof (rule run_seq_invariant [of ms P s "fst (run_seq ms s)"])
    show "P s'" if "m \<in> set ms" "m t = (r, s')" "P t" for m t r s'
      using all that by (auto simp: keeps_def dest!: bspec [of _ _ m])
  qed (use that in simp_all)
  then show ?thesis by (simp add: keeps_def)
qed

lemma keeps_step [keeps_intros]: "(\<And>s. P s \<Longrightarrow> P (f s)) \<Longrightarrow> keeps P (step f)"
  by (simp add: keeps_def)

section \<open>Persisted files\<close>

text \<open>
  The contents of a file: absent, cut short by a failed write, or a complete value. Saving
  opens the file with \<open>File::create\<close> (which truncates it) and then writes the value;
  \<open>io\<close> is what the operating system answers.
\<close>

datatype 'a disk_file = Absent | Truncated | Saved 'a

datatype io = IoOk | CreateFails | WriteFails

fun write_file :: "io \<Rightarrow> 'a \<Rightarrow> 'a disk_file \<Rightarrow> bool \<times> 'a disk_file" where
  "write_file IoOk x f = (True, Saved x)"
| "write_file CreateFails x f = (False, f)"
| "write_file WriteFails x f = (False, Truncated)"

lemma write_file_ok [simp]: "fst (write_file i x f) \<longleftrightarrow> i = IoOk"
  by (cases i) simp_all

lemma write_file_saved: "fst (write_file i x f) \<Longrightarrow> snd (write_file i x f) = Saved x"
  by (cases i) simp_all

section \<open>Hash maps\<close>

text \<open>
  A \<open>HashMap\<close> as the list of its entries in iteration order. Rust leaves that order
  unspecified, so nothing is assumed of the order: the properties quantify over every list
  of entries. \<open>insert\<close> and \<open>remove\<close> are those of the association lists of the library.
\<close>

type_synonym ('k, 'v) hmap = "('k \<times> 'v) list"

abbreviation hm_get :: "('k, 'v) hmap \<Rightarrow> 'k \<Rightarrow> 'v option" where
  "hm_get m k \<equiv> map_of m k"

abbreviation hm_insert :: "'k \<Rightarrow> 'v \<Rightarrow> ('k, 'v) hmap \<Rightarrow> ('k, 'v) hmap" where
  "hm_insert k v m \<equiv> AList.update k v m"

abbreviation hm_remove :: "'k \<Rightarrow> ('k, 'v) hmap \<Rightarrow> ('k, 'v) hmap" where
  "hm_remove k m \<equiv> AList.delete k m"

abbreviation hm_keys :: "('k, 'v) hmap \<Rightarrow> 'k list" where
  "hm_keys m \<equiv> map fst m"

abbreviation hm_values :: "('k, 'v) hmap \<Rightarrow> 'v list" where
  "hm_values m \<equiv> map snd m"

definition hm_contains :: "('k, 'v) hmap \<Rightarrow> 'k \<Rightarrow> bool" where
  "hm_contains m k = (hm_get m k \<noteq> None)"

definition hm_retain :: "('k \<Rightarrow> 'v \<Rightarrow> bool) \<Rightarrow> ('k, 'v) hmap \<Rightarrow> ('k, 'v) hmap" where
  "hm_retain p m = filter (\<lambda>(k, v). p k v) m"

abbreviation hm_ok :: "('k, 'v) hmap \<Rightarrow> bool" where
  "hm_ok m \<equiv> distinct (map fst m)"

lemma hm_ok_retain [simp]: "hm_ok m \<Longrightarrow> hm_ok (hm_retain p m)"
  by (induction m) (auto simp: hm_retain_def)

lemma hm_get_retain:
  "hm_ok m \<Longrightarrow> hm_get (hm_retain p m) k = (case hm_get m k of None \<Rightarrow> None | Some v \<Rightarrow> if p k v then Some v else None)"
proof (induction m)
  case (Cons e m)
  then show ?case
    by (cases e) (auto simp: hm_retain_def map_of_eq_None_iff split: option.splits if_splits)
qed (simp add: hm_retain_def)

text \<open>
  What a client of a map may rely on: lookups after an insertion and a removal, and that the
  entries it iterates over are exactly the lookups, each key once. The facts about
  iteration follow from these laws alone.
\<close>

locale hash_map =
  fixes get :: "'m \<Rightarrow> 'k \<Rightarrow> 'v option"
    and insert_kv :: "'k \<Rightarrow> 'v \<Rightarrow> 'm \<Rightarrow> 'm"
    and remove_k :: "'k \<Rightarrow> 'm \<Rightarrow> 'm"
    and entries :: "'m \<Rightarrow> ('k \<times> 'v) list"
    and ok :: "'m \<Rightarrow> bool"
  assumes get_insert: "get (insert_kv k v m) = (get m)(k \<mapsto> v)"
    and get_remove: "get (remove_k k m) = (get m)(k := None)"
    and entries_get: "ok m \<Longrightarrow> (k, v) \<in> set (entries m) \<longleftrightarrow> get m k = Some v"
    and entries_distinct: "ok m \<Longrightarrow> distinct (map fst (entries m))"
    and ok_insert: "ok m \<Longrightarrow> ok (insert_kv k v m)"
    and ok_remove: "ok m \<Longrightarrow> ok (remove_k k m)"
begin

lemma entries_insert:
  "ok m \<Longrightarrow> set (entries (insert_kv k v m)) = {e \<in> set (entries m). fst e \<noteq> k} \<union> {(k, v)}"
  by (auto simp: entries_get ok_insert get_insert split: if_splits)

lemma entries_remove:
  "ok m \<Longrightarrow> set (entries (remove_k k m)) = {e \<in> set (entries m). fst e \<noteq> k}"
  by (auto simp: entries_get ok_remove get_remove split: if_splits)

lemma entries_empty: "ok m \<Longrightarrow> entries m = [] \<longleftrightarrow> get m = Map.empty"
proof
  assume ok: "ok m" and "get m = Map.empty"
  then have "\<forall>k v. (k, v) \<notin> set (entries m)" by (simp add: entries_get)
  then show "entries m = []" by (cases "entries m") auto
next
  assume ok: "ok m" and empty: "entries m = []"
  show "get m = Map.empty"
  proof
    fix k
    show "get m k = None"
      using entries_get [OF ok, of k] empty by (cases "get m k") auto
  qed
qed

lemma entries_insert_nonempty: "ok m \<Longrightarrow> entries (insert_kv k v m) \<noteq> []"
  by (auto simp: entries_empty ok_insert get_insert fun_eq_iff)

lemma remove_insert: "get (remove_k k (insert_kv k v m)) = get (remove_k k m)"
  by (simp add: get_insert get_remove)

lemma entry_unique:
  "ok m \<Longrightarrow> (k, v) \<in> set (entries m) \<Longrightarrow> (k, w) \<in> set (entries m) \<Longrightarrow> v = w"
  by (simp add: entries_get)

lemma length_entries_insert_new:
  assumes "ok m" and "get m k = None"
  shows "length (entries (insert_kv k v m)) = Suc (length (entries m))"
proof -
  have "set (entries (insert_kv k v m)) = insert (k, v) (set (entries m))"
    using assms by (auto simp: entries_insert entries_get)
  moreover have "(k, v) \<notin> set (entries m)" using assms by (simp add: entries_get)
  moreover have "distinct (entries m')" if "ok m'" for m'
    using entries_distinct [OF that] by (simp add: distinct_map)
  ultimately show ?thesis
    using assms distinct_card [of "entries m"] distinct_card [of "entries (insert_kv k v m)"]
    by (simp add: ok_insert)
qed

end

interpretation hm: hash_map hm_get hm_insert hm_remove "\<lambda>m. m" hm_ok
  by unfold_locales
     (auto simp: update_conv' delete_conv' distinct_update distinct_delete)

lemmas hm_laws [simp] = hm.get_insert hm.get_remove hm.ok_insert hm.ok_remove

lemma hm_contains_insert [simp]: "hm_contains (hm_insert k v m) k' \<longleftrightarrow> k' = k \<or> hm_contains m k'"
  by (simp add: hm_contains_def)

lemma hm_contains_remove [simp]: "hm_contains (hm_remove k m) k' \<longleftrightarrow> k' \<noteq> k \<and> hm_contains m k'"
  by (simp add: hm_contains_def)

lemma hm_contains_keys: "hm_contains m k \<longleftrightarrow> k \<in> set (hm_keys m)"
  by (auto simp: hm_contains_def map_of_eq_None_iff)

lemma hm_contains_nonempty: "hm_contains m k \<Longrightarrow> m \<noteq> []"
  by (auto simp: hm_contains_def)

text \<open>Searching the values: \<open>values().find(p)\<close> gives some value that satisfies \<open>p\<close>.\<close>

lemma find_Some_set: "List.find p xs = Some x \<Longrightarrow> x \<in> set xs \<and> p x"
  by (auto simp: find_Some_iff)

lemma find_None_set: "List.find p xs = None \<longleftrightarrow> (\<forall>x \<in> set xs. \<not> p x)"
  by (auto simp: find_None_iff)

lemma find_exists: "(\<exists>x \<in> set xs. p x) \<longleftrightarrow> (\<exists>x. List.find p xs = Some x)"
  using find_None_set [of p xs] by (cases "List.find p xs") (auto dest: find_Some_set)

text \<open>Position of the first element, as \<open>Iterator::position\<close>.\<close>

fun position :: "('a \<Rightarrow> bool) \<Rightarrow> 'a list \<Rightarrow> nat option" where
  "position p [] = None"
| "position p (x # xs) = (if p x then Some 0 else map_option Suc (position p xs))"

lemma position_Some: "position p xs = Some i \<Longrightarrow> i < length xs \<and> p (xs ! i)"
  by (induction xs arbitrary: i) (auto split: if_splits)

lemma position_first: "position p xs = Some i \<Longrightarrow> j < i \<Longrightarrow> \<not> p (xs ! j)"
proof (induction xs arbitrary: i j)
  case (Cons x xs)
  then show ?case by (cases j) (auto split: if_splits)
qed simp

lemma position_None: "position p xs = None \<longleftrightarrow> (\<forall>x \<in> set xs. \<not> p x)"
  by (induction xs) auto

text \<open>\<open>Vec::remove\<close> of a valid index.\<close>

definition remove_nth :: "nat \<Rightarrow> 'a list \<Rightarrow> 'a list" where
  "remove_nth i xs = take i xs @ drop (Suc i) xs"

lemma length_remove_nth [simp]: "i < length xs \<Longrightarrow> length (remove_nth i xs) = length xs - 1"
  by (simp add: remove_nth_def)

lemma nth_remove_nth:
  "i < length xs \<Longrightarrow> j < length xs - 1 \<Longrightarrow> remove_nth i xs ! j = (if j < i then xs ! j else xs ! Suc j)"
  by (auto simp: remove_nth_def nth_append min_def)

lemma set_remove_nth: "set (remove_nth i xs) \<subseteq> set xs"
  by (auto simp: remove_nth_def dest: in_set_takeD in_set_dropD)

end
