(* ===== verification/Text.thy ===== *)
theory Text
  imports Prelude
begin

text \<open>
  The string functions of the Rust standard library that the program uses. A Rust
  \<open>String\<close> is the list of its UTF-8 bytes: \<open>trim\<close> removes the white space characters of
  Unicode, which take one to three bytes; numbers are printed and parsed in radix ten and
  sixteen.
\<close>

section \<open>Trimming white space\<close>

definition ws1 :: "char \<Rightarrow> bool" where
  "ws1 c = (let n = of_char c :: nat in (9 \<le> n \<and> n \<le> 13) \<or> n = 32)"

definition ws2 :: "char \<Rightarrow> char \<Rightarrow> bool" where
  "ws2 c d = ((of_char c :: nat) = 194 \<and> ((of_char d :: nat) = 133 \<or> (of_char d :: nat) = 160))"

definition ws3 :: "char \<Rightarrow> char \<Rightarrow> char \<Rightarrow> bool" where
  "ws3 c d e =
    (let a = of_char c :: nat; b = of_char d :: nat; n = of_char e :: nat in
      (a = 225 \<and> b = 154 \<and> n = 128)
      \<or> (a = 226 \<and> b = 128 \<and> ((128 \<le> n \<and> n \<le> 138) \<or> n = 168 \<or> n = 169 \<or> n = 175))
      \<or> (a = 226 \<and> b = 129 \<and> n = 159)
      \<or> (a = 227 \<and> b = 128 \<and> n = 128))"

text \<open>
  Removing characters from the front; the two predicates say which two and three bytes make
  a white space character, read in the direction of the list.
\<close>

fun strip_front :: "(char \<Rightarrow> char \<Rightarrow> bool) \<Rightarrow> (char \<Rightarrow> char \<Rightarrow> char \<Rightarrow> bool) \<Rightarrow> string \<Rightarrow> string" where
  "strip_front w2 w3 [] = []"
| "strip_front w2 w3 [c] = (if ws1 c then [] else [c])"
| "strip_front w2 w3 [c, d] =
    (if ws1 c then strip_front w2 w3 [d] else if w2 c d then [] else [c, d])"
| "strip_front w2 w3 (c # d # e # s) =
    (if ws1 c then strip_front w2 w3 (d # e # s)
     else if w2 c d then strip_front w2 w3 (e # s)
     else if w3 c d e then strip_front w2 w3 s
     else c # d # e # s)"

definition trim_start :: "string \<Rightarrow> string" where
  "trim_start s = strip_front ws2 ws3 s"

definition trim_end :: "string \<Rightarrow> string" where
  "trim_end s = rev (strip_front (\<lambda>c d. ws2 d c) (\<lambda>c d e. ws3 e d c) (rev s))"

definition trim :: "string \<Rightarrow> string" where
  "trim s = trim_end (trim_start s)"

text \<open>Whether a white space character stands at the front.\<close>

fun front_ws :: "(char \<Rightarrow> char \<Rightarrow> bool) \<Rightarrow> (char \<Rightarrow> char \<Rightarrow> char \<Rightarrow> bool) \<Rightarrow> string \<Rightarrow> bool" where
  "front_ws w2 w3 [] = False"
| "front_ws w2 w3 [c] = ws1 c"
| "front_ws w2 w3 [c, d] = (ws1 c \<or> w2 c d)"
| "front_ws w2 w3 (c # d # e # s) = (ws1 c \<or> w2 c d \<or> w3 c d e)"

lemma strip_front_not_ws: "\<not> front_ws w2 w3 (strip_front w2 w3 s)"
  by (induction w2 w3 s rule: strip_front.induct) auto

lemma strip_front_id: "\<not> front_ws w2 w3 s \<Longrightarrow> strip_front w2 w3 s = s"
  by (induction w2 w3 s rule: strip_front.induct) auto

lemma strip_front_suffix: "\<exists>p. s = p @ strip_front w2 w3 s"
proof (induction w2 w3 s rule: strip_front.induct)
  case (3 w2 w3 c d)
  then show ?case by (auto intro: exI [of _ "[c]"])
next
  case (4 w2 w3 c d e s)
  consider "ws1 c" | "\<not> ws1 c" "w2 c d" | "\<not> ws1 c" "\<not> w2 c d" "w3 c d e"
    | "\<not> ws1 c" "\<not> w2 c d" "\<not> w3 c d e" by blast
  then show ?case
  proof cases
    case 1
    with "4.IH"(1) obtain p where "d # e # s = p @ strip_front w2 w3 (d # e # s)" by blast
    with 1 show ?thesis by (intro exI [of _ "c # p"]) simp
  next
    case 2
    with "4.IH"(2) obtain p where "e # s = p @ strip_front w2 w3 (e # s)" by blast
    with 2 show ?thesis by (intro exI [of _ "c # d # p"]) simp
  next
    case 3
    with "4.IH"(3) obtain p where "s = p @ strip_front w2 w3 s" by blast
    with 3 show ?thesis by (intro exI [of _ "c # d # e # p"]) simp
  next
    case 4
    then show ?thesis by simp
  qed
qed auto

lemma front_ws_prefix: "front_ws w2 w3 p \<Longrightarrow> front_ws w2 w3 (p @ q)"
proof (induction w2 w3 p rule: front_ws.induct)
  case (2 w2 w3 c)
  then show ?case by (cases "(w2, w3, c # q)" rule: front_ws.cases) auto
next
  case (3 w2 w3 c d)
  then show ?case by (cases q) auto
qed auto

lemma trim_end_prefix: "\<exists>q. s = trim_end s @ q"
proof -
  obtain p where "rev s = p @ strip_front (\<lambda>c d. ws2 d c) (\<lambda>c d e. ws3 e d c) (rev s)"
    using strip_front_suffix by blast
  then have "s = rev (p @ strip_front (\<lambda>c d. ws2 d c) (\<lambda>c d e. ws3 e d c) (rev s))"
    by (metis rev_rev_ident)
  then show ?thesis by (auto simp: trim_end_def)
qed

lemma trim_end_idem: "trim_end (trim_end s) = trim_end s"
  by (simp add: trim_end_def strip_front_id strip_front_not_ws)

lemma trim_start_trim: "trim_start (trim s) = trim s"
proof -
  obtain q where "trim_start s = trim s @ q"
    using trim_end_prefix unfolding trim_def by blast
  then have "\<not> front_ws ws2 ws3 (trim s)"
    using strip_front_not_ws front_ws_prefix unfolding trim_start_def by metis
  then show ?thesis by (simp add: trim_start_def strip_front_id)
qed

lemma trim_idem: "trim (trim s) = trim s"
proof -
  have "trim (trim s) = trim_end (trim_start (trim s))" by (simp add: trim_def)
  also have "\<dots> = trim_end (trim s)" by (simp only: trim_start_trim)
  also have "\<dots> = trim s" by (simp add: trim_def trim_end_idem)
  finally show ?thesis .
qed

section \<open>Bytes\<close>

definition byte_of_char :: "char \<Rightarrow> u8" where
  "byte_of_char c = of_nat (of_char c)"

definition char_of_byte :: "u8 \<Rightarrow> char" where
  "char_of_byte b = char_of (unat b)"

lemma char_of_byte_of_char [simp]: "char_of_byte (byte_of_char c) = c"
proof -
  have "(of_char c :: nat) < 256" by simp
  then show ?thesis by (simp add: char_of_byte_def byte_of_char_def unat_of_nat)
qed

lemma byte_of_char_inj: "byte_of_char c = byte_of_char d \<Longrightarrow> c = d"
  by (metis char_of_byte_of_char)

section \<open>Printing and parsing numbers\<close>

definition digit_char :: "nat \<Rightarrow> char" where
  "digit_char d = ''0123456789abcdef'' ! d"

fun show_radix :: "nat \<Rightarrow> nat \<Rightarrow> string" where
  "show_radix r n = (if n < r \<or> r < 2 then [digit_char n] else show_radix r (n div r) @ [digit_char (n mod r)])"

declare show_radix.simps [simp del]

text \<open>\<open>{}\<close> and \<open>{:x}\<close> of an unsigned number.\<close>

definition show_dec :: "nat \<Rightarrow> string" where
  "show_dec n = show_radix 10 n"

definition show_hex :: "nat \<Rightarrow> string" where
  "show_hex n = show_radix 16 n"

definition digit_value :: "char \<Rightarrow> nat option" where
  "digit_value c =
    (let n = of_char c :: nat in
      if 48 \<le> n \<and> n \<le> 57 then Some (n - 48)
      else if 97 \<le> n \<and> n \<le> 122 then Some (n - 87)
      else if 65 \<le> n \<and> n \<le> 90 then Some (n - 55)
      else None)"

fun read_digits :: "nat \<Rightarrow> nat \<Rightarrow> string \<Rightarrow> nat option" where
  "read_digits r acc [] = Some acc"
| "read_digits r acc (c # cs) =
    (case digit_value c of
      None \<Rightarrow> None
    | Some d \<Rightarrow> if d < r then read_digits r (acc * r + d) cs else None)"

text \<open>
  \<open>u64::from_str_radix\<close>, and \<open>from_str\<close> for radix ten: an optional plus sign, at least one
  digit, and no value of \<open>2 ^ 64\<close> or more.
\<close>

definition from_str_radix :: "string \<Rightarrow> nat \<Rightarrow> u64 option" where
  "from_str_radix s r =
    (let ds = (case s of [] \<Rightarrow> [] | c # cs \<Rightarrow> if c = CHR ''+'' then cs else s) in
      if ds = [] then None
      else case read_digits r 0 ds of
        None \<Rightarrow> None
      | Some n \<Rightarrow> if n < 2 ^ 64 then Some (of_nat n) else None)"

definition strip_prefix :: "string \<Rightarrow> string \<Rightarrow> string option" where
  "strip_prefix p s = (if take (length p) s = p then Some (drop (length p) s) else None)"

definition starts_with :: "string \<Rightarrow> string \<Rightarrow> bool" where
  "starts_with p s = (take (length p) s = p)"

lemma strip_prefix_append [simp]: "strip_prefix p (p @ s) = Some s"
  by (simp add: strip_prefix_def)

lemma starts_with_append [simp]: "starts_with p (p @ s)"
  by (simp add: starts_with_def)

lemma starts_with_append_left: "starts_with p s \<Longrightarrow> starts_with p (s @ t)"
proof -
  assume "starts_with p s"
  then have "s = p @ drop (length p) s"
    unfolding starts_with_def by (metis append_take_drop_id)
  then have "s @ t = p @ (drop (length p) s @ t)" by simp
  then show "starts_with p (s @ t)" by (simp only: starts_with_append)
qed

lemma digit_value_digit_char: "d < 16 \<Longrightarrow> digit_value (digit_char d) = Some d"
proof -
  have "\<forall>d \<in> set [0..<16]. digit_value (digit_char d) = Some d" by code_simp
  then show "d < 16 \<Longrightarrow> digit_value (digit_char d) = Some d" by simp
qed

lemma digit_char_not_plus: "d < 16 \<Longrightarrow> digit_char d \<noteq> CHR ''+''"
proof -
  have "\<forall>d \<in> set [0..<16]. digit_char d \<noteq> CHR ''+''" by code_simp
  then show "d < 16 \<Longrightarrow> digit_char d \<noteq> CHR ''+''" by simp
qed

lemma read_digits_append:
  "read_digits r acc (xs @ ys) =
    (case read_digits r acc xs of None \<Rightarrow> None | Some n \<Rightarrow> read_digits r n ys)"
  by (induction xs arbitrary: acc) (auto split: option.splits)

lemma show_radix_nonempty: "show_radix r n \<noteq> []"
  by (subst show_radix.simps) simp

lemma show_radix_hd:
  "2 \<le> r \<Longrightarrow> r \<le> 16 \<Longrightarrow> hd (show_radix r n) \<noteq> CHR ''+''"
proof (induction r n rule: show_radix.induct)
  case (1 r n)
  then show ?case
    by (subst show_radix.simps)
       (auto simp: digit_char_not_plus show_radix_nonempty not_less)
qed

lemma read_show_radix:
  "2 \<le> r \<Longrightarrow> r \<le> 16 \<Longrightarrow> read_digits r 0 (show_radix r n) = Some n"
proof (induction r n rule: show_radix.induct)
  case (1 r n)
  show ?case
  proof (cases "n < r")
    case True
    with "1.prems" show ?thesis
      by (subst show_radix.simps) (simp add: digit_value_digit_char)
  next
    case False
    with "1" have "read_digits r 0 (show_radix r (n div r)) = Some (n div r)" by simp
    moreover have r: "n mod r < r" using "1.prems" by simp
    moreover have "n mod r < 16" using r "1.prems" by linarith
    ultimately show ?thesis
      using False "1.prems"
      by (subst show_radix.simps) (simp add: read_digits_append digit_value_digit_char)
  qed
qed

lemma from_str_radix_show:
  assumes "2 \<le> r" "r \<le> 16" "n < 2 ^ 64"
  shows "from_str_radix (show_radix r n) r = Some (of_nat n)"
proof -
  obtain c cs where s: "show_radix r n = c # cs"
    using show_radix_nonempty by (cases "show_radix r n") auto
  with show_radix_hd [of r n] assms have "c \<noteq> CHR ''+''" by simp
  with s read_show_radix [of r n] assms show ?thesis
    by (simp add: from_str_radix_def Let_def)
qed

lemma from_str_radix_hex: "from_str_radix (show_hex (unat (w :: u64))) 16 = Some w"
  using from_str_radix_show [of 16 "unat w"] unsigned_less [of w] by (simp add: show_hex_def)

lemma from_str_radix_dec: "from_str_radix (show_dec (unat (w :: u64))) 10 = Some w"
  using from_str_radix_show [of 10 "unat w"] unsigned_less [of w] by (simp add: show_dec_def)

lemma from_str_radix_dec_nat: "n < 2 ^ 64 \<Longrightarrow> from_str_radix (show_dec n) 10 = Some (of_nat n)"
  using from_str_radix_show [of 10 n] by (simp add: show_dec_def)

text \<open>\<open>to_lowercase\<close> on the letters that matter.\<close>

definition lower_char :: "char \<Rightarrow> char" where
  "lower_char c = (let n = of_char c :: nat in if 65 \<le> n \<and> n \<le> 90 then char_of (n + 32) else c)"

end
