(* ===== verification/Ethui_Types.thy ===== *)
theory Ethui_Types
  imports Text
begin

text \<open>
  The data every component exchanges, after \<open>crates/types\<close> and \<open>crates/broadcast\<close>: networks
  and their identifiers, affinities, the notifications sent to the frontend and the messages of
  the internal bus. A \<open>Url\<close> is a value of a third-party type and is named by the text it was
  parsed from. What a remote node answers is an argument of the operations that ask it.
\<close>

section \<open>Networks\<close>

record network_id =
  id_chain_id :: u64
  id_dedup_id :: u64

definition network_id_from :: "u64 \<times> u64 \<Rightarrow> network_id" where
  "network_id_from p = (case p of (c, d) \<Rightarrow> \<lparr>id_chain_id = c, id_dedup_id = d\<rparr>)"

definition network_id_into :: "network_id \<Rightarrow> u64 \<times> u64" where
  "network_id_into i = (id_chain_id i, id_dedup_id i)"

datatype url = Url string

datatype network_status = Unknown | Online | Offline

record network =
  net_id :: network_id
  net_name :: string
  explorer_url :: "string option"
  http_url :: url
  ws_url :: "url option"
  currency :: string
  decimals :: u32
  net_status :: network_status
  is_stack :: bool

definition mainnet :: "u32 \<Rightarrow> network" where
  "mainnet dedup = \<lparr>
    net_id = network_id_from (1, ucast dedup),
    net_name = ''Mainnet'',
    explorer_url = Some ''https://etherscan.io/search?q='',
    http_url = Url ''https://eth.llamarpc.com'',
    ws_url = None,
    currency = ''ETH'',
    decimals = 18,
    net_status = Unknown,
    is_stack = False\<rparr>"

definition sepolia :: "u32 \<Rightarrow> network" where
  "sepolia dedup = \<lparr>
    net_id = network_id_from (11155111, ucast dedup),
    net_name = ''Sepolia'',
    explorer_url = Some ''https://sepolia.etherscan.io/search?q='',
    http_url = Url ''https://ethereum-sepolia-rpc.publicnode.com'',
    ws_url = None,
    currency = ''ETH'',
    decimals = 18,
    net_status = Unknown,
    is_stack = False\<rparr>"

definition anvil :: "u32 \<Rightarrow> network" where
  "anvil dedup = \<lparr>
    net_id = network_id_from (31337, ucast dedup),
    net_name = ''Anvil'',
    explorer_url = None,
    http_url = Url ''http://localhost:8545'',
    ws_url = Some (Url ''ws://localhost:8545''),
    currency = ''ETH'',
    decimals = 18,
    net_status = Unknown,
    is_stack = False\<rparr>"

definition all_default :: "network list" where
  "all_default = [anvil 0, mainnet 0, sepolia 0]"

definition chain_id :: "network \<Rightarrow> u64" where
  "chain_id n = id_chain_id (net_id n)"

definition dedup_id :: "network \<Rightarrow> u64" where
  "dedup_id n = id_dedup_id (net_id n)"

definition chain_id_hex :: "network \<Rightarrow> string" where
  "chain_id_hex n = ''0x'' @ show_hex (unat (chain_id n))"

text \<open>
  Asking a node for \<open>hardhat_metadata\<close>: the connection fails with an error, or the request
  succeeds or not.
\<close>

type_synonym probe = "url \<Rightarrow> string + bool"

definition is_dev :: "probe \<Rightarrow> network \<Rightarrow> string + bool" where
  "is_dev probe n =
    (if is_stack n then Inr True
     else if chain_id n = 31337 then Inr True
     else case probe (http_url n) of
       Inl e \<Rightarrow> Inl e
     | Inr metadata_ok \<Rightarrow> Inr (chain_id n = 31337 \<or> metadata_ok))"

text \<open>
  Polling: whether connecting succeeds and whether the node then answers with its chain id.
  The result is the previous status when it changed.
\<close>

definition poll_status :: "(url \<Rightarrow> bool) \<Rightarrow> (url \<Rightarrow> bool) \<Rightarrow> network \<Rightarrow> network_status option \<times> network" where
  "poll_status connects answers n =
    (let new_status = (if connects (http_url n) \<and> answers (http_url n) then Online else Offline) in
      if net_status n \<noteq> new_status
      then (Some (net_status n), n\<lparr>net_status := new_status\<rparr>)
      else (None, n))"

record new_network_params =
  np_name :: string
  np_chain_id :: u64
  np_explorer_url :: "string option"
  np_http_url :: url
  np_ws_url :: "url option"
  np_currency :: string
  np_decimals :: u32
  np_is_stack :: bool

definition into_network :: "new_network_params \<Rightarrow> u64 \<Rightarrow> network" where
  "into_network p deduplication_id = \<lparr>
    net_id = network_id_from (np_chain_id p, deduplication_id),
    net_name = np_name p,
    explorer_url = np_explorer_url p,
    http_url = np_http_url p,
    ws_url = np_ws_url p,
    currency = np_currency p,
    decimals = np_decimals p,
    net_status = Unknown,
    is_stack = np_is_stack p\<rparr>"

section \<open>Affinities\<close>

datatype affinity = Unset | Global | Sticky network_id

definition affinity_default :: affinity where
  "affinity_default = Unset"

definition affinity_from :: "network_id \<Rightarrow> affinity" where
  "affinity_from i = Sticky i"

definition is_unset :: "affinity \<Rightarrow> bool" where
  "is_unset a = (a = Unset)"

definition is_global :: "affinity \<Rightarrow> bool" where
  "is_global a = (a = Global)"

section \<open>Messages\<close>

datatype ui_notify =
    WalletsChanged
  | NetworksChanged
  | CurrentNetworkChangedUI
  | TxsUpdated
  | PeersUpdated
  | BalancesUpdated
  | ContractsUpdated
  | SettingsChanged
  | WcSessionsUpdated
  | UpdateReady string

fun ui_label :: "ui_notify \<Rightarrow> string" where
  "ui_label WalletsChanged = ''wallets-changed''"
| "ui_label NetworksChanged = ''networks-changed''"
| "ui_label CurrentNetworkChangedUI = ''current-network-changed''"
| "ui_label TxsUpdated = ''txs-updated''"
| "ui_label PeersUpdated = ''peers-updated''"
| "ui_label BalancesUpdated = ''balances-updated''"
| "ui_label ContractsUpdated = ''contracts-updated''"
| "ui_label SettingsChanged = ''settings-changed''"
| "ui_label WcSessionsUpdated = ''wc-sessions-updated''"
| "ui_label (UpdateReady version) = ''update-ready''"

text \<open>
  \<open>InternalMsg\<close>; the completion channel of a full transaction fetch is named by a number.
\<close>

datatype internal_msg =
    ChainChanged network_id "string option" affinity
  | AccountsChanged "address list"
  | SettingsUpdated
  | AddressAdded address
  | AddressRemoved address
  | CurrentAddressChanged address
  | NetworkAdded network
  | NetworkUpdated network
  | NetworkRemoved network
  | CurrentNetworkChanged network
  | WalletCreated
  | WalletConnected string
  | PeerAdded
  | TransactionSubmitted u64
  | FetchFullTxSync u64 u256 nat
  | FetchERC20Metadata u32 address
  | ContractFound
  | StackAdd new_network_params
  | StackRemove string

text \<open>What a component sends: on the internal bus or to the frontend, in order.\<close>

datatype sent = Bus internal_msg | Notify ui_notify

lemmas types_defs = network_id_from_def mainnet_def sepolia_def anvil_def all_default_def
  chain_id_def dedup_id_def into_network_def

lemma is_dev_stack [simp]: "is_stack n \<Longrightarrow> is_dev probe n = Inr True"
  by (simp add: is_dev_def)

lemma is_dev_anvil: "chain_id n = 31337 \<Longrightarrow> is_dev probe n = Inr True"
  by (simp add: is_dev_def)

lemma chain_id_into_network [simp]: "chain_id (into_network p d) = np_chain_id p"
  by (simp add: types_defs)

lemma dedup_id_into_network [simp]: "dedup_id (into_network p d) = d"
  by (simp add: types_defs)

lemma net_name_into_network [simp]: "net_name (into_network p d) = np_name p"
  by (simp add: types_defs)

lemma net_id_into_network [simp]: "net_id (into_network p d) = network_id_from (np_chain_id p, d)"
  by (simp add: types_defs)

lemma network_id_roundtrip: "network_id_from (network_id_into i) = i"
  by (cases i) (simp add: network_id_from_def network_id_into_def)

lemma poll_status_other_fields:
  "net_id (snd (poll_status c a n)) = net_id n"
  "net_name (snd (poll_status c a n)) = net_name n"
  by (simp_all add: poll_status_def Let_def)

lemma network_id_eq_iff:
  "(i :: network_id) = j \<longleftrightarrow> id_chain_id i = id_chain_id j \<and> id_dedup_id i = id_dedup_id j"
  by (cases i; cases j) simp

end
