(* ===== verification/Components.thy ===== *)
theory Components
  imports Prelude
begin

text \<open>
  The interfaces the stateful parts of the program share. An actor (or a state behind a lock)
  handles one message at a time; each message returns a result and leaves a state. The first
  locale lifts an invariant from one message to every run of messages; the second adds a file
  on disk that a message writes before it reports success; the third puts them together.
\<close>

fun run_msgs :: "('m \<Rightarrow> ('s, 'e, 'a) handler) \<Rightarrow> 'm list \<Rightarrow> 's \<Rightarrow> 's" where
  "run_msgs h [] s = s"
| "run_msgs h (m # ms) s = run_msgs h ms (snd (h m s))"

lemma run_msgs_append: "run_msgs h (ms @ ns) s = run_msgs h ns (run_msgs h ms s)"
  by (induction ms arbitrary: s) auto

locale guarded_component =
  fixes handle :: "'m \<Rightarrow> ('s, 'e, 'a) handler"
    and admissible :: "'m \<Rightarrow> bool"
    and inv :: "'s \<Rightarrow> bool"
  assumes inv_handle: "inv s \<Longrightarrow> admissible m \<Longrightarrow> inv (snd (handle m s))"
begin

lemma inv_run: "inv s \<Longrightarrow> \<forall>m \<in> set ms. admissible m \<Longrightarrow> inv (run_msgs handle ms s)"
  by (induction ms arbitrary: s) (auto intro: inv_handle)

end

text \<open>
  An invariant that a message may break when it meets a state of a certain kind (a panic in
  the middle of a change): it holds as long as no message of the run does.
\<close>

fun run_calm :: "('m \<Rightarrow> 's \<Rightarrow> bool) \<Rightarrow> ('m \<Rightarrow> ('s, 'e, 'a) handler) \<Rightarrow> 'm list \<Rightarrow> 's \<Rightarrow> bool" where
  "run_calm ok h [] s = True"
| "run_calm ok h (m # ms) s = (ok m s \<and> run_calm ok h ms (snd (h m s)))"

locale watched_component =
  fixes handle :: "'m \<Rightarrow> ('s, 'e, 'a) handler"
    and calm :: "'m \<Rightarrow> 's \<Rightarrow> bool"
    and inv :: "'s \<Rightarrow> bool"
  assumes inv_calm: "inv s \<Longrightarrow> calm m s \<Longrightarrow> inv (snd (handle m s))"
begin

lemma inv_run: "inv s \<Longrightarrow> run_calm calm handle ms s \<Longrightarrow> inv (run_msgs handle ms s)"
  by (induction ms arbitrary: s) (auto intro: inv_calm)

end

locale persistent_component =
  fixes handle :: "'m \<Rightarrow> ('s, 'e, 'a) handler"
    and inner :: "'s \<Rightarrow> 'i"
    and disk :: "'s \<Rightarrow> 'i disk_file"
  assumes ok_saved: "fst (handle m s) = Inr x \<Longrightarrow> disk (snd (handle m s)) = Saved (inner (snd (handle m s)))"
    and error_disk: "fst (handle m s) = Inl e \<Longrightarrow> disk (snd (handle m s)) = disk s \<or> disk (snd (handle m s)) = Truncated"
begin

text \<open>
  Whatever is on disk after a run is what was there before, a cut-short write, or the state
  that was in memory after one of the messages of the run.
\<close>

lemma disk_run:
  "disk (run_msgs handle ms s) = disk s \<or> disk (run_msgs handle ms s) = Truncated
   \<or> (\<exists>n \<le> length ms. disk (run_msgs handle ms s) = Saved (inner (run_msgs handle (take n ms) s)))"
proof (induction ms rule: rev_induct)
  case Nil
  then show ?case by simp
next
  case (snoc m ms)
  let ?s = "run_msgs handle ms s"
  show ?case
  proof (cases "fst (handle m ?s)")
    case (Inl e)
    then have "disk (snd (handle m ?s)) = disk ?s \<or> disk (snd (handle m ?s)) = Truncated"
      by (rule error_disk)
    then show ?thesis
    proof
      assume same: "disk (snd (handle m ?s)) = disk ?s"
      from snoc.IH consider "disk ?s = disk s \<or> disk ?s = Truncated"
        | n where "n \<le> length ms" "disk ?s = Saved (inner (run_msgs handle (take n ms) s))"
        by blast
      then show ?thesis
      proof cases
        case 1
        with same show ?thesis by (auto simp: run_msgs_append)
      next
        case 2
        with same have "disk (run_msgs handle (ms @ [m]) s) = Saved (inner (run_msgs handle (take n (ms @ [m])) s))"
          by (simp add: run_msgs_append)
        moreover from 2(1) have "n \<le> length (ms @ [m])" by simp
        ultimately show ?thesis by blast
      qed
    qed (simp add: run_msgs_append)
  next
    case (Inr x)
    then have "disk (snd (handle m ?s)) = Saved (inner (snd (handle m ?s)))"
      by (rule ok_saved)
    then show ?thesis
      by (intro disjI2 exI [of _ "length (ms @ [m])"]) (simp add: run_msgs_append)
  qed
qed

lemma disk_current:
  "ms \<noteq> [] \<Longrightarrow> is_ok (fst (handle (last ms) (run_msgs handle (butlast ms) s)))
   \<Longrightarrow> disk (run_msgs handle ms s) = Saved (inner (run_msgs handle ms s))"
proof (induction ms rule: rev_induct)
  case (snoc m ms)
  then show ?case by (auto simp: is_ok_iff run_msgs_append intro: ok_saved)
qed simp

end

locale saved_component =
  guarded_component handle admissible inv + persistent_component handle inner disk
  for handle :: "'m \<Rightarrow> ('s, 'e, 'a) handler"
    and admissible :: "'m \<Rightarrow> bool"
    and inv :: "'s \<Rightarrow> bool"
    and inner :: "'s \<Rightarrow> 'i"
    and disk :: "'s \<Rightarrow> 'i disk_file" +
  fixes good :: "'i \<Rightarrow> bool"
  assumes inv_good: "inv s \<Longrightarrow> good (inner s)"
begin

text \<open>
  A run from a state that satisfies the invariant never puts a bad value on disk: what a
  restart loads is a good value, unless the last write was cut short.
\<close>

lemma disk_good:
  assumes "inv s" and "\<forall>m \<in> set ms. admissible m"
    and "\<And>i. disk s = Saved i \<Longrightarrow> good i"
    and "disk (run_msgs handle ms s) = Saved i"
  shows "good i"
proof -
  from disk_run [of ms s] assms(4) consider "disk s = Saved i"
    | n where "n \<le> length ms" "i = inner (run_msgs handle (take n ms) s)"
    by auto
  then show ?thesis
  proof cases
    case 1
    then show ?thesis by (rule assms(3))
  next
    case 2
    have "\<forall>m \<in> set (take n ms). admissible m" using assms(2) by (meson in_set_takeD)
    then have "inv (run_msgs handle (take n ms) s)" by (rule inv_run [OF assms(1)])
    with 2 show ?thesis by (simp add: inv_good)
  qed
qed

end

end
