(* ===== verification/Networks.thy ===== *)
theory Networks
  imports Ethui_Types Components
begin

text \<open>
  The networks actor (\<open>crates/networks\<close>): the known networks by name, the name of the current
  one, the file they are saved to, and what the actor broadcasts. Each message of the actor is
  a handler over \<open>networks_actor\<close>; \<open>io\<close> is the outcome of the save the message makes and
  \<open>probe\<close> what the node of a new network answers. The status poller and the receiver of the
  internal bus, which run beside the actor, are the last group of definitions.
\<close>

section \<open>State\<close>

record serialized_networks =
  sn_networks :: "(string, network) hmap"
  sn_current :: string

record networks_actor =
  nw_inner :: serialized_networks
  nw_file :: "serialized_networks disk_file"
  nw_sent :: "sent list"
  nw_spawned :: "internal_msg list"

datatype network_get_key = KeyId network_id | KeyChainId u64 | KeyName string

datatype nw_error =
    AlreadyExists
  | NetworkNotFound
  | NoNetworksRemaining
  | DoesNotExist
  | NwIo
  | NwNode string
  | NwPanic string

abbreviation nets :: "networks_actor \<Rightarrow> (string, network) hmap" where
  "nets s \<equiv> sn_networks (nw_inner s)"

abbreviation current :: "networks_actor \<Rightarrow> string" where
  "current s \<equiv> sn_current (nw_inner s)"

definition set_nets :: "(string, network) hmap \<Rightarrow> networks_actor \<Rightarrow> networks_actor" where
  "set_nets m s = s\<lparr>nw_inner := (nw_inner s)\<lparr>sn_networks := m\<rparr>\<rparr>"

definition set_current_name :: "string \<Rightarrow> networks_actor \<Rightarrow> networks_actor" where
  "set_current_name name s = s\<lparr>nw_inner := (nw_inner s)\<lparr>sn_current := name\<rparr>\<rparr>"

definition nw_send :: "sent \<Rightarrow> networks_actor \<Rightarrow> networks_actor" where
  "nw_send m s = s\<lparr>nw_sent := nw_sent s @ [m]\<rparr>"

section \<open>Operations\<close>

definition get_current_inner :: "networks_actor \<Rightarrow> nw_error + network" where
  "get_current_inner s =
    (case hm_get (nets s) (current s) of
      Some n \<Rightarrow> Inr n
    | None \<Rightarrow>
        (case hm_values (nets s) of
          [] \<Rightarrow> Inl (NwPanic ''No networks available'')
        | n # _ \<Rightarrow> Inr n))"

definition nw_save :: "io \<Rightarrow> (networks_actor, nw_error, unit) handler" where
  "nw_save i s =
    (case write_file i (nw_inner s) (nw_file s) of
      (ok, f) \<Rightarrow> (if ok then Inr () else Inl NwIo, s\<lparr>nw_file := f\<rparr>))"

definition nw_notify_peers :: "(networks_actor, nw_error, unit) handler" where
  "nw_notify_peers s =
    (case get_current_inner s of
      Inl e \<Rightarrow> (Inl e, s)
    | Inr n \<Rightarrow> (Inr (), s\<lparr>nw_spawned := nw_spawned s @ [ChainChanged (net_id n) None Global]\<rparr>))"

definition broadcast_current :: "(networks_actor, nw_error, unit) handler" where
  "broadcast_current s =
    (case get_current_inner s of
      Inl e \<Rightarrow> (Inl e, s)
    | Inr n \<Rightarrow> (Inr (), nw_send (Bus (CurrentNetworkChanged n)) s))"

definition on_network_changed :: "(networks_actor, nw_error, unit) handler" where
  "on_network_changed =
    run_seq [nw_notify_peers, step (nw_send (Notify CurrentNetworkChangedUI)), broadcast_current]"

definition broadcast_init :: "(networks_actor, nw_error, unit) handler" where
  "broadcast_init s =
    run_seq [step (\<lambda>s. fold (\<lambda>n. nw_send (Bus (NetworkAdded n))) (hm_values (nets s)) s), broadcast_current] s"

definition get_chain_id_count :: "networks_actor \<Rightarrow> u64 \<Rightarrow> nat" where
  "get_chain_id_count s c = length (filter (\<lambda>n. chain_id n = c) (hm_values (nets s)))"

definition nw_get_list :: "networks_actor \<Rightarrow> network list" where
  "nw_get_list s = hm_values (nets s)"

definition nw_get :: "networks_actor \<Rightarrow> network_get_key \<Rightarrow> network option" where
  "nw_get s key =
    (case key of
      KeyId i \<Rightarrow> List.find (\<lambda>n. net_id n = i) (hm_values (nets s))
    | KeyChainId c \<Rightarrow> List.find (\<lambda>n. chain_id n = c) (hm_values (nets s))
    | KeyName name \<Rightarrow> List.find (\<lambda>n. net_name n = name) (hm_values (nets s)))"

definition validate_chain_id :: "networks_actor \<Rightarrow> u64 \<Rightarrow> bool" where
  "validate_chain_id s c = list_ex (\<lambda>e. chain_id (snd e) = c) (nets s)"

definition get_lowest_dedup_id :: "networks_actor \<Rightarrow> u64 \<Rightarrow> u64" where
  "get_lowest_dedup_id s c =
    (case map dedup_id (filter (\<lambda>n. chain_id n = c) (hm_values (nets s))) of
      [] \<Rightarrow> 0
    | d # ds \<Rightarrow> fold min ds d)"

definition nw_resolve :: "networks_actor \<Rightarrow> network_get_key \<Rightarrow> nw_error + string" where
  "nw_resolve s key =
    (case key of
      KeyName name \<Rightarrow> Inr name
    | KeyId i \<Rightarrow> map_sum id net_name (ok_or NetworkNotFound (List.find (\<lambda>n. net_id n = i) (hm_values (nets s))))
    | KeyChainId c \<Rightarrow> map_sum id net_name (ok_or NetworkNotFound (List.find (\<lambda>n. chain_id n = c) (hm_values (nets s)))))"

definition nw_set_current :: "io \<Rightarrow> network_get_key \<Rightarrow> (networks_actor, nw_error, unit) handler" where
  "nw_set_current i key s =
    (case nw_resolve s key of
      Inl e \<Rightarrow> (Inl e, s)
    | Inr name \<Rightarrow>
        (case get_current_inner s of
          Inl e \<Rightarrow> (Inl e, s)
        | Inr previous \<Rightarrow>
            (let s1 = set_current_name name s in
              case get_current_inner s1 of
                Inl e \<Rightarrow> (Inl e, s1)
              | Inr new \<Rightarrow>
                  run_seq
                    [if net_name previous \<noteq> net_name new then on_network_changed else step id,
                     nw_save i] s1)))"

definition nw_add :: "probe \<Rightarrow> io \<Rightarrow> new_network_params \<Rightarrow> (networks_actor, nw_error, unit) handler" where
  "nw_add probe i params s =
    (if hm_contains (nets s) (np_name params) then (Inl AlreadyExists, s)
     else
       let n = into_network params (of_nat (get_chain_id_count s (np_chain_id params))) in
       case is_dev probe n of
         Inl e \<Rightarrow> (Inl (NwNode e), s)
       | Inr dev \<Rightarrow>
           if \<not> dev \<and> list_ex (\<lambda>m. net_id m = net_id n) (hm_values (nets s)) then (Inl AlreadyExists, s)
           else
             run_seq
               [step (\<lambda>s. set_nets (hm_insert (net_name n) n (nets s)) s),
                nw_save i,
                step (nw_send (Bus (NetworkAdded n))),
                step (nw_send (Notify NetworksChanged))] s)"

definition nw_update :: "io \<Rightarrow> string \<Rightarrow> network \<Rightarrow> (networks_actor, nw_error, unit) handler" where
  "nw_update i old_name n s =
    (if net_name n \<noteq> old_name \<and> hm_contains (nets s) (net_name n) then (Inl AlreadyExists, s)
     else
       let s1 = set_nets (hm_insert (net_name n) n (hm_remove old_name (nets s))) s in
       run_seq
         ((if current s1 = old_name
           then [step (set_current_name (net_name n)), on_network_changed]
           else [])
          @ [nw_save i,
             step (nw_send (Bus (NetworkUpdated n))),
             step (nw_send (Notify NetworksChanged))]) s1)"

definition nw_remove :: "io \<Rightarrow> string \<Rightarrow> (networks_actor, nw_error, unit) handler" where
  "nw_remove i name s =
    (let s1 = set_nets (hm_remove name (nets s)) s in
      case hm_get (nets s) name of
        None \<Rightarrow> (Inl DoesNotExist, s1)
      | Some n \<Rightarrow>
          run_seq
            [\<lambda>s. (if current s = name
                  then (case hm_values (nets s) of
                          [] \<Rightarrow> (Inl NoNetworksRemaining, s)
                        | first # _ \<Rightarrow>
                            run_seq [step (set_current_name (net_name first)), on_network_changed] s)
                  else (Inr (), s)),
             nw_save i,
             step (nw_send (Bus (NetworkRemoved n))),
             step (nw_send (Notify NetworksChanged))] s1)"

definition nw_update_statuses :: "io \<Rightarrow> (string \<times> network) list \<Rightarrow> (networks_actor, nw_error, unit) handler" where
  "nw_update_statuses i updates s =
    run_seq
      [step (\<lambda>s. set_nets (fold (\<lambda>(key, n). hm_insert key n) updates (nets s)) s),
       nw_save i] s"

text \<open>
  Starting the actor: \<open>loaded\<close> is \<open>None\<close> when the file does not exist, else what
  \<open>load_and_migrate\<close> returned (an error there is a panic of \<open>expect\<close>).
\<close>

definition nw_on_start :: "io \<Rightarrow> (string + serialized_networks) option \<Rightarrow> serialized_networks disk_file
    \<Rightarrow> nw_error + networks_actor" where
  "nw_on_start i loaded disk =
    (case loaded of
      Some (Inl e) \<Rightarrow> Inl (NwPanic ''failed to load networks'')
    | _ \<Rightarrow>
        (let inner = (case loaded of
               Some (Inr inner) \<Rightarrow> inner
             | _ \<Rightarrow> \<lparr>sn_networks = fold (\<lambda>n. hm_insert (net_name n) n) all_default [],
                     sn_current = net_name (hd all_default)\<rparr>);
             s = \<lparr>nw_inner = inner, nw_file = disk, nw_sent = [], nw_spawned = []\<rparr> in
         case run_seq [nw_save i, broadcast_init] s of
           (Inl e, _) \<Rightarrow> Inl e
         | (Inr _, s') \<Rightarrow> Inr s'))"

section \<open>Messages\<close>

datatype nw_msg =
    NwSetCurrent network_get_key
  | NwAdd new_network_params
  | NwUpdate string network
  | NwRemove string
  | NwUpdateStatuses "(string \<times> network) list"

text \<open>A message with what the outside answers while it is handled.\<close>

type_synonym nw_input = "probe \<times> io \<times> nw_msg"

fun nw_handle :: "nw_input \<Rightarrow> (networks_actor, nw_error, unit) handler" where
  "nw_handle (probe, i, NwSetCurrent key) = nw_set_current i key"
| "nw_handle (probe, i, NwAdd params) = nw_add probe i params"
| "nw_handle (probe, i, NwUpdate old_name n) = nw_update i old_name n"
| "nw_handle (probe, i, NwRemove name) = nw_remove i name"
| "nw_handle (probe, i, NwUpdateStatuses updates) = nw_update_statuses i updates"

section \<open>The poller and the receiver\<close>

text \<open>
  One network polled: the poll runs out of its two seconds, or the node is asked. The results
  come in the order the polls complete, which is the order of the list.
\<close>

datatype poll_outcome = PollTimeout | Polled bool bool

definition poll_one :: "poll_outcome \<Rightarrow> string \<times> network \<Rightarrow> string \<times> network \<times> network_status option" where
  "poll_one outcome e =
    (case e of (key, n) \<Rightarrow>
      (case outcome of
        PollTimeout \<Rightarrow> (key, n, None)
      | Polled connects answers \<Rightarrow>
          (case poll_status (\<lambda>_. connects) (\<lambda>_. answers) n of (change, n') \<Rightarrow> (key, n', change))))"

definition poll_results :: "(network \<Rightarrow> poll_outcome) \<Rightarrow> network list \<Rightarrow> (string \<times> network \<times> network_status option) list" where
  "poll_results outcome ns = map (\<lambda>n. poll_one (outcome n) (net_name n, n)) ns"

text \<open>What one round of the poller sends to the actor, if anything.\<close>

definition status_poller_round :: "(network \<Rightarrow> poll_outcome) \<Rightarrow> network list \<Rightarrow> nw_msg option" where
  "status_poller_round outcome ns =
    (let rs = poll_results outcome ns in
      if list_ex (\<lambda>(_, _, change). change \<noteq> None) rs
      then Some (NwUpdateStatuses (map (\<lambda>(key, n, _). (key, n)) rs))
      else None)"

text \<open>What the receiver asks of the actor for a message of the internal bus.\<close>

fun nw_receiver :: "internal_msg \<Rightarrow> nw_msg option" where
  "nw_receiver (ChainChanged i domain a) =
    (if is_global a \<or> is_unset a then Some (NwSetCurrent (KeyId i)) else None)"
| "nw_receiver (StackAdd params) = Some (NwAdd params)"
| "nw_receiver (StackRemove name) = Some (NwRemove name)"
| "nw_receiver _ = None"

text \<open>\<open>get_network\<close>: a chain id that no network has is an error.\<close>

definition get_network :: "networks_actor \<Rightarrow> u64 \<Rightarrow> nw_error + network" where
  "get_network s c = ok_or NetworkNotFound (nw_get s (KeyChainId c))"

section \<open>What the handlers do to the state\<close>

lemma set_nets_simps [simp]:
  "nets (set_nets m s) = m" "current (set_nets m s) = current s"
  "nw_file (set_nets m s) = nw_file s" "nw_sent (set_nets m s) = nw_sent s"
  "nw_spawned (set_nets m s) = nw_spawned s"
  by (simp_all add: set_nets_def)

lemma set_current_name_simps [simp]:
  "nets (set_current_name c s) = nets s" "current (set_current_name c s) = c"
  "nw_file (set_current_name c s) = nw_file s" "nw_sent (set_current_name c s) = nw_sent s"
  "nw_spawned (set_current_name c s) = nw_spawned s"
  by (simp_all add: set_current_name_def)

lemma nw_send_simps [simp]:
  "nw_inner (nw_send m s) = nw_inner s" "nw_file (nw_send m s) = nw_file s"
  "nw_sent (nw_send m s) = nw_sent s @ [m]" "nw_spawned (nw_send m s) = nw_spawned s"
  by (simp_all add: nw_send_def)

lemma get_current_inner_cong:
  "nw_inner s = nw_inner t \<Longrightarrow> get_current_inner s = get_current_inner t"
  by (auto simp: get_current_inner_def split: option.split list.split)

lemma get_current_inner_frame [simp]:
  "get_current_inner (s\<lparr>nw_spawned := xs\<rparr>) = get_current_inner s"
  "get_current_inner (s\<lparr>nw_sent := ys\<rparr>) = get_current_inner s"
  "get_current_inner (s\<lparr>nw_file := f\<rparr>) = get_current_inner s"
  "get_current_inner (nw_send m s) = get_current_inner s"
  by (rule get_current_inner_cong, simp)+

lemma nw_save_eq:
  "nw_save i s =
    (if i = IoOk then (Inr (), s\<lparr>nw_file := Saved (nw_inner s)\<rparr>)
     else (Inl NwIo, s\<lparr>nw_file := snd (write_file i (nw_inner s) (nw_file s))\<rparr>))"
  by (cases i) (simp_all add: nw_save_def)

lemma nw_save_simps [simp]:
  "nw_inner (snd (nw_save i s)) = nw_inner s"
  "nw_sent (snd (nw_save i s)) = nw_sent s"
  "nw_spawned (snd (nw_save i s)) = nw_spawned s"
  "fst (nw_save i s) = (if i = IoOk then Inr () else Inl NwIo)"
  "nw_file (snd (nw_save i s)) = snd (write_file i (nw_inner s) (nw_file s))"
  by (cases i; simp add: nw_save_def)+


text \<open>The two tails the handlers share: announcing a new current network, and saving.\<close>

definition announce :: "network \<Rightarrow> networks_actor \<Rightarrow> networks_actor" where
  "announce n s = s\<lparr>nw_spawned := nw_spawned s @ [ChainChanged (net_id n) None Global],
     nw_sent := nw_sent s @ [Notify CurrentNetworkChangedUI, Bus (CurrentNetworkChanged n)]\<rparr>"

definition save_then :: "io \<Rightarrow> sent list \<Rightarrow> (networks_actor, nw_error, unit) handler" where
  "save_then i msgs s =
    (if i = IoOk then (Inr (), s\<lparr>nw_file := Saved (nw_inner s), nw_sent := nw_sent s @ msgs\<rparr>)
     else (Inl NwIo, s\<lparr>nw_file := snd (write_file i (nw_inner s) (nw_file s))\<rparr>))"

lemma announce_simps [simp]:
  "nw_inner (announce n s) = nw_inner s" "nw_file (announce n s) = nw_file s"
  "nw_sent (announce n s) = nw_sent s @ [Notify CurrentNetworkChangedUI, Bus (CurrentNetworkChanged n)]"
  "nw_spawned (announce n s) = nw_spawned s @ [ChainChanged (net_id n) None Global]"
  by (simp_all add: announce_def)

lemma save_then_simps [simp]:
  "nw_inner (snd (save_then i msgs s)) = nw_inner s"
  "nw_spawned (snd (save_then i msgs s)) = nw_spawned s"
  "fst (save_then i msgs s) = (if i = IoOk then Inr () else Inl NwIo)"
  "nw_file (snd (save_then i msgs s)) = snd (write_file i (nw_inner s) (nw_file s))"
  "nw_sent (snd (save_then i msgs s)) = nw_sent s @ (if i = IoOk then msgs else [])"
  by (cases i; simp add: save_then_def)+

lemma on_network_changed_eq:
  "on_network_changed s =
    (case get_current_inner s of Inl e \<Rightarrow> (Inl e, s) | Inr n \<Rightarrow> (Inr (), announce n s))"
  by (auto simp: on_network_changed_def nw_notify_peers_def broadcast_current_def nw_send_def
      announce_def split: sum.split)

lemma save_then_eq:
  "run_seq [nw_save i] s = save_then i [] s"
  "run_seq [nw_save i, step (nw_send a), step (nw_send b)] s = save_then i [a, b] s"
  by (cases i; simp add: nw_save_def nw_send_def save_then_def)+

lemma get_current_present: "hm_get (nets s) (current s) = Some n \<Longrightarrow> get_current_inner s = Inr n"
  by (simp add: get_current_inner_def)

lemma get_current_inserted [simp]:
  "get_current_inner (set_current_name k (set_nets (hm_insert k n m) s)) = Inr n"
  by (rule get_current_present) simp

lemma nw_set_current_eq:
  "nw_set_current i key s =
    (case nw_resolve s key of
      Inl e \<Rightarrow> (Inl e, s)
    | Inr name \<Rightarrow>
        (case get_current_inner s of
          Inl e \<Rightarrow> (Inl e, s)
        | Inr previous \<Rightarrow>
            (case get_current_inner (set_current_name name s) of
              Inl e \<Rightarrow> (Inl e, set_current_name name s)
            | Inr new \<Rightarrow>
                save_then i []
                  (if net_name previous \<noteq> net_name new then announce new (set_current_name name s)
                   else set_current_name name s))))"
  by (auto simp: nw_set_current_def Let_def on_network_changed_eq save_then_eq(1) [symmetric]
      split: sum.split)

lemma nw_add_eq:
  "nw_add probe i params s =
    (let n = into_network params (of_nat (get_chain_id_count s (np_chain_id params))) in
     if hm_contains (nets s) (np_name params) then (Inl AlreadyExists, s)
     else case is_dev probe n of
       Inl e \<Rightarrow> (Inl (NwNode e), s)
     | Inr dev \<Rightarrow>
         if \<not> dev \<and> list_ex (\<lambda>m. net_id m = net_id n) (hm_values (nets s)) then (Inl AlreadyExists, s)
         else save_then i [Bus (NetworkAdded n), Notify NetworksChanged]
                (set_nets (hm_insert (np_name params) n (nets s)) s))"
  by (simp add: nw_add_def Let_def save_then_eq(2) [symmetric] split: sum.split)

lemma nw_update_eq:
  "nw_update i old_name n s =
    (let s1 = set_nets (hm_insert (net_name n) n (hm_remove old_name (nets s))) s in
     if net_name n \<noteq> old_name \<and> hm_contains (nets s) (net_name n) then (Inl AlreadyExists, s)
     else save_then i [Bus (NetworkUpdated n), Notify NetworksChanged]
       (if current s = old_name then announce n (set_current_name (net_name n) s1) else s1))"
  by (simp add: nw_update_def Let_def on_network_changed_eq save_then_eq(2) [symmetric])

lemma nw_remove_eq:
  "nw_remove i name s =
    (let s1 = set_nets (hm_remove name (nets s)) s in
     case hm_get (nets s) name of
       None \<Rightarrow> (Inl DoesNotExist, s1)
     | Some n \<Rightarrow>
         if current s = name then
           (case hm_values (nets s1) of
             [] \<Rightarrow> (Inl NoNetworksRemaining, s1)
           | first # _ \<Rightarrow>
               (let s2 = set_current_name (net_name first) s1 in
                case get_current_inner s2 of
                  Inl e \<Rightarrow> (Inl e, s2)
                | Inr c \<Rightarrow> save_then i [Bus (NetworkRemoved n), Notify NetworksChanged] (announce c s2)))
         else save_then i [Bus (NetworkRemoved n), Notify NetworksChanged] s1)"
  by (simp add: nw_remove_def Let_def on_network_changed_eq save_then_eq(2) [symmetric]
      split: option.split list.split sum.split)

lemma nw_update_statuses_eq:
  "nw_update_statuses i updates s =
    save_then i [] (set_nets (fold (\<lambda>(key, n). hm_insert key n) updates (nets s)) s)"
  by (simp add: nw_update_statuses_def save_then_eq(1) [symmetric])

lemmas nw_handler_eqs = nw_set_current_eq nw_add_eq nw_update_eq nw_remove_eq nw_update_statuses_eq

lemma save_failed_file:
  "i \<noteq> IoOk \<Longrightarrow> snd (write_file i x f) = f \<or> snd (write_file i x f) = Truncated"
  by (cases i) simp_all

lemma save_then_ok: "fst (save_then i msgs s) = Inr u \<Longrightarrow> nw_file (snd (save_then i msgs s)) = Saved (nw_inner s)"
  by (cases i) (simp_all add: save_then_def)

lemma save_then_error:
  "fst (save_then i msgs s) = Inl e \<Longrightarrow> nw_file (snd (save_then i msgs s)) = nw_file s \<or> nw_file (snd (save_then i msgs s)) = Truncated"
  by (cases i) (simp_all add: save_then_def)

lemma nw_handle_file:
  "(case fst (nw_handle m s) of
      Inr _ \<Rightarrow> nw_file (snd (nw_handle m s)) = Saved (nw_inner (snd (nw_handle m s)))
    | Inl _ \<Rightarrow> nw_file (snd (nw_handle m s)) = nw_file s \<or> nw_file (snd (nw_handle m s)) = Truncated)"
proof (cases m rule: nw_handle.cases)
  case (1 probe i key)
  then show ?thesis
    by (cases i) (auto simp: nw_set_current_eq split: sum.split)
next
  case (2 probe i params)
  then show ?thesis
    by (cases i) (auto simp: nw_add_eq Let_def split: sum.split)
next
  case (3 probe i old n)
  then show ?thesis
    by (cases i) (auto simp: nw_update_eq Let_def split: sum.split)
next
  case (4 probe i name)
  then show ?thesis
    by (cases i) (auto simp: nw_remove_eq Let_def split: sum.split option.split list.split)
next
  case (5 probe i ups)
  then show ?thesis
    by (cases i) (auto simp: nw_update_statuses_eq split: sum.split)
qed

section \<open>The invariant: every network is stored under its own name\<close>

definition keyed :: "(string, network) hmap \<Rightarrow> bool" where
  "keyed m = (hm_ok m \<and> list_all (\<lambda>(k, n). net_name n = k) m)"

definition nw_wf :: "networks_actor \<Rightarrow> bool" where
  "nw_wf s = keyed (nets s)"

text \<open>The poller sends each network under its name; nothing is asked of the other messages.\<close>

fun nw_admissible :: "nw_input \<Rightarrow> bool" where
  "nw_admissible (probe, i, NwUpdateStatuses updates) = list_all (\<lambda>(k, n). net_name n = k) updates"
| "nw_admissible _ = True"

lemma keyed_ok [simp]: "keyed m \<Longrightarrow> hm_ok m"
  by (simp add: keyed_def)

lemma keyed_entry: "keyed m \<Longrightarrow> (k, n) \<in> set m \<Longrightarrow> net_name n = k"
  by (auto simp: keyed_def list_all_iff)

lemma keyed_get: "keyed m \<Longrightarrow> hm_get m k = Some n \<Longrightarrow> net_name n = k"
  by (metis keyed_entry map_of_SomeD)

lemma keyed_insert: "keyed m \<Longrightarrow> net_name n = k \<Longrightarrow> keyed (hm_insert k n m)"
  by (auto simp: keyed_def list_all_iff hm.entries_insert)

lemma keyed_remove: "keyed m \<Longrightarrow> keyed (hm_remove k m)"
  by (auto simp: keyed_def list_all_iff hm.entries_remove)

lemma keyed_fold:
  "keyed m \<Longrightarrow> list_all (\<lambda>(k, n). net_name n = k) ups \<Longrightarrow> keyed (fold (\<lambda>(key, n). hm_insert key n) ups m)"
  by (induction ups arbitrary: m) (auto simp: keyed_insert)

lemma keyed_value: "keyed m \<Longrightarrow> n \<in> set (hm_values m) \<Longrightarrow> hm_get m (net_name n) = Some n"
  by (auto dest: keyed_entry)

lemma nw_handle_nets:
  "nets (snd (nw_handle (probe, i, m) s)) = nets s \<or>
    (case m of
      NwAdd params \<Rightarrow> \<exists>d. nets (snd (nw_handle (probe, i, m) s)) = hm_insert (np_name params) (into_network params d) (nets s)
    | NwUpdate old n \<Rightarrow> nets (snd (nw_handle (probe, i, m) s)) = hm_insert (net_name n) n (hm_remove old (nets s))
    | NwRemove name \<Rightarrow> nets (snd (nw_handle (probe, i, m) s)) = hm_remove name (nets s)
    | NwUpdateStatuses ups \<Rightarrow> nets (snd (nw_handle (probe, i, m) s)) = fold (\<lambda>(key, n). hm_insert key n) ups (nets s)
    | NwSetCurrent key \<Rightarrow> False)"
  by (cases m)
     (auto simp: nw_handler_eqs Let_def split: sum.split option.split list.split)

lemma nw_wf_handle:
  assumes "nw_wf s" and "nw_admissible m"
  shows "nw_wf (snd (nw_handle m s))"
proof -
  obtain probe i msg where m: "m = (probe, i, msg)" by (cases m)
  show ?thesis
    using nw_handle_nets [of probe i msg s] assms unfolding m nw_wf_def
    by (cases msg) (auto simp: keyed_insert keyed_remove keyed_fold)
qed

interpretation nw: saved_component nw_handle nw_admissible nw_wf nw_inner nw_file "\<lambda>inner. keyed (sn_networks inner)"
proof unfold_locales
  fix m s x assume "fst (nw_handle m s) = Inr x"
  then show "nw_file (snd (nw_handle m s)) = Saved (nw_inner (snd (nw_handle m s)))"
    using nw_handle_file [of m s] by simp
next
  fix m s e assume "fst (nw_handle m s) = Inl e"
  then show "nw_file (snd (nw_handle m s)) = nw_file s \<or> nw_file (snd (nw_handle m s)) = Truncated"
    using nw_handle_file [of m s] by simp
qed (auto simp: nw_wf_def intro: nw_wf_handle [unfolded nw_wf_def])

definition nw_default :: serialized_networks where
  "nw_default = \<lparr>sn_networks = [(''Anvil'', anvil 0), (''Mainnet'', mainnet 0), (''Sepolia'', sepolia 0)],
     sn_current = ''Anvil''\<rparr>"

lemma nw_default_eq:
  "\<lparr>sn_networks = fold (\<lambda>n. hm_insert (net_name n) n) all_default [], sn_current = net_name (hd all_default)\<rparr> = nw_default"
  by (simp add: nw_default_def types_defs)

lemma keyed_default: "keyed (sn_networks nw_default)"
  by (simp add: nw_default_def keyed_def types_defs)

lemma fold_send_frame:
  "nw_inner (fold (\<lambda>n. nw_send (f n)) ns s) = nw_inner s \<and> nw_file (fold (\<lambda>n. nw_send (f n)) ns s) = nw_file s"
  by (induction ns arbitrary: s) simp_all

lemma broadcast_init_frame:
  "nw_inner (snd (broadcast_init s)) = nw_inner s" "nw_file (snd (broadcast_init s)) = nw_file s"
  by (simp_all add: broadcast_init_def broadcast_current_def fold_send_frame split: sum.split)

lemma nw_on_start_cases:
  assumes "nw_on_start i loaded disk = Inr s"
  shows "nw_file s = Saved (nw_inner s)"
    and "nw_inner s = (case loaded of Some (Inr inner) \<Rightarrow> inner | _ \<Rightarrow> nw_default)"
proof -
  define inner where "inner = (case loaded of Some (Inr inner) \<Rightarrow> inner | _ \<Rightarrow> nw_default)"
  define s0 where "s0 = \<lparr>nw_inner = inner, nw_file = disk, nw_sent = [], nw_spawned = []\<rparr>"
  from assms have run: "run_seq [nw_save i, broadcast_init] s0 = (Inr (), s)"
    unfolding nw_on_start_def nw_default_eq Let_def inner_def [symmetric] s0_def [symmetric]
    by (auto split: option.splits sum.splits prod.splits)
  then have "i = IoOk" and s: "broadcast_init (snd (nw_save i s0)) = (Inr (), s)"
    by (auto simp: nw_save_eq split: if_splits sum.splits prod.splits)
  from s have "nw_inner s = nw_inner (snd (nw_save i s0))" "nw_file s = nw_file (snd (nw_save i s0))"
    using broadcast_init_frame [of "snd (nw_save i s0)"] by simp_all
  with \<open>i = IoOk\<close> show "nw_file s = Saved (nw_inner s)" "nw_inner s = (case loaded of Some (Inr inner) \<Rightarrow> inner | _ \<Rightarrow> nw_default)"
    by (simp_all add: s0_def inner_def)
qed

lemma nw_on_start_default:
  "nw_on_start i None disk = Inr s \<Longrightarrow> nw_inner s = nw_default \<and> nw_file s = Saved nw_default \<and> nw_wf s"
  using nw_on_start_cases [of i None disk s] keyed_default by (simp add: nw_wf_def)

lemma get_current_nonempty: "nets s \<noteq> [] \<longleftrightarrow> (\<exists>n \<in> set (hm_values (nets s)). get_current_inner s = Inr n)"
proof
  assume "nets s \<noteq> []"
  then show "\<exists>n \<in> set (hm_values (nets s)). get_current_inner s = Inr n"
    by (cases "hm_get (nets s) (current s)"; cases "nets s")
       (auto simp: get_current_inner_def dest: map_of_SomeD split: if_splits; force dest: map_of_SomeD)+
qed auto

lemma nw_get_name: "nw_wf s \<Longrightarrow> nw_get s (KeyName k) = hm_get (nets s) k"
proof (cases "hm_get (nets s) k")
  case None
  assume wf: "nw_wf s"
  have "\<not> (\<exists>n \<in> set (hm_values (nets s)). net_name n = k)"
    using wf None keyed_value [of "nets s"] unfolding nw_wf_def by (metis option.distinct(1))
  then have "List.find (\<lambda>n. net_name n = k) (hm_values (nets s)) = None"
    by (simp only: find_None_set) blast
  with None show ?thesis by (simp add: nw_get_def)
next
  case (Some n)
  assume wf: "nw_wf s"
  then have "net_name n = k" using Some keyed_get by (simp add: nw_wf_def)
  moreover have "n \<in> set (hm_values (nets s))" using Some by (force dest: map_of_SomeD)
  ultimately obtain n' where n': "List.find (\<lambda>n. net_name n = k) (hm_values (nets s)) = Some n'"
    using find_exists [of "hm_values (nets s)"] by blast
  with wf have "hm_get (nets s) k = Some n'"
    using keyed_value [of "nets s" n'] find_Some_set [OF n'] unfolding nw_wf_def by simp
  with Some n' show ?thesis by (simp add: nw_get_def)
qed

lemma get_current_announce [simp]: "get_current_inner (announce n s) = get_current_inner s"
  by (rule get_current_inner_cong) simp

section \<open>Network identifiers\<close>

definition ids :: "networks_actor \<Rightarrow> network_id list" where
  "ids s = map net_id (hm_values (nets s))"

text \<open>The deduplication ids of a chain are exactly the numbers below the count of its networks.\<close>

definition dense_ids :: "networks_actor \<Rightarrow> u64 \<Rightarrow> bool" where
  "dense_ids s c = (set (map dedup_id (filter (\<lambda>n. chain_id n = c) (hm_values (nets s))))
     = of_nat ` {..<get_chain_id_count s c})"

lemma ids_iff: "i \<in> set (ids s) \<longleftrightarrow> (\<exists>n \<in> set (hm_values (nets s)). net_id n = i)"
  by (force simp: ids_def)

lemma of_nat_u64_inj: "m < 2 ^ 64 \<Longrightarrow> n < 2 ^ 64 \<Longrightarrow> (of_nat m :: u64) = of_nat n \<Longrightarrow> m = n"
  by (drule arg_cong [of _ _ unat]) (simp add: unat_of_nat)

lemma values_insert_new: "\<not> hm_contains m k \<Longrightarrow> hm_insert k v m = m @ [(k, v)]"
  by (induction m) (auto simp: hm_contains_keys)

lemma dense_fresh:
  assumes "dense_ids s c" and "get_chain_id_count s c < 2 ^ 64"
  shows "network_id_from (c, of_nat (get_chain_id_count s c)) \<notin> set (ids s)"
proof
  assume "network_id_from (c, of_nat (get_chain_id_count s c)) \<in> set (ids s)"
  then obtain n where n: "n \<in> set (hm_values (nets s))"
    and i: "net_id n = network_id_from (c, of_nat (get_chain_id_count s c))"
    by (auto simp only: ids_iff)
  then have "chain_id n = c" and d: "dedup_id n = of_nat (get_chain_id_count s c)"
    by (simp_all add: chain_id_def dedup_id_def network_id_from_def)
  with n have "dedup_id n \<in> set (map dedup_id (filter (\<lambda>n. chain_id n = c) (hm_values (nets s))))"
    unfolding set_map set_filter by (intro image_eqI [of _ _ n]) simp_all
  then have "dedup_id n \<in> of_nat ` {..<get_chain_id_count s c}"
    using assms(1) by (simp only: dense_ids_def)
  then obtain j where "j < get_chain_id_count s c" "of_nat j = (of_nat (get_chain_id_count s c) :: u64)"
    using d by auto
  with assms(2) show False
    using of_nat_u64_inj [of j "get_chain_id_count s c"] by simp
qed

lemma dense_add:
  assumes "nw_wf s" and "dense_ids s c" and "fst (nw_add probe i params s) = Inr ()"
    and "np_chain_id params = c"
  shows "dense_ids (snd (nw_add probe i params s)) c"
proof -
  let ?n = "into_network params (of_nat (get_chain_id_count s c))"
  have new: "\<not> hm_contains (nets s) (np_name params)"
    and nets: "nets (snd (nw_add probe i params s)) = hm_insert (np_name params) ?n (nets s)"
    using assms(3,4) by (auto simp: nw_add_eq Let_def split: if_splits sum.splits)
  from new assms(1) have "nets (snd (nw_add probe i params s)) = nets s @ [(np_name params, ?n)]"
    by (simp add: nets values_insert_new)
  then show ?thesis
    using assms(2,4) by (auto simp: dense_ids_def get_chain_id_count_def lessThan_Suc)
qed

text \<open>A network that is added successfully can be looked up under its name, has the
  requested chain id, and gets an identifier no network had before, if its node is not a
  development node or the identifiers of its chain are gapless (and gapless they stay).\<close>

theorem add_gives_fresh_id:
  assumes "nw_wf s" and "fst (nw_add probe i params s) = Inr ()"
    and "is_dev probe (into_network params (of_nat (get_chain_id_count s (np_chain_id params)))) = Inr False
      \<or> dense_ids s (np_chain_id params) \<and> get_chain_id_count s (np_chain_id params) < 2 ^ 64"
  shows "\<exists>n. nw_get (snd (nw_add probe i params s)) (KeyName (np_name params)) = Some n
      \<and> chain_id n = np_chain_id params \<and> net_id n \<notin> set (ids s)
      \<and> (dense_ids s (np_chain_id params) \<longrightarrow> dense_ids (snd (nw_add probe i params s)) (np_chain_id params))"
proof -
  let ?n = "into_network params (of_nat (get_chain_id_count s (np_chain_id params)))"
  have new: "\<not> hm_contains (nets s) (np_name params)"
    and nets: "nets (snd (nw_add probe i params s)) = hm_insert (np_name params) ?n (nets s)"
    and dev: "is_dev probe ?n = Inr False \<Longrightarrow> \<forall>m \<in> set (hm_values (nets s)). net_id m \<noteq> net_id ?n"
    using assms(2) by (auto simp: nw_add_eq Let_def list_ex_iff split: if_splits sum.splits)
  have "nw_wf (snd (nw_add probe i params s))"
    using nw_wf_handle [of s "(probe, i, NwAdd params)"] assms(1) by simp
  then have "nw_get (snd (nw_add probe i params s)) (KeyName (np_name params)) = Some ?n"
    by (simp add: nw_get_name nets)
  moreover have "net_id ?n \<notin> set (ids s)"
    using assms(3)
  proof
    assume "is_dev probe ?n = Inr False"
    then show ?thesis using dev by (simp only: ids_iff) blast
  qed (use dense_fresh in simp)
  ultimately show ?thesis
    using dense_add [OF assms(1) _ assms(2)] by (intro exI [of _ ?n]) simp
qed

definition local_params :: "string \<Rightarrow> new_network_params" where
  "local_params name = \<lparr>np_name = name, np_chain_id = 31337, np_explorer_url = None,
     np_http_url = Url ''http://localhost:8546'', np_ws_url = None, np_currency = ''ETH'',
     np_decimals = 18, np_is_stack = False\<rparr>"

definition default_actor :: networks_actor where
  "default_actor = \<lparr>nw_inner = nw_default, nw_file = Saved nw_default, nw_sent = [], nw_spawned = []\<rparr>"

theorem add_gives_fresh_id_witness:
  "\<exists>n. nw_get (snd (nw_add (\<lambda>_. Inr False) IoOk (local_params ''B'') default_actor)) (KeyName ''B'') = Some n
      \<and> chain_id n = 31337 \<and> net_id n \<notin> set (ids default_actor)
      \<and> dense_ids (snd (nw_add (\<lambda>_. Inr False) IoOk (local_params ''B'') default_actor)) 31337"
proof -
  have "nw_wf default_actor" by (simp add: nw_wf_def default_actor_def keyed_default)
  moreover have "fst (nw_add (\<lambda>_. Inr False) IoOk (local_params ''B'') default_actor) = Inr ()"
    by (simp add: nw_add_eq default_actor_def nw_default_def local_params_def is_dev_anvil hm_contains_def Let_def)
  moreover have "dense_ids default_actor 31337" "get_chain_id_count default_actor 31337 < 2 ^ 64"
    by (simp_all add: dense_ids_def get_chain_id_count_def default_actor_def nw_default_def types_defs lessThan_Suc)
  ultimately show ?thesis
    using add_gives_fresh_id [of default_actor "\<lambda>_. Inr False" IoOk "local_params ''B''"]
    by (simp add: local_params_def)
qed

text \<open>The deduplication id is the count of the networks of the chain, so
  it is not fresh after a removal: adding, removing the older network and adding again leaves two
  development networks with the same identifier.\<close>

theorem add_after_remove_duplicates_id:
  "let run = run_msgs nw_handle
     [(probe, IoOk, NwAdd (local_params ''B'')),
      (probe, IoOk, NwRemove ''Anvil''),
      (probe, IoOk, NwAdd (local_params ''C''))] default_actor in
   map_option net_id (nw_get run (KeyName ''B'')) = Some \<lparr>id_chain_id = 31337, id_dedup_id = 1\<rparr>
   \<and> map_option net_id (nw_get run (KeyName ''C'')) = Some \<lparr>id_chain_id = 31337, id_dedup_id = 1\<rparr>"
  by (simp add: nw_handler_eqs default_actor_def nw_default_def local_params_def is_dev_anvil
        hm_contains_def Let_def nw_get_def get_chain_id_count_def types_defs set_nets_def
        set_current_name_def announce_def save_then_def get_current_inner_def)


section \<open>Switching, renaming and removing\<close>

lemma find_values_chain:
  "validate_chain_id s c \<longleftrightarrow> (\<exists>n. List.find (\<lambda>n. chain_id n = c) (hm_values (nets s)) = Some n)"
  by (subst find_exists [symmetric]) (auto simp: validate_chain_id_def list_ex_iff)

text \<open>Switching to a chain id: if some network has it, the first such network
  becomes the current one, the switch is saved, and it is announced exactly when the name of the
  current network changed; if none has it, the message fails and changes nothing.\<close>

theorem set_current_by_chain:
  assumes "nw_wf s"
  shows "if validate_chain_id s c
    then \<exists>previous n s'. get_current_inner s = Inr previous \<and> nw_get s (KeyChainId c) = Some n \<and> chain_id n = c
      \<and> nw_set_current IoOk (KeyChainId c) s = (Inr (), s')
      \<and> get_current_inner s' = Inr n \<and> nets s' = nets s \<and> nw_file s' = Saved (nw_inner s')
      \<and> nw_sent s' = nw_sent s @ (if net_name previous = net_name n then []
          else [Notify CurrentNetworkChangedUI, Bus (CurrentNetworkChanged n)])
    else nw_set_current IoOk (KeyChainId c) s = (Inl NetworkNotFound, s)"
proof (cases "validate_chain_id s c")
  case True
  then obtain n where n: "List.find (\<lambda>n. chain_id n = c) (hm_values (nets s)) = Some n"
    using find_values_chain by blast
  then have v: "n \<in> set (hm_values (nets s))" and c: "chain_id n = c"
    using find_Some_set [OF n] by auto
  then have "nets s \<noteq> []" by auto
  then obtain previous where prev: "get_current_inner s = Inr previous"
    using get_current_nonempty by blast
  have new: "get_current_inner (set_current_name (net_name n) s) = Inr n"
    using keyed_value [OF _ v] assms by (intro get_current_present) (simp add: nw_wf_def)
  have res: "nw_resolve s (KeyChainId c) = Inr (net_name n)"
    by (simp add: nw_resolve_def n)
  have "nw_set_current IoOk (KeyChainId c) s = save_then IoOk []
      (if net_name previous \<noteq> net_name n then announce n (set_current_name (net_name n) s)
       else set_current_name (net_name n) s)"
    by (simp add: nw_set_current_eq res prev new)
  then show ?thesis
    using True c prev n new by (auto simp: save_then_def nw_get_def)
next
  case False
  then have "List.find (\<lambda>n. chain_id n = c) (hm_values (nets s)) = None"
    using find_values_chain by (cases "List.find (\<lambda>n. chain_id n = c) (hm_values (nets s))") auto
  with False show ?thesis by (simp add: nw_set_current_eq nw_resolve_def)
qed

theorem set_current_by_chain_witness:
  "nw_wf default_actor
   \<and> get_current_inner (snd (nw_set_current IoOk (KeyChainId 1) default_actor)) = Inr (mainnet 0)"
proof -
  have wf: "nw_wf default_actor" by (simp add: nw_wf_def default_actor_def keyed_default)
  moreover have "validate_chain_id default_actor 1"
    "nw_get default_actor (KeyChainId 1) = Some (mainnet 0)"
    by (simp_all add: validate_chain_id_def nw_get_def default_actor_def nw_default_def types_defs)
  ultimately show ?thesis
    using set_current_by_chain [OF wf, of 1] by auto
qed

text \<open>Updating a network whose new name is free or unchanged succeeds: the network is
  found under its new name only, every other network is untouched, and the current network
  follows the renaming and is announced.\<close>

theorem update_renames:
  assumes "nw_wf s"
    and "net_name n = old_name \<or> \<not> hm_contains (nets s) (net_name n)"
  shows "\<exists>s'. nw_update IoOk old_name n s = (Inr (), s')
    \<and> nw_get s' (KeyName (net_name n)) = Some n
    \<and> (net_name n \<noteq> old_name \<longrightarrow> nw_get s' (KeyName old_name) = None)
    \<and> (\<forall>k. k \<noteq> old_name \<longrightarrow> k \<noteq> net_name n \<longrightarrow> nw_get s' (KeyName k) = nw_get s (KeyName k))
    \<and> current s' = (if current s = old_name then net_name n else current s)
    \<and> (current s = old_name \<longrightarrow> Bus (CurrentNetworkChanged n) \<in> set (nw_sent s'))"
proof -
  define s' where "s' = snd (nw_update IoOk old_name n s)"
  have wf': "nw_wf s'"
    using nw_wf_handle [of s "(\<lambda>_. Inr False, IoOk, NwUpdate old_name n)"] assms(1) by (simp add: s'_def)
  have "nw_update IoOk old_name n s = (Inr (), s')"
    and nets': "nets s' = hm_insert (net_name n) n (hm_remove old_name (nets s))"
    and "current s' = (if current s = old_name then net_name n else current s)"
    and "current s = old_name \<Longrightarrow> Bus (CurrentNetworkChanged n) \<in> set (nw_sent s')"
    using assms(2) by (auto simp: s'_def nw_update_eq Let_def save_then_def)
  then show ?thesis
    by (auto simp: nw_get_name [OF wf'] nw_get_name [OF assms(1)] nets')
qed

theorem update_renames_witness:
  "\<exists>s'. nw_update IoOk ''Anvil'' ((anvil 0)\<lparr>net_name := ''Local''\<rparr>) default_actor = (Inr (), s')
    \<and> nw_get s' (KeyName ''Anvil'') = None \<and> current s' = ''Local''"
proof -
  have "nw_wf default_actor" by (simp add: nw_wf_def default_actor_def keyed_default)
  moreover have "\<not> hm_contains (nets default_actor) ''Local''" "current default_actor = ''Anvil''"
    by (simp_all add: default_actor_def nw_default_def hm_contains_def)
  ultimately show ?thesis
    using update_renames [of default_actor "(anvil 0)\<lparr>net_name := ''Local''\<rparr>" "''Anvil''"] by auto
qed


lemma remove_nonempty:
  assumes "hm_ok m" and "2 \<le> length m"
  shows "hm_remove k m \<noteq> []"
proof
  assume "hm_remove k m = []"
  then have "set m \<subseteq> {e. fst e = k}" using hm.entries_remove [OF assms(1), of k] by auto
  then have "set (map fst m) \<subseteq> {k}" by auto
  then have "card (set (map fst m)) \<le> 1" using card_mono [of "{k}"] by fastforce
  with assms distinct_card [of "map fst m"] show False by simp
qed

lemma nw_remove_current:
  assumes "nw_wf s" and "hm_get (nets s) name = Some n" and "current s = name" and "2 \<le> length (nets s)"
  shows "\<exists>c. c \<in> set (hm_values (hm_remove name (nets s)))
    \<and> nw_remove i name s = save_then i [Bus (NetworkRemoved n), Notify NetworksChanged]
        (announce c (set_current_name (net_name c) (set_nets (hm_remove name (nets s)) s)))"
proof -
  let ?m = "hm_remove name (nets s)"
  have keyed: "keyed ?m" using assms(1) by (simp add: nw_wf_def keyed_remove)
  have "?m \<noteq> []"
    using remove_nonempty [of "nets s" name] assms(1,4) by (simp add: nw_wf_def)
  then obtain k c rest where m: "?m = (k, c) # rest" by (cases ?m) auto
  then have c: "c \<in> set (hm_values ?m)" by simp
  have "get_current_inner (set_current_name (net_name c) (set_nets ?m s)) = Inr c"
    by (rule get_current_present) (use keyed_value [OF keyed c] in simp)
  with assms m c show ?thesis
    by (intro exI [of _ c] conjI) (simp_all add: nw_remove_eq Let_def)
qed

text \<open>Removing a known network succeeds when another one remains or it is not the
  current one: it is gone, the others are untouched, and the current network still exists.\<close>

theorem remove_network:
  assumes "nw_wf s" and "hm_contains (nets s) (current s)" and "hm_contains (nets s) name"
    and "current s = name \<Longrightarrow> 2 \<le> length (nets s)"
  shows "\<exists>s'. nw_remove IoOk name s = (Inr (), s') \<and> nw_get s' (KeyName name) = None
    \<and> (\<forall>k. k \<noteq> name \<longrightarrow> nw_get s' (KeyName k) = nw_get s (KeyName k))
    \<and> hm_contains (nets s') (current s')
    \<and> (current s \<noteq> name \<longrightarrow> current s' = current s)"
proof -
  define s' where "s' = snd (nw_remove IoOk name s)"
  obtain n where n: "hm_get (nets s) name = Some n"
    using assms(3) by (auto simp: hm_contains_def)
  have wf': "nw_wf s'"
    using nw_wf_handle [of s "(\<lambda>_. Inr False, IoOk, NwRemove name)"] assms(1) by (simp add: s'_def)
  have "fst (nw_remove IoOk name s) = Inr () \<and> nets s' = hm_remove name (nets s)
    \<and> hm_contains (nets s') (current s') \<and> (current s \<noteq> name \<longrightarrow> current s' = current s)"
  proof (cases "current s = name")
    case True
    with nw_remove_current [OF assms(1) n True, of IoOk] assms(4)
    obtain c where c: "c \<in> set (hm_values (hm_remove name (nets s)))"
      and r: "nw_remove IoOk name s = save_then IoOk [Bus (NetworkRemoved n), Notify NetworksChanged]
        (announce c (set_current_name (net_name c) (set_nets (hm_remove name (nets s)) s)))"
      by blast
    have "hm_get (hm_remove name (nets s)) (net_name c) = Some c"
      using keyed_value [OF keyed_remove c] assms(1) by (simp add: nw_wf_def)
    with r True show ?thesis by (simp add: s'_def hm_contains_def)
  next
    case False
    with n assms(2) show ?thesis
      by (simp add: s'_def nw_remove_eq Let_def hm_contains_def)
  qed
  then show ?thesis
    using nw_get_name [OF wf'] nw_get_name [OF assms(1)]
    by (intro exI [of _ s']) (auto simp: s'_def prod_eq_iff)
qed

theorem remove_network_witness:
  "\<exists>s'. nw_remove IoOk ''Anvil'' default_actor = (Inr (), s') \<and> nw_get s' (KeyName ''Anvil'') = None
    \<and> hm_contains (nets s') (current s')"
proof -
  have "nw_wf default_actor" by (simp add: nw_wf_def default_actor_def keyed_default)
  moreover have "hm_contains (nets default_actor) (current default_actor)"
    "hm_contains (nets default_actor) ''Anvil''" "2 \<le> length (nets default_actor)"
    by (simp_all add: default_actor_def nw_default_def hm_contains_def)
  ultimately show ?thesis using remove_network [of default_actor "''Anvil''"] by auto
qed

text \<open>Removing the last network while it is current fails, but the network is
  already gone from memory (not from disk), and the next read of the current network panics.\<close>

theorem remove_last_network:
  assumes "nets s = [(name, n)]" and "current s = name"
  shows "fst (nw_remove i name s) = Inl NoNetworksRemaining
    \<and> nets (snd (nw_remove i name s)) = []
    \<and> nw_file (snd (nw_remove i name s)) = nw_file s
    \<and> get_current_inner (snd (nw_remove i name s)) = Inl (NwPanic ''No networks available'')"
  using assms by (simp add: nw_remove_eq Let_def get_current_inner_def)

definition one_network :: networks_actor where
  "one_network = \<lparr>nw_inner = \<lparr>sn_networks = [(''Anvil'', anvil 0)], sn_current = ''Anvil''\<rparr>,
     nw_file = Saved \<lparr>sn_networks = [(''Anvil'', anvil 0)], sn_current = ''Anvil''\<rparr>,
     nw_sent = [], nw_spawned = []\<rparr>"

theorem remove_last_network_witness:
  "fst (nw_remove IoOk ''Anvil'' one_network) = Inl NoNetworksRemaining"
  using remove_last_network [of one_network "''Anvil''" "anvil 0" IoOk] by (simp add: one_network_def)


section \<open>The status poller\<close>

lemma get_fold_insert:
  "hm_get (fold (\<lambda>(key, n). hm_insert key n) ups m) k =
    (case map_of (rev ups) k of None \<Rightarrow> hm_get m k | Some n \<Rightarrow> Some n)"
  by (induction ups arbitrary: m) (auto simp: map_add_def split: option.splits)

lemma poll_one_frame:
  assumes "poll_one outcome (key, n) = (key', n', change)"
  shows "key' = key" "net_name n' = net_name n" "net_id n' = net_id n"
  using assms by (auto simp: poll_one_def poll_status_def Let_def split: poll_outcome.splits if_splits)

lemma poller_updates:
  assumes "status_poller_round outcome ns = Some m"
  obtains ups where "m = NwUpdateStatuses ups"
    and "\<And>k n. (k, n) \<in> set ups \<Longrightarrow> net_name n = k \<and> (\<exists>n0 \<in> set ns. net_name n0 = k \<and> net_id n0 = net_id n)"
    and "\<And>n0. n0 \<in> set ns \<Longrightarrow> \<exists>n. (net_name n0, n) \<in> set ups"
proof
  let ?ups = "map (\<lambda>(key, n, _). (key, n)) (poll_results outcome ns)"
  show "m = NwUpdateStatuses ?ups"
    using assms by (simp add: status_poller_round_def Let_def split: if_splits)
  show "net_name n = k \<and> (\<exists>n0 \<in> set ns. net_name n0 = k \<and> net_id n0 = net_id n)"
    if kn: "(k, n) \<in> set ?ups" for k n
  proof -
    from kn obtain n0 change where n0: "n0 \<in> set ns" "poll_one (outcome n0) (net_name n0, n0) = (k, n, change)"
      by (auto simp: poll_results_def split: prod.splits)
    from poll_one_frame [OF n0(2)] n0(1) show ?thesis by auto
  qed
  show "\<exists>n. (net_name n0, n) \<in> set ?ups" if n0: "n0 \<in> set ns" for n0
  proof -
    obtain key n change where p: "poll_one (outcome n0) (net_name n0, n0) = (key, n, change)"
      by (cases "poll_one (outcome n0) (net_name n0, n0)")
    with poll_one_frame [OF p] n0 have "(net_name n0, n) \<in> set ?ups"
      by (force simp: poll_results_def)
    then show ?thesis ..
  qed
qed

lemma poller_admissible:
  "status_poller_round outcome ns = Some m \<Longrightarrow> nw_admissible (probe, i, m)"
  by (erule poller_updates) (auto simp: list_all_iff)

text \<open>A round of the status poller that read the list of networks before a
  removal and reports after it puts the removed network back, under its old identifier.\<close>

theorem stale_poll_restores_removed:
  assumes "nw_wf s" and "hm_get (nets s) name = Some n"
    and "status_poller_round outcome (nw_get_list s) = Some m"
  shows "\<exists>n'. nw_get (run_msgs nw_handle [(probe, i, NwRemove name), (probe', i', m)] s) (KeyName name)
      = Some n' \<and> net_id n' = net_id n"
proof -
  let ?s1 = "snd (nw_handle (probe, i, NwRemove name) s)"
  let ?s2 = "snd (nw_handle (probe', i', m) ?s1)"
  obtain ups where m: "m = NwUpdateStatuses ups"
    and ups: "\<And>k n. (k, n) \<in> set ups \<Longrightarrow> net_name n = k \<and> (\<exists>n0 \<in> set (nw_get_list s). net_name n0 = k \<and> net_id n0 = net_id n)"
    and all: "\<And>n0. n0 \<in> set (nw_get_list s) \<Longrightarrow> \<exists>n. (net_name n0, n) \<in> set ups"
    using poller_updates [OF assms(3)] by metis
  have "nw_wf ?s2"
    by (intro nw_wf_handle assms(1) poller_admissible [OF assms(3)]) simp
  have nets2: "nets ?s2 = fold (\<lambda>(key, n). hm_insert key n) ups (nets ?s1)"
    by (simp add: m nw_update_statuses_eq)
  have name: "net_name n = name" using keyed_get assms(1,2) by (simp add: nw_wf_def)
  have "n \<in> set (nw_get_list s)"
    using assms(2) by (force simp: nw_get_list_def dest: map_of_SomeD)
  then obtain n1 where "(name, n1) \<in> set ups" using all name by blast
  then obtain n' where n': "map_of (rev ups) name = Some n'"
    by (cases "map_of (rev ups) name") (force simp: map_of_eq_None_iff)+
  then have "(name, n') \<in> set ups" by (auto dest: map_of_SomeD)
  then obtain n0 where n0: "n0 \<in> set (nw_get_list s)" "net_name n0 = name" "net_id n0 = net_id n'"
    using ups by blast
  then have "n0 = n"
    using keyed_value [of "nets s" n0] assms(1,2) by (simp add: nw_wf_def nw_get_list_def)
  with n0 n' show ?thesis
    using nw_get_name [OF \<open>nw_wf ?s2\<close>, of name] nets2
    by (intro exI [of _ n']) (simp add: get_fold_insert)
qed

theorem stale_poll_restores_removed_witness:
  "\<exists>n'. nw_get (run_msgs nw_handle
      [((\<lambda>_. Inr False), IoOk, NwRemove ''Anvil''),
       ((\<lambda>_. Inr False), IoOk, the (status_poller_round (\<lambda>_. Polled True True) (nw_get_list default_actor)))]
      default_actor) (KeyName ''Anvil'') = Some n' \<and> net_id n' = net_id (anvil 0)"
proof -
  have "nw_wf default_actor" by (simp add: nw_wf_def default_actor_def keyed_default)
  moreover have "hm_get (nets default_actor) ''Anvil'' = Some (anvil 0)"
    by (simp add: default_actor_def nw_default_def)
  moreover have "status_poller_round (\<lambda>_. Polled True True) (nw_get_list default_actor) \<noteq> None"
    by (simp add: status_poller_round_def poll_results_def poll_one_def poll_status_def
        nw_get_list_def default_actor_def nw_default_def types_defs)
  ultimately show ?thesis
    using stale_poll_restores_removed [of default_actor "''Anvil''" "anvil 0" "\<lambda>_. Polled True True"] by auto
qed

section \<open>What reaches the disk\<close>

text \<open>C13. A message that reports success has saved the state it leaves; and after any
  run the file holds what it held before, a cut-short write, or a state that was in memory
  after one of the messages.\<close>

theorem networks_disk_history:
  "(is_ok (fst (nw_handle m s)) \<longrightarrow> nw_file (snd (nw_handle m s)) = Saved (nw_inner (snd (nw_handle m s))))
   \<and> (nw_file (run_msgs nw_handle ms s) = nw_file s \<or> nw_file (run_msgs nw_handle ms s) = Truncated
      \<or> (\<exists>n \<le> length ms. nw_file (run_msgs nw_handle ms s) = Saved (nw_inner (run_msgs nw_handle (take n ms) s))))"
  using nw.ok_saved [of m s] nw.disk_run [of ms s] by (auto simp: is_ok_iff)

theorem networks_disk_history_witness:
  "nw_file (snd (nw_handle ((\<lambda>_. Inr False), IoOk, NwRemove ''Anvil'') default_actor))
     = Saved (nw_inner (snd (nw_handle ((\<lambda>_. Inr False), IoOk, NwRemove ''Anvil'') default_actor)))"
proof -
  have "is_ok (fst (nw_handle ((\<lambda>_. Inr False), IoOk, NwRemove ''Anvil'') default_actor))"
    by (simp add: nw_remove_eq default_actor_def nw_default_def Let_def set_nets_def
        set_current_name_def get_current_inner_def)
  then show ?thesis
    using networks_disk_history [of "((\<lambda>_. Inr False), IoOk, NwRemove ''Anvil'')" default_actor "[]"] by blast
qed

end
