(* ===== verification/Json.thy ===== *)
theory Json
  imports Text
begin

text \<open>
  \<open>serde_json::Value\<close> and the accessors of it the program uses. An object is the list of its
  members, each key once. Indexing with a string gives \<open>Null\<close> where there is no such member;
  assigning through an index panics on a value that is neither an object nor \<open>Null\<close>.
\<close>

datatype json =
    JNull
  | JBool bool
  | JInt int
  | JFloat string
  | JStr string
  | JArr "json list"
  | JObj "(string \<times> json) list"

fun json_get :: "string \<Rightarrow> json \<Rightarrow> json" where
  "json_get k (JObj m) = (case hm_get m k of None \<Rightarrow> JNull | Some v \<Rightarrow> v)"
| "json_get k _ = JNull"

text \<open>\<open>Value::get\<close> with a string, which tells a missing member from \<open>Null\<close>.\<close>

fun json_member :: "string \<Rightarrow> json \<Rightarrow> json option" where
  "json_member k (JObj m) = hm_get m k"
| "json_member k _ = None"

fun json_at :: "nat \<Rightarrow> json \<Rightarrow> json" where
  "json_at i (JArr xs) = (if i < length xs then xs ! i else JNull)"
| "json_at i _ = JNull"

text \<open>\<open>value[k] = v\<close>; \<open>None\<close> is a panic.\<close>

fun json_set :: "string \<Rightarrow> json \<Rightarrow> json \<Rightarrow> json option" where
  "json_set k v (JObj m) = Some (JObj (hm_insert k v m))"
| "json_set k v JNull = Some (JObj [(k, v)])"
| "json_set k v _ = None"

definition json_is_null :: "json \<Rightarrow> bool" where
  "json_is_null j = (j = JNull)"

fun as_str :: "json \<Rightarrow> string option" where
  "as_str (JStr s) = Some s"
| "as_str _ = None"

fun as_bool :: "json \<Rightarrow> bool option" where
  "as_bool (JBool b) = Some b"
| "as_bool _ = None"

fun as_array :: "json \<Rightarrow> json list option" where
  "as_array (JArr xs) = Some xs"
| "as_array _ = None"

fun as_object :: "json \<Rightarrow> (string \<times> json) list option" where
  "as_object (JObj m) = Some m"
| "as_object _ = None"

fun as_u64 :: "json \<Rightarrow> u64 option" where
  "as_u64 (JInt n) = (if 0 \<le> n \<and> n < 2 ^ 64 then Some (of_int n) else None)"
| "as_u64 _ = None"

lemma json_get_set: "json_set k v j = Some j' \<Longrightarrow> json_get k' j' = (if k' = k then v else json_get k' j)"
  by (cases j) auto

text \<open>
  The start of every \<open>load_and_migrate\<close>: a missing \<open>version\<close> is set to zero before the value
  is read as one of the versions; \<open>None\<close> is the panic of an assignment into an array, a
  string, a number or a boolean.
\<close>

definition with_version :: "json \<Rightarrow> json option" where
  "with_version j = (if json_is_null (json_get ''version'' j) then json_set ''version'' (JInt 0) j else Some j)"

lemma with_version_set:
  "with_version j = Some j' \<Longrightarrow>
    json_get ''version'' j' = (if json_get ''version'' j = JNull then JInt 0 else json_get ''version'' j)
    \<and> (\<forall>k. k \<noteq> ''version'' \<longrightarrow> json_get k j' = json_get k j)"
  by (auto simp: with_version_def json_is_null_def json_get_set split: if_splits)

lemma with_version_object: "with_version (JObj m) \<noteq> None"
  by (simp add: with_version_def json_is_null_def)

end
