(* ===== verification/Networks_Migrations.thy ===== *)
theory Networks_Migrations
  imports Networks Json
begin

text \<open>
  The networks file (\<open>crates/networks/src/migrations.rs\<close>): the four versions it has had, and
  the conversions the actor applies to it when it starts. Reading a value as one of the
  versions is the work of the \<open>serde\<close> derives and is an argument. \<open>nw_lives\<close> is every state of the actor
  from any such start on, restarts on its own file included.
\<close>

record network_v0 =
  v0_name :: string
  v0_chain_id :: u64
  v0_explorer_url :: "string option"
  v0_http_url :: url
  v0_ws_url :: "url option"
  v0_currency :: string
  v0_decimals :: u32

record network_v1 =
  v1_deduplication_id :: u32
  v1_name :: string
  v1_chain_id :: u64
  v1_explorer_url :: "string option"
  v1_http_url :: url
  v1_ws_url :: "url option"
  v1_currency :: string
  v1_decimals :: u32

record 'n networks_version =
  nv_current :: string
  nv_networks :: "(string, 'n) hmap"

datatype networks_versions =
    NetV0 "network_v0 networks_version"
  | NetV1 "network_v0 networks_version"
  | NetV2 "network_v1 networks_version"
  | NetV3 serialized_networks

definition network_v0_to_v1 :: "network_v0 \<Rightarrow> network_v1" where
  "network_v0_to_v1 n = \<lparr>
    v1_deduplication_id = 0,
    v1_name = v0_name n,
    v1_chain_id = v0_chain_id n,
    v1_explorer_url = v0_explorer_url n,
    v1_http_url = v0_http_url n,
    v1_ws_url = v0_ws_url n,
    v1_currency = v0_currency n,
    v1_decimals = v0_decimals n\<rparr>"

definition migrate_networks_from_v1_to_v2 :: "(string, network_v0) hmap \<Rightarrow> (string, network_v1) hmap" where
  "migrate_networks_from_v1_to_v2 m = map (\<lambda>(name, n). (name, network_v0_to_v1 n)) m"

definition network_v1_to_network :: "network_v1 \<Rightarrow> network" where
  "network_v1_to_network n = \<lparr>
    net_id = network_id_from (v1_chain_id n, ucast (v1_deduplication_id n)),
    net_name = v1_name n,
    explorer_url = v1_explorer_url n,
    http_url = v1_http_url n,
    ws_url = v1_ws_url n,
    currency = v1_currency n,
    decimals = v1_decimals n,
    net_status = Unknown,
    is_stack = False\<rparr>"

definition migrate_networks_from_v2_to_v3 :: "(string, network_v1) hmap \<Rightarrow> (string, network) hmap" where
  "migrate_networks_from_v2_to_v3 m = map (\<lambda>(name, n). (name, network_v1_to_network n)) m"

text \<open>The recursion goes up one version at a time.\<close>

fun net_version :: "networks_versions \<Rightarrow> nat" where
  "net_version (NetV0 _) = 0"
| "net_version (NetV1 _) = 1"
| "net_version (NetV2 _) = 2"
| "net_version (NetV3 _) = 3"

function (sequential) nw_run_migrations :: "networks_versions \<Rightarrow> serialized_networks" where
  "nw_run_migrations (NetV0 v0) =
    nw_run_migrations (NetV1 \<lparr>nv_current = nv_current v0, nv_networks = nv_networks v0\<rparr>)"
| "nw_run_migrations (NetV1 v1) =
    nw_run_migrations (NetV2 \<lparr>nv_current = nv_current v1,
      nv_networks = migrate_networks_from_v1_to_v2 (nv_networks v1)\<rparr>)"
| "nw_run_migrations (NetV2 v2) =
    \<lparr>sn_networks = migrate_networks_from_v2_to_v3 (nv_networks v2), sn_current = nv_current v2\<rparr>"
| "nw_run_migrations (NetV3 latest) = latest"
  by pat_completeness auto

termination
  by (relation "measure (\<lambda>v. 3 - net_version v)") simp_all

text \<open>
  \<open>contents\<close> is the parsed file, or the error of opening or parsing it; \<open>from_value\<close> reads a
  value as one of the versions.
\<close>

definition nw_load_and_migrate :: "(json \<Rightarrow> string + networks_versions) \<Rightarrow> string + json
    \<Rightarrow> string + serialized_networks" where
  "nw_load_and_migrate from_value contents =
    (case contents of
      Inl e \<Rightarrow> Inl e
    | Inr j \<Rightarrow>
        (case with_version j of
          None \<Rightarrow> Inl ''panic''
        | Some j' \<Rightarrow> map_sum id nw_run_migrations (from_value j')))"

section \<open>What a migration keeps\<close>

lemma keys_v1_to_v2 [simp]: "hm_keys (migrate_networks_from_v1_to_v2 m) = hm_keys m"
  by (auto simp: migrate_networks_from_v1_to_v2_def)

lemma keys_v2_to_v3 [simp]: "hm_keys (migrate_networks_from_v2_to_v3 m) = hm_keys m"
  by (auto simp: migrate_networks_from_v2_to_v3_def)

lemma get_v1_to_v2: "hm_get (migrate_networks_from_v1_to_v2 m) k = map_option network_v0_to_v1 (hm_get m k)"
  by (simp add: migrate_networks_from_v1_to_v2_def map_of_map)

lemma get_v2_to_v3: "hm_get (migrate_networks_from_v2_to_v3 m) k = map_option network_v1_to_network (hm_get m k)"
  by (simp add: migrate_networks_from_v2_to_v3_def map_of_map)

lemma migrated_v0:
  "nw_run_migrations (NetV0 v0) =
    \<lparr>sn_networks = map (\<lambda>(name, n). (name, network_v1_to_network (network_v0_to_v1 n))) (nv_networks v0),
     sn_current = nv_current v0\<rparr>"
  by (simp add: migrate_networks_from_v1_to_v2_def migrate_networks_from_v2_to_v3_def case_prod_beta')

text \<open>
  A file of the first version whose networks are stored under their names and whose chain ids
  differ: what the actor starts from has the same current name, the same names and chain ids,
  no two networks with the same identifier, and satisfies the invariant of the actor.
\<close>

definition v0_ok :: "network_v0 networks_version \<Rightarrow> bool" where
  "v0_ok v = (hm_ok (nv_networks v) \<and> list_all (\<lambda>(k, n). v0_name n = k) (nv_networks v)
    \<and> distinct (map (\<lambda>(k, n). v0_chain_id n) (nv_networks v)))"

lemma migrated_entry:
  "network_v1_to_network (network_v0_to_v1 n) = 
   \<lparr>net_id = network_id_from (v0_chain_id n, 0), net_name = v0_name n, explorer_url = v0_explorer_url n,
    http_url = v0_http_url n, ws_url = v0_ws_url n, currency = v0_currency n, decimals = v0_decimals n,
    net_status = Unknown, is_stack = False\<rparr>"
  by (simp add: network_v1_to_network_def network_v0_to_v1_def)

lemma distinct_migrated_ids:
  "distinct (map (\<lambda>(k, n). v0_chain_id n) m) \<Longrightarrow>
    distinct (map (\<lambda>(k, n). net_id (network_v1_to_network (network_v0_to_v1 n))) m)"
  by (induction m) (auto simp: migrated_entry network_id_from_def)

lemma nw_on_start_loaded:
  "nw_on_start IoOk (Some (Inr inner)) disk =
    (case broadcast_init \<lparr>nw_inner = inner, nw_file = Saved inner, nw_sent = [], nw_spawned = []\<rparr> of
      (Inl e, _) \<Rightarrow> Inl e | (Inr _, s') \<Rightarrow> Inr s')"
  by (auto simp: nw_on_start_def nw_save_eq split: sum.splits prod.splits)

lemma broadcast_init_ok: "get_current_inner s = Inr c \<Longrightarrow> fst (broadcast_init s) = Inr ()"
proof -
  let ?t = "fold (\<lambda>n. nw_send (Bus (NetworkAdded n))) (hm_values (nets s)) s"
  assume "get_current_inner s = Inr c"
  moreover have "get_current_inner ?t = get_current_inner s"
    by (rule get_current_inner_cong) (simp add: fold_send_frame)
  ultimately show ?thesis by (simp add: broadcast_init_def broadcast_current_def)
qed

text \<open>A file of the first version whose networks are stored under their names and
  whose chain ids differ: the actor that starts from it satisfies its invariant, has saved the
  migrated value, knows the same names with the same chain ids, and no two of its networks have
  the same identifier.\<close>

theorem migrated_networks_start:
  assumes "v0_ok v" and "nv_networks v \<noteq> []" and "from_value (JObj (hm_insert ''version'' (JInt 0) m)) = Inr (NetV0 v)"
    and "json_get ''version'' (JObj m) = JNull"
  shows "\<exists>s. nw_on_start IoOk (Some (nw_load_and_migrate from_value (Inr (JObj m)))) disk = Inr s
    \<and> nw_wf s \<and> nw_file s = Saved (nw_inner s) \<and> current s = nv_current v
    \<and> hm_keys (nets s) = hm_keys (nv_networks v)
    \<and> (\<forall>k n0. hm_get (nv_networks v) k = Some n0 \<longrightarrow>
        (\<exists>n. hm_get (nets s) k = Some n \<and> chain_id n = v0_chain_id n0 \<and> http_url n = v0_http_url n0 \<and> dedup_id n = 0))
    \<and> distinct (map net_id (nw_get_list s))"
proof -
  define inner where "inner = nw_run_migrations (NetV0 v)"
  have load: "nw_load_and_migrate from_value (Inr (JObj m)) = Inr inner"
    using assms(3,4) by (simp add: nw_load_and_migrate_def with_version_def json_is_null_def inner_def)
  define s0 where "s0 = \<lparr>nw_inner = inner, nw_file = Saved inner, nw_sent = [], nw_spawned = []\<rparr>"
  have nets0: "nets s0 = map (\<lambda>(name, n). (name, network_v1_to_network (network_v0_to_v1 n))) (nv_networks v)"
    by (simp add: s0_def inner_def migrated_v0 del: nw_run_migrations.simps)
  have "nets s0 \<noteq> []" using assms(2) nets0 by simp
  then obtain c where c: "get_current_inner s0 = Inr c"
    unfolding get_current_nonempty by blast
  obtain s where s: "broadcast_init s0 = (Inr (), s)" "nw_inner s = inner" "nw_file s = Saved inner"
    using broadcast_init_ok [OF c] broadcast_init_frame [of s0] by (cases "broadcast_init s0") (auto simp: s0_def)
  show ?thesis
  proof (intro exI [of _ s] conjI)
    show "nw_on_start IoOk (Some (nw_load_and_migrate from_value (Inr (JObj m)))) disk = Inr s"
      using s(1) by (simp add: load nw_on_start_loaded s0_def)
    have nets: "nets s = nets s0" using s(2) by (simp add: s0_def)
    show keys: "hm_keys (nets s) = hm_keys (nv_networks v)" by (auto simp: nets nets0)
    have "list_all (\<lambda>(k, n). net_name n = k) (nets s)"
      using assms(1) by (auto simp: v0_ok_def nets nets0 list_all_iff migrated_entry)
    moreover have "hm_ok (nets s)" using assms(1) unfolding keys v0_ok_def by blast
    ultimately show "nw_wf s" by (simp add: nw_wf_def keyed_def)
    show "nw_file s = Saved (nw_inner s)" "current s = nv_current v"
      using s by (simp_all add: inner_def migrated_v0 del: nw_run_migrations.simps)
    show "\<forall>k n0. hm_get (nv_networks v) k = Some n0 \<longrightarrow>
        (\<exists>n. hm_get (nets s) k = Some n \<and> chain_id n = v0_chain_id n0 \<and> http_url n = v0_http_url n0 \<and> dedup_id n = 0)"
      unfolding nets nets0 by (simp add: map_of_map migrated_entry types_defs)
    show "distinct (map net_id (nw_get_list s))"
      using distinct_migrated_ids [of "nv_networks v"] assms(1)
      by (simp add: nw_get_list_def nets nets0 v0_ok_def case_prod_beta' comp_def)
  qed
qed
definition old_file :: "network_v0 networks_version" where
  "old_file = \<lparr>nv_current = ''Anvil'', nv_networks =
    [(''Anvil'', \<lparr>v0_name = ''Anvil'', v0_chain_id = 31337, v0_explorer_url = None,
        v0_http_url = Url ''http://localhost:8545'', v0_ws_url = None, v0_currency = ''ETH'', v0_decimals = 18\<rparr>)]\<rparr>"

theorem migrated_networks_start_witness:
  "\<exists>s. nw_on_start IoOk (Some (nw_load_and_migrate (\<lambda>j. if json_get ''version'' j = JInt 0 then Inr (NetV0 old_file) else Inl ''no match'')
      (Inr (JObj [])))) Absent = Inr s \<and> nw_wf s \<and> current s = ''Anvil''"
  using migrated_networks_start [of old_file
      "\<lambda>j. if json_get ''version'' j = JInt 0 then Inr (NetV0 old_file) else Inl ''no match''" "[]" Absent]
  by (auto simp: v0_ok_def old_file_def)

section \<open>The life of the actor\<close>

text \<open>A file of any version whose networks are stored under their names.\<close>

fun version_keyed :: "networks_versions \<Rightarrow> bool" where
  "version_keyed (NetV0 v) = (hm_ok (nv_networks v) \<and> list_all (\<lambda>(k, n). v0_name n = k) (nv_networks v))"
| "version_keyed (NetV1 v) = (hm_ok (nv_networks v) \<and> list_all (\<lambda>(k, n). v0_name n = k) (nv_networks v))"
| "version_keyed (NetV2 v) = (hm_ok (nv_networks v) \<and> list_all (\<lambda>(k, n). v1_name n = k) (nv_networks v))"
| "version_keyed (NetV3 inner) = keyed (sn_networks inner)"

text \<open>
  The states of the actor over the life of an installation: started without a file, started on a file of some
  version, handling any message the application sends it (updates of statuses come from the poller alone, from
  any list of networks it has read), and started again on the file it left. A file that was cut short does
  not load, and the actor does not start on it.
\<close>

inductive nw_lives :: "networks_actor \<Rightarrow> bool" where
  fresh: "nw_on_start i None disk = Inr s \<Longrightarrow> nw_lives s"
| migrates: "version_keyed v \<Longrightarrow> nw_on_start i (Some (Inr (nw_run_migrations v))) disk = Inr s \<Longrightarrow> nw_lives s"
| restarts: "nw_lives s \<Longrightarrow> nw_file s = Saved inner \<Longrightarrow>
    nw_on_start i (Some (Inr (nw_run_migrations (NetV3 inner)))) (nw_file s) = Inr s' \<Longrightarrow> nw_lives s'"
| handles: "nw_lives s \<Longrightarrow> (\<And>ups. msg \<noteq> NwUpdateStatuses ups) \<Longrightarrow> nw_lives (snd (nw_handle (probe, i, msg) s))"
| polls: "nw_lives s \<Longrightarrow> status_poller_round outcome ns = Some msg \<Longrightarrow> nw_lives (snd (nw_handle (probe, i, msg) s))"

lemma version_keyed_v1_to_v2:
  "version_keyed (NetV1 v) \<Longrightarrow> version_keyed (NetV2 \<lparr>nv_current = c, nv_networks = migrate_networks_from_v1_to_v2 (nv_networks v)\<rparr>)"
  by (simp only: version_keyed.simps networks_version.simps keys_v1_to_v2)
    (auto simp: migrate_networks_from_v1_to_v2_def network_v0_to_v1_def list_all_iff)

lemma version_keyed_v2_to_v3:
  "version_keyed (NetV2 v) \<Longrightarrow> keyed (migrate_networks_from_v2_to_v3 (nv_networks v))"
  by (simp only: version_keyed.simps keyed_def keys_v2_to_v3)
    (auto simp: migrate_networks_from_v2_to_v3_def network_v1_to_network_def list_all_iff)

lemma version_keyed_runs: "version_keyed v \<Longrightarrow> keyed (sn_networks (nw_run_migrations v))"
proof (induction v rule: nw_run_migrations.induct)
  case (2 v1)
  then show ?case using version_keyed_v1_to_v2 by (simp only: nw_run_migrations.simps)
next
  case (3 v2)
  then show ?case using version_keyed_v2_to_v3 by (simp only: nw_run_migrations.simps serialized_networks.simps)
qed simp_all

definition nw_stored_keyed :: "networks_actor \<Rightarrow> bool" where
  "nw_stored_keyed s = (nw_wf s \<and> (\<forall>inner. nw_file s = Saved inner \<longrightarrow> keyed (sn_networks inner)))"

lemma start_stored_keyed:
  assumes "nw_on_start i loaded disk = Inr s" "\<And>inner. loaded = Some (Inr inner) \<Longrightarrow> keyed (sn_networks inner)"
  shows "nw_stored_keyed s"
proof -
  have "keyed (sn_networks (nw_inner s))"
    using nw_on_start_cases(2) [OF assms(1)] assms(2) keyed_default by (auto split: option.splits sum.splits)
  with nw_on_start_cases(1) [OF assms(1)] show ?thesis by (simp add: nw_stored_keyed_def nw_wf_def)
qed

lemma handle_stored_keyed:
  assumes "nw_stored_keyed s" "nw_admissible m"
  shows "nw_stored_keyed (snd (nw_handle m s))"
proof -
  have m: "\<forall>x \<in> set [m]. nw_admissible x" using assms(2) by simp
  have "nw_wf (snd (nw_handle m s))" using nw_wf_handle [OF _ assms(2)] assms(1) by (simp add: nw_stored_keyed_def)
  moreover have "keyed (sn_networks inner)" if "nw_file (snd (nw_handle m s)) = Saved inner" for inner
    using nw.disk_good [of s "[m]" inner] assms(1) m that by (simp add: nw_stored_keyed_def)
  ultimately show ?thesis by (simp add: nw_stored_keyed_def)
qed

text \<open>C12. In every state of the life of the actor, started without a file, on a file of any of the four versions
  whose networks are stored under their names, or on the file it left itself, and whatever messages it has
  handled (updates of statuses being those the poller sends, of whatever networks it had read) and however its saves, probes and polls
  turned out, every network in memory and in the file is stored
  under its own name.\<close>

theorem networks_stay_keyed:
  assumes "nw_lives s"
  shows "keyed (nets s) \<and> (\<forall>inner. nw_file s = Saved inner \<longrightarrow> keyed (sn_networks inner))"
proof -
  from assms have "nw_stored_keyed s"
  proof induction
    case (migrates v i disk s)
    then show ?case using start_stored_keyed version_keyed_runs by blast
  next
    case (restarts s inner i s')
    then show ?case using start_stored_keyed [OF restarts.hyps(3)] by (simp add: nw_stored_keyed_def)
  next
    case (handles s msg probe i)
    have "nw_admissible (probe, i, msg)" using handles.hyps(2) by (cases msg) auto
    with handles.IH show ?case by (rule handle_stored_keyed)
  next
    case (polls s outcome ns msg probe i)
    with poller_admissible handle_stored_keyed show ?case by blast
  qed (use start_stored_keyed in auto)
  then show ?thesis by (simp add: nw_stored_keyed_def nw_wf_def)
qed

theorem networks_stay_keyed_witness:
  "\<exists>s s'. nw_lives s \<and> hm_contains (nets s) ''B'' \<and> nw_on_start IoOk (Some (Inr (nw_inner s))) (nw_file s) = Inr s' \<and> keyed (nets s')"
proof -
  obtain s0 where s0: "nw_on_start IoOk None Absent = Inr s0" "nw_inner s0 = nw_default"
    by (simp add: nw_on_start_def nw_default_eq nw_save_eq broadcast_init_def broadcast_current_def
        nw_default_def get_current_inner_def nw_send_def Let_def)
  let ?s = "snd (nw_handle ((\<lambda>_. Inr False), IoOk, NwAdd (local_params ''B'')) s0)"
  have lives: "nw_lives ?s" by (rule nw_lives.handles [OF nw_lives.fresh [OF s0(1)]]) simp
  have add: "fst (nw_handle ((\<lambda>_. Inr False), IoOk, NwAdd (local_params ''B'')) s0) = Inr () \<and> hm_contains (nets ?s) ''B''"
    by (simp add: nw_handler_eqs s0(2) nw_default_def local_params_def is_dev_anvil hm_contains_def Let_def
        get_chain_id_count_def types_defs set_nets_def save_then_def)
  then have inner: "hm_contains (nets ?s) ''B''" "nw_file ?s = Saved (nw_inner ?s)" "nets ?s \<noteq> []"
    using nw.ok_saved [OF conjunct1 [OF add]] by (auto simp: hm_contains_def)
  obtain s' where s': "nw_on_start IoOk (Some (Inr (nw_inner ?s))) (nw_file ?s) = Inr s'"
  proof -
    let ?t = "\<lparr>nw_inner = nw_inner ?s, nw_file = Saved (nw_inner ?s), nw_sent = [], nw_spawned = []\<rparr>"
    have "nets ?t \<noteq> []" using inner(3) by simp
    then obtain c where "get_current_inner ?t = Inr c" unfolding get_current_nonempty by blast
    from broadcast_init_ok [OF this] show thesis
      using that by (cases "broadcast_init ?t") (auto simp: nw_on_start_loaded)
  qed
  have "nw_lives s'" using nw_lives.restarts [OF lives inner(2)] s' by simp
  with networks_stay_keyed [OF this] lives inner(1) s' show ?thesis by blast
qed

end
