(* ===== verification/Onboarding.thy ===== *)
theory Onboarding
  imports Prelude
begin

text \<open>
  The onboarding checklist (\<open>crates/settings/src/onboarding.rs\<close>): which of its five steps are
  finished and whether it is hidden.
\<close>

datatype onboarding_step = StepAlchemy | StepEtherscan | StepWallet | StepExtension | StepFoundry

definition STEP_COUNT :: nat where
  "STEP_COUNT = 5"

record onboarding =
  ob_hidden :: bool
  ob_steps :: "(onboarding_step, bool) hmap"

definition ob_default :: onboarding where
  "ob_default = \<lparr>ob_hidden = False, ob_steps = []\<rparr>"

definition all_done :: onboarding where
  "all_done = \<lparr>ob_hidden = True, ob_steps = []\<rparr>"

definition is_step_finished :: "onboarding \<Rightarrow> onboarding_step \<Rightarrow> bool" where
  "is_step_finished ob st = (case hm_get (ob_steps ob) st of None \<Rightarrow> False | Some v \<Rightarrow> v)"

definition is_all_finished :: "onboarding \<Rightarrow> bool" where
  "is_all_finished ob = (length (ob_steps ob) = STEP_COUNT \<and> list_all (\<lambda>v. v) (hm_values (ob_steps ob)))"

definition finish_step :: "onboarding_step \<Rightarrow> onboarding \<Rightarrow> onboarding" where
  "finish_step st ob =
    (let ob' = ob\<lparr>ob_steps := hm_insert st True (ob_steps ob)\<rparr> in
      ob'\<lparr>ob_hidden := is_all_finished ob'\<rparr>)"

definition finish :: "onboarding \<Rightarrow> onboarding" where
  "finish ob = ob\<lparr>ob_hidden := True,
     ob_steps := fold (\<lambda>st. hm_insert st True)
       [StepExtension, StepWallet, StepAlchemy, StepEtherscan, StepFoundry] (ob_steps ob)\<rparr>"

text \<open>The deserializer reads the steps alone and recomputes \<open>hidden\<close>.\<close>

definition ob_deserialize :: "(onboarding_step, bool) hmap \<Rightarrow> onboarding" where
  "ob_deserialize steps =
    \<lparr>ob_hidden = (length steps = STEP_COUNT \<and> list_all (\<lambda>v. v) (hm_values steps)), ob_steps = steps\<rparr>"

section \<open>Hidden means finished\<close>

text \<open>
  The checklist is hidden exactly when every step is finished. It does not hold of
  \<open>all_done\<close>, which hides it with no step finished.
\<close>

definition all_steps :: "onboarding_step list" where
  "all_steps = [StepAlchemy, StepEtherscan, StepWallet, StepExtension, StepFoundry]"

definition ob_ok :: "onboarding \<Rightarrow> bool" where
  "ob_ok ob = (hm_ok (ob_steps ob) \<and> ob_hidden ob = list_all (is_step_finished ob) all_steps)"

lemma all_steps_set [simp]: "st \<in> set all_steps"
  by (cases st) (simp_all add: all_steps_def)

lemma all_steps_distinct: "distinct all_steps" and all_steps_length: "length all_steps = 5"
  by (simp_all add: all_steps_def)

text \<open>A map with as many entries as there are steps has every step as a key.\<close>

lemma five_keys:
  assumes "hm_ok m" and "length m = 5"
  shows "set (hm_keys m) = set all_steps"
proof (rule card_subset_eq)
  show "card (set (hm_keys m)) = card (set all_steps)"
    using assms distinct_card [of "hm_keys m"] distinct_card [OF all_steps_distinct] all_steps_length by simp
qed auto

lemma five_keys_length:
  assumes "hm_ok m" and "set (hm_keys m) = set all_steps"
  shows "length m = 5"
  using assms distinct_card [of "hm_keys m"] distinct_card [OF all_steps_distinct] all_steps_length by simp

lemma is_all_finished_iff:
  assumes ok: "hm_ok (ob_steps ob)"
  shows "is_all_finished ob \<longleftrightarrow> list_all (is_step_finished ob) all_steps"
proof
  assume all: "is_all_finished ob"
  have "is_step_finished ob st" for st
  proof -
    have "st \<in> set (hm_keys (ob_steps ob))"
      using five_keys [OF ok] all by (simp add: is_all_finished_def STEP_COUNT_def)
    then obtain v where v: "hm_get (ob_steps ob) st = Some v" by (auto simp: map_of_eq_Some_iff [OF ok])
    then have "v" using all by (force simp: is_all_finished_def list_all_iff dest: map_of_SomeD)
    with v show ?thesis by (simp add: is_step_finished_def)
  qed
  then show "list_all (is_step_finished ob) all_steps" by (simp add: list_all_iff)
next
  assume "list_all (is_step_finished ob) all_steps"
  then have each: "is_step_finished ob st" for st by (simp add: list_all_iff)
  have fin: "hm_get (ob_steps ob) st = Some True" for st
    using each [of st] by (cases "hm_get (ob_steps ob) st") (simp_all add: is_step_finished_def)
  have keys: "set (hm_keys (ob_steps ob)) = set all_steps"
    using fin by (force dest: map_of_SomeD)
  have "v" if "(st, v) \<in> set (ob_steps ob)" for st v
    using fin [of st] that map_of_is_SomeI [OF ok that] by simp
  then show "is_all_finished ob"
    using five_keys_length [OF ok keys] by (auto simp: is_all_finished_def STEP_COUNT_def list_all_iff)
qed

lemma ob_ok_default: "ob_ok ob_default"
  by (simp add: ob_ok_def ob_default_def all_steps_def is_step_finished_def)

lemma ob_ok_finish_step: "ob_ok ob \<Longrightarrow> ob_ok (finish_step st ob)"
  using is_all_finished_iff [of "ob\<lparr>ob_steps := hm_insert st True (ob_steps ob)\<rparr>"]
  by (simp add: ob_ok_def finish_step_def Let_def is_step_finished_def [abs_def])

lemma ob_ok_finish: "ob_ok ob \<Longrightarrow> ob_ok (finish ob)"
  by (simp add: ob_ok_def finish_def is_step_finished_def all_steps_def)

lemma ob_ok_deserialize: "hm_ok steps \<Longrightarrow> ob_ok (ob_deserialize steps)"
  using is_all_finished_iff [of "ob_deserialize steps"]
  by (simp add: ob_ok_def ob_deserialize_def is_all_finished_def)

lemma ob_reload: "ob_ok ob \<Longrightarrow> ob_deserialize (ob_steps ob) = ob"
  using is_all_finished_iff [of ob]
  by (cases ob) (simp add: ob_ok_def ob_deserialize_def is_all_finished_def)

end
