(* ===== verification/Settings.thy ===== *)
theory Settings
  imports Ethui_Types Components Json Onboarding
begin

text \<open>
  The settings actor (\<open>crates/settings\<close>): the settings, the file they are saved to, what the
  actor broadcasts and the messages it sends itself. \<open>set_all\<close> goes through the members of a
  JSON object one at a time; each may panic on a value of the wrong type (the actor survives
  with what it had changed so far) or stop at an error. What the outside answers while a message
  is handled (the key checks, the operating system, the log filter, the save) is a
  \<open>settings_env\<close>.
\<close>

section \<open>State\<close>

datatype dark_mode = DmAuto | DmDark | DmLight

record settings =
  dark_mode :: dark_mode
  abi_watch_path :: "string option"
  alchemy_api_key :: "string option"
  etherscan_api_key :: "string option"
  walletconnect_project_id :: "string option"
  hide_empty_tokens :: bool
  aliases :: "(address, string) hmap"
  fast_mode :: bool
  autostart :: bool
  start_minimized :: bool
  check_for_updates :: bool
  rust_log :: string
  run_local_stacks :: bool
  st_onboarding :: onboarding

definition settings_default :: settings where
  "settings_default = \<lparr>
    dark_mode = DmAuto,
    abi_watch_path = None,
    alchemy_api_key = None,
    etherscan_api_key = None,
    walletconnect_project_id = None,
    hide_empty_tokens = True,
    aliases = [],
    fast_mode = False,
    autostart = False,
    start_minimized = False,
    check_for_updates = True,
    rust_log = ''warn'',
    run_local_stacks = False,
    st_onboarding = ob_default\<rparr>"

datatype set_value =
    SetAll "(string \<times> json) list"
  | SetDarkMode dark_mode
  | SetFastMode bool
  | FinishOnboardingStep onboarding_step
  | FinishOnboarding
  | SetAlias address "string option"
  | SetRunLocalStacks bool

record settings_actor =
  st_inner :: settings
  st_file :: "settings disk_file"
  st_sent :: "sent list"
  st_told :: "set_value list"

datatype settings_error = StIo | StPanic | StKey string | StAutostart | StTracing

section \<open>The key checks\<close>

text \<open>
  What a request for the block number comes back with; an HTTP error carries its body, read as
  JSON where it can be.
\<close>

datatype block_reply = BlockOk | BlockHttpError "json option" | BlockOther | BadUrl

definition test_alchemy_api_key :: "(string \<Rightarrow> block_reply) \<Rightarrow> string \<Rightarrow> settings_error + unit" where
  "test_alchemy_api_key get_block_number key =
    (case get_block_number (''https://eth-mainnet.g.alchemy.com/v2/'' @ key) of
      BadUrl \<Rightarrow> Inl (StKey ''invalid URL'')
    | BlockOk \<Rightarrow> Inr ()
    | BlockHttpError body \<Rightarrow>
        (let msg = (case body of
               None \<Rightarrow> None
             | Some j \<Rightarrow> as_str (json_get ''message'' (json_get ''error'' j))) in
          Inl (StKey (case msg of None \<Rightarrow> ''Invalid API key or connection failed'' | Some m \<Rightarrow> m)))
    | BlockOther \<Rightarrow> Inl (StKey ''Failed to connect''))"

definition test_etherscan_api_key :: "(string \<Rightarrow> string \<Rightarrow> string + unit) \<Rightarrow> string \<Rightarrow> settings_error + unit" where
  "test_etherscan_api_key contract_source_code key =
    map_sum StKey id (contract_source_code key ''0xA0b86991c6218b36c1d19D4a2e9Eb0cE3606eB48'')"

record settings_env =
  env_block_number :: "string \<Rightarrow> block_reply"
  env_source_code :: "string \<Rightarrow> string \<Rightarrow> string + unit"
  env_autostart :: "bool \<Rightarrow> bool"
  env_reload :: "string \<Rightarrow> bool"
  env_io :: io

section \<open>Reading JSON values\<close>

text \<open>\<open>from_value\<close> at the types of the fields; \<open>None\<close> is its error.\<close>

fun dark_mode_from_value :: "json \<Rightarrow> dark_mode option" where
  "dark_mode_from_value (JStr s) =
    (if s = ''auto'' then Some DmAuto
     else if s = ''dark'' then Some DmDark
     else if s = ''light'' then Some DmLight
     else None)"
| "dark_mode_from_value _ = None"

fun opt_string_from_value :: "json \<Rightarrow> string option option" where
  "opt_string_from_value JNull = Some None"
| "opt_string_from_value (JStr s) = Some (Some s)"
| "opt_string_from_value _ = None"

text \<open>\<open>Some(v).filter(|s| !s.is_empty())\<close>.\<close>

definition some_nonempty :: "string \<Rightarrow> string option" where
  "some_nonempty s = (if s = [] then None else Some s)"

section \<open>Operations\<close>

type_synonym settings_handler = "(settings_actor, settings_error, unit) handler"

definition st_upd :: "(settings \<Rightarrow> settings) \<Rightarrow> settings_handler" where
  "st_upd f = step (\<lambda>s. s\<lparr>st_inner := f (st_inner s)\<rparr>)"

definition st_save :: "io \<Rightarrow> settings_handler" where
  "st_save i s =
    (case write_file i (st_inner s) (st_file s) of
      (ok, f) \<Rightarrow>
        if ok then (Inr (), s\<lparr>st_file := f, st_sent := st_sent s @ [Bus SettingsUpdated, Notify SettingsChanged]\<rparr>)
        else (Inl StIo, s\<lparr>st_file := f\<rparr>))"

definition get_all :: "settings_actor \<Rightarrow> settings" where
  "get_all s = st_inner s"

definition get_alias :: "settings_actor \<Rightarrow> address \<Rightarrow> string option" where
  "get_alias s a = hm_get (aliases (st_inner s)) a"

text \<open>\<open>if let Some(v) = map.get(key)\<close>, and \<open>from_value(v).unwrap()\<close>.\<close>

definition on_member :: "(string \<times> json) list \<Rightarrow> string \<Rightarrow> (json \<Rightarrow> settings_handler) \<Rightarrow> settings_handler" where
  "on_member m key f = (case hm_get m key of None \<Rightarrow> step id | Some v \<Rightarrow> f v)"

definition unwrap :: "'a option \<Rightarrow> ('a \<Rightarrow> settings_handler) \<Rightarrow> settings_handler" where
  "unwrap x f s = (case x of None \<Rightarrow> (Inl StPanic, s) | Some v \<Rightarrow> f v s)"

definition guard_ok :: "settings_error + unit \<Rightarrow> settings_handler" where
  "guard_ok r s = (case r of Inl e \<Rightarrow> (Inl e, s) | Inr _ \<Rightarrow> (Inr (), s))"

definition tell_unfinished :: "onboarding_step \<Rightarrow> settings_handler" where
  "tell_unfinished st s =
    (Inr (), if \<not> is_step_finished (st_onboarding (st_inner s)) st
             then s\<lparr>st_told := st_told s @ [FinishOnboardingStep st]\<rparr> else s)"

definition set_alchemy_key :: "settings_env \<Rightarrow> json \<Rightarrow> settings_handler" where
  "set_alchemy_key env v =
    run_seq
      [tell_unfinished StepAlchemy,
       unwrap (as_str v) (\<lambda>key.
         run_seq
           [case some_nonempty key of
              None \<Rightarrow> step id
            | Some k \<Rightarrow> guard_ok (test_alchemy_api_key (env_block_number env) k),
            st_upd (\<lambda>x. x\<lparr>alchemy_api_key := some_nonempty key\<rparr>)])]"

definition set_etherscan_key :: "settings_env \<Rightarrow> json \<Rightarrow> settings_handler" where
  "set_etherscan_key env v =
    run_seq
      [tell_unfinished StepEtherscan,
       unwrap (as_str v) (\<lambda>key.
         run_seq
           [case some_nonempty key of
              None \<Rightarrow> step id
            | Some k \<Rightarrow> guard_ok (test_etherscan_api_key (env_source_code env) k),
            st_upd (\<lambda>x. x\<lparr>etherscan_api_key := some_nonempty key\<rparr>)])]"

definition set_all_steps :: "settings_env \<Rightarrow> (string \<times> json) list \<Rightarrow> settings_handler list" where
  "set_all_steps env m =
    [on_member m ''darkMode'' (\<lambda>v. unwrap (dark_mode_from_value v) (\<lambda>d. st_upd (\<lambda>x. x\<lparr>dark_mode := d\<rparr>))),
     on_member m ''abiWatchPath'' (\<lambda>v. unwrap (opt_string_from_value v) (\<lambda>p. st_upd (\<lambda>x. x\<lparr>abi_watch_path := p\<rparr>))),
     on_member m ''alchemyApiKey'' (set_alchemy_key env),
     on_member m ''etherscanApiKey'' (set_etherscan_key env),
     on_member m ''walletconnectProjectId'' (\<lambda>v. unwrap (as_str v)
       (\<lambda>p. st_upd (\<lambda>x. x\<lparr>walletconnect_project_id := some_nonempty p\<rparr>))),
     on_member m ''hideEmptyTokens'' (\<lambda>v. unwrap (as_bool v) (\<lambda>b. st_upd (\<lambda>x. x\<lparr>hide_empty_tokens := b\<rparr>))),
     on_member m ''autostart'' (\<lambda>v. unwrap (as_bool v) (\<lambda>b.
       run_seq [st_upd (\<lambda>x. x\<lparr>autostart := b\<rparr>),
                guard_ok (if env_autostart env b then Inr () else Inl StAutostart)])),
     on_member m ''startMinimized'' (\<lambda>v. unwrap (as_bool v) (\<lambda>b. st_upd (\<lambda>x. x\<lparr>start_minimized := b\<rparr>))),
     on_member m ''fastMode'' (\<lambda>v. unwrap (as_bool v) (\<lambda>b. st_upd (\<lambda>x. x\<lparr>fast_mode := b\<rparr>))),
     on_member m ''rustLog'' (\<lambda>v. unwrap (as_str v) (\<lambda>l.
       run_seq [guard_ok (if env_reload env l then Inr () else Inl StTracing),
                st_upd (\<lambda>x. x\<lparr>rust_log := l\<rparr>)])),
     on_member m ''runLocalStacks'' (\<lambda>v. unwrap (as_bool v) (\<lambda>b. st_upd (\<lambda>x. x\<lparr>run_local_stacks := b\<rparr>)))]"

definition clean_alias :: "string option \<Rightarrow> string option" where
  "clean_alias a = (case a of None \<Rightarrow> None | Some v \<Rightarrow> some_nonempty (trim v))"

fun set_steps :: "settings_env \<Rightarrow> set_value \<Rightarrow> settings_handler list" where
  "set_steps env (SetAll m) = set_all_steps env m"
| "set_steps env (SetDarkMode d) = [st_upd (\<lambda>x. x\<lparr>dark_mode := d\<rparr>)]"
| "set_steps env (SetFastMode b) = [st_upd (\<lambda>x. x\<lparr>fast_mode := b\<rparr>)]"
| "set_steps env (FinishOnboardingStep st) =
    [st_upd (\<lambda>x. x\<lparr>st_onboarding := finish_step st (st_onboarding x)\<rparr>)]"
| "set_steps env FinishOnboarding = [st_upd (\<lambda>x. x\<lparr>st_onboarding := finish (st_onboarding x)\<rparr>)]"
| "set_steps env (SetAlias addr a) =
    [st_upd (\<lambda>x. x\<lparr>aliases :=
       (case clean_alias a of
         Some v \<Rightarrow> hm_insert addr v (aliases x)
       | None \<Rightarrow> hm_remove addr (aliases x))\<rparr>)]"
| "set_steps env (SetRunLocalStacks b) = [st_upd (\<lambda>x. x\<lparr>run_local_stacks := b\<rparr>)]"

definition st_set :: "settings_env \<Rightarrow> set_value \<Rightarrow> settings_handler" where
  "st_set env v = run_seq (set_steps env v @ [st_save (env_io env)])"

fun st_handle :: "settings_env \<times> set_value \<Rightarrow> settings_handler" where
  "st_handle (env, v) = st_set env v"

text \<open>Starting the actor; \<open>loaded\<close> is \<open>None\<close> when there is no file.\<close>

definition st_on_start :: "settings_env \<Rightarrow> (string + settings) option \<Rightarrow> settings disk_file
    \<Rightarrow> settings_error + settings_actor" where
  "st_on_start env loaded disk =
    (case loaded of
      Some (Inl e) \<Rightarrow> Inl (StKey e)
    | _ \<Rightarrow>
        (let inner = (case loaded of Some (Inr x) \<Rightarrow> x | _ \<Rightarrow> settings_default);
             s = \<lparr>st_inner = inner, st_file = disk, st_sent = [], st_told = []\<rparr> in
          case run_seq
            [st_save (env_io env),
             guard_ok (if env_autostart env (autostart inner) then Inr () else Inl StAutostart),
             guard_ok (if env_reload env (rust_log inner) then Inr () else Inl StTracing)] s of
            (Inl e, _) \<Rightarrow> Inl e
          | (Inr _, s') \<Rightarrow> Inr s'))"

text \<open>
  The receiver of the internal bus: the first \<open>WalletCreated\<close> and the first \<open>PeerAdded\<close> finish
  a step. Its state says which it has seen: the extension and the wallet.
\<close>

fun st_receiver :: "bool \<times> bool \<Rightarrow> internal_msg \<Rightarrow> set_value list \<times> (bool \<times> bool)" where
  "st_receiver (extension_updated, wallet_created) WalletCreated =
    (if \<not> wallet_created then ([FinishOnboardingStep StepWallet], (extension_updated, True))
     else ([], (extension_updated, wallet_created)))"
| "st_receiver (extension_updated, wallet_created) PeerAdded =
    (if \<not> extension_updated then ([FinishOnboardingStep StepExtension], (True, wallet_created))
     else ([], (extension_updated, wallet_created)))"
| "st_receiver s _ = ([], s)"

fun st_receiver_run :: "bool \<times> bool \<Rightarrow> internal_msg list \<Rightarrow> set_value list" where
  "st_receiver_run s [] = []"
| "st_receiver_run s (m # ms) =
    (case st_receiver s m of (vs, s') \<Rightarrow> vs @ st_receiver_run s' ms)"

section \<open>Invariant\<close>

text \<open>
  The checklist is hidden exactly when it is finished, and every alias is trimmed and not empty.
\<close>

definition alias_ok :: "string \<Rightarrow> bool" where
  "alias_ok v = (v \<noteq> [] \<and> trim v = v)"

definition settings_ok :: "settings \<Rightarrow> bool" where
  "settings_ok x = (ob_ok (st_onboarding x) \<and> hm_ok (aliases x) \<and> list_all alias_ok (hm_values (aliases x)))"

lemma clean_alias_ok: "clean_alias a = Some v \<Longrightarrow> alias_ok v"
  by (auto simp: clean_alias_def some_nonempty_def alias_ok_def trim_idem split: option.splits if_splits)

lemma settings_ok_default: "settings_ok settings_default"
  by (simp add: settings_ok_def settings_default_def ob_ok_default)

lemma alias_ok_insert:
  assumes "hm_ok m" and "list_all alias_ok (hm_values m)" and "alias_ok v"
  shows "list_all alias_ok (hm_values (hm_insert a v m))"
  using hm.entries_insert [OF assms(1), of a v] assms(2,3) by (force simp: list_all_iff)

lemma alias_ok_remove:
  assumes "hm_ok m" and "list_all alias_ok (hm_values m)"
  shows "list_all alias_ok (hm_values (hm_remove a m))"
  using hm.entries_remove [OF assms(1), of a] assms(2) by (force simp: list_all_iff)

text \<open>Statements that keep what depends on the settings alone.\<close>

lemma keeps_st_upd [keeps_intros]:
  "(\<And>x. Q x \<Longrightarrow> Q (f x)) \<Longrightarrow> keeps (\<lambda>s. Q (st_inner s)) (st_upd f)"
  by (simp add: keeps_def st_upd_def)

lemma st_save_frame [simp]: "st_inner (snd (st_save i s)) = st_inner s" "st_told (snd (st_save i s)) = st_told s"
  by (cases i; simp add: st_save_def)+

lemma keeps_st_save [keeps_intros]: "keeps (\<lambda>s. Q (st_inner s)) (st_save i)"
  by (simp add: keeps_def)

lemma guard_ok_state [simp]: "snd (guard_ok r s) = s"
  by (cases r) (simp_all add: guard_ok_def)

lemma keeps_guard_ok [keeps_intros]: "keeps P (guard_ok r)"
  by (simp add: keeps_def)

lemma keeps_tell [keeps_intros]: "keeps (\<lambda>s. Q (st_inner s)) (tell_unfinished st)"
  by (simp add: keeps_def tell_unfinished_def)

lemma keeps_unwrap [keeps_intros]: "(\<And>v. x = Some v \<Longrightarrow> keeps P (f v)) \<Longrightarrow> keeps P (unwrap x f)"
  by (cases x) (simp_all add: keeps_def unwrap_def)

lemma keeps_on_member [keeps_intros]: "(\<And>v. keeps P (f v)) \<Longrightarrow> keeps P (on_member m key f)"
  by (cases "hm_get m key") (simp_all add: keeps_def on_member_def)

lemma keeps_step_id: "keeps P (step id)"
  by (simp add: keeps_def)

text \<open>
  What keeps a property of the settings through \<open>set_all\<close>: it ignores the plain fields, and
  survives each key check that lets a key through.
\<close>

lemma keeps_set_all:
  assumes plain: "\<And>x d p w h a m f l r. Q x \<Longrightarrow> Q (x\<lparr>dark_mode := d\<rparr>) \<and> Q (x\<lparr>abi_watch_path := p\<rparr>)
      \<and> Q (x\<lparr>walletconnect_project_id := w\<rparr>) \<and> Q (x\<lparr>hide_empty_tokens := h\<rparr>) \<and> Q (x\<lparr>autostart := a\<rparr>)
      \<and> Q (x\<lparr>start_minimized := m\<rparr>) \<and> Q (x\<lparr>fast_mode := f\<rparr>) \<and> Q (x\<lparr>rust_log := l\<rparr>)
      \<and> Q (x\<lparr>run_local_stacks := r\<rparr>)"
    and alchemy: "\<And>v. keeps (\<lambda>s. Q (st_inner s)) (set_alchemy_key env v)"
    and etherscan: "\<And>v. keeps (\<lambda>s. Q (st_inner s)) (set_etherscan_key env v)"
    and h: "h \<in> set (set_all_steps env m)"
  shows "keeps (\<lambda>s. Q (st_inner s)) h"
  using h unfolding set_all_steps_def
  by (auto intro!: keeps_intros alchemy etherscan simp: plain)

lemma settings_ok_plain:
  assumes "aliases y = aliases x" and "st_onboarding y = st_onboarding x"
  shows "settings_ok x \<Longrightarrow> settings_ok y"
  using assms by (simp add: settings_ok_def)

lemma keeps_key_settings_ok:
  "keeps (\<lambda>s. settings_ok (st_inner s)) (set_alchemy_key env v)"
  "keeps (\<lambda>s. settings_ok (st_inner s)) (set_etherscan_key env v)"
  unfolding set_alchemy_key_def set_etherscan_key_def
  by (auto intro!: keeps_intros keeps_step_id split: option.split elim!: settings_ok_plain [rotated -1])

lemma settings_ok_handle: "settings_ok (st_inner s) \<Longrightarrow> settings_ok (st_inner (snd (st_handle m s)))"
proof -
  obtain env v where m: "m = (env, v)" by (cases m)
  have "keeps (\<lambda>s. settings_ok (st_inner s)) h" if "h \<in> set (set_steps env v)" for h
  proof (cases v)
    case (SetAll mp)
    with that show ?thesis
      by (intro keeps_set_all [of settings_ok env h mp])
        (auto intro: keeps_key_settings_ok elim!: settings_ok_plain [rotated -1])
  next
    case (SetAlias addr a)
    with that show ?thesis
      by (auto intro!: keeps_intros simp: settings_ok_def alias_ok_insert alias_ok_remove clean_alias_ok split: option.split)
  qed (use that in \<open>auto intro!: keeps_intros ob_ok_finish_step ob_ok_finish simp: settings_ok_def\<close>)
  then have "keeps (\<lambda>s. settings_ok (st_inner s)) (st_set env v)"
    unfolding st_set_def by (auto intro!: keeps_intros)
  then show "settings_ok (st_inner s) \<Longrightarrow> ?thesis" by (simp add: m keeps_def)
qed

section \<open>What reaches the disk and the bus\<close>

lemma run_seq_last:
  "run_seq (hs @ [h]) s =
    (case run_seq hs s of (Inl e, s') \<Rightarrow> (Inl e, s') | (Inr _, s') \<Rightarrow> run_seq [h] s')"
  by (rule run_seq_append)

text \<open>No statement of \<open>set\<close> but the last writes the file or sends anything.\<close>

definition quiet :: "settings_actor \<Rightarrow> settings_actor \<Rightarrow> bool" where
  "quiet s0 s = (st_file s = st_file s0 \<and> st_sent s = st_sent s0)"

lemma keeps_quiet_upd [keeps_intros]: "keeps (quiet s0) (st_upd f)"
  by (simp add: keeps_def st_upd_def quiet_def)

lemma keeps_quiet_tell [keeps_intros]: "keeps (quiet s0) (tell_unfinished st)"
  by (simp add: keeps_def tell_unfinished_def quiet_def)

lemma quiet_steps: "h \<in> set (set_steps env v) \<Longrightarrow> keeps (quiet s0) h"
  by (cases v) (auto simp: set_all_steps_def set_alchemy_key_def set_etherscan_key_def
      intro!: keeps_intros keeps_step_id split: option.split)

lemma st_set_cases:
  obtains (stopped) e s1 where "st_set env v s = (Inl e, s1)" "st_file s1 = st_file s" "st_sent s1 = st_sent s"
  | (through) s1 where "run_seq (set_steps env v) s = (Inr (), s1)" "st_file s1 = st_file s" "st_sent s1 = st_sent s"
      "st_set env v s = st_save (env_io env) s1"
proof -
  obtain r s1 where run: "run_seq (set_steps env v) s = (r, s1)" by fastforce
  have "keeps (quiet s) (run_seq (set_steps env v))"
    by (rule keeps_run_seq) (simp add: quiet_steps)
  then have quiet: "st_file s1 = st_file s" "st_sent s1 = st_sent s"
    using run by (force simp: keeps_def quiet_def)+
  show thesis
  proof (cases r)
    case (Inl e)
    with run have "st_set env v s = (Inl e, s1)" by (simp add: st_set_def run_seq_last)
    then show thesis using quiet by (rule stopped)
  next
    case (Inr u)
    with run quiet show thesis
      by (intro through [of s1]) (auto simp: st_set_def run_seq_last split: prod.splits sum.splits)
  qed
qed

lemma st_save_eq:
  "st_save i s =
    (if i = IoOk then (Inr (), s\<lparr>st_file := Saved (st_inner s), st_sent := st_sent s @ [Bus SettingsUpdated, Notify SettingsChanged]\<rparr>)
     else (Inl StIo, s\<lparr>st_file := snd (write_file i (st_inner s) (st_file s))\<rparr>))"
  by (cases i) (simp_all add: st_save_def)

text \<open>A change of the settings that succeeds is on disk, and announced to the bus and
  the frontend exactly once; one that fails announces nothing and leaves the file as it was or cut
  short.\<close>

theorem settings_saved_and_announced:
  "case st_set env v s of
     (Inr _, s') \<Rightarrow> st_file s' = Saved (st_inner s') \<and> st_sent s' = st_sent s @ [Bus SettingsUpdated, Notify SettingsChanged]
   | (Inl _, s') \<Rightarrow> (st_file s' = st_file s \<or> st_file s' = Truncated) \<and> st_sent s' = st_sent s"
proof (cases rule: st_set_cases [of env v s])
  case (through s1)
  then show ?thesis by (cases "env_io env") (simp_all add: st_save_eq)
qed simp

lemma st_handle_disk:
  "fst (st_handle m s) = Inr x \<Longrightarrow> st_file (snd (st_handle m s)) = Saved (st_inner (snd (st_handle m s)))"
  "fst (st_handle m s) = Inl e \<Longrightarrow> st_file (snd (st_handle m s)) = st_file s \<or> st_file (snd (st_handle m s)) = Truncated"
  by (cases m; cases rule: st_set_cases [of "fst m" "snd m" s];
      cases "env_io (fst m)"; simp add: st_save_eq)+

interpretation st: saved_component st_handle "\<lambda>_. True" "\<lambda>s. settings_ok (st_inner s)" st_inner st_file settings_ok
  by unfold_locales (auto intro: settings_ok_handle st_handle_disk dest: st_handle_disk)

section \<open>Starting\<close>

lemma st_on_start_cases:
  assumes "st_on_start env loaded disk = Inr s"
  shows "st_file s = Saved (st_inner s)"
    and "st_inner s = (case loaded of Some (Inr x) \<Rightarrow> x | _ \<Rightarrow> settings_default)"
  using assms
  by (auto simp: st_on_start_def Let_def st_save_eq guard_ok_def split: option.splits sum.splits if_splits)

text \<open>
  What a restart reads back: the deserializer of the checklist recomputes \<open>hidden\<close>, every other
  field comes back as it was written.
\<close>

definition reload :: "settings \<Rightarrow> settings" where
  "reload x = x\<lparr>st_onboarding := ob_deserialize (ob_steps (st_onboarding x))\<rparr>"

lemma reload_ok: "settings_ok x \<Longrightarrow> reload x = x"
  by (cases x) (simp add: reload_def settings_ok_def ob_reload)

text \<open>From a fresh start, after any messages: the checklist is hidden exactly when
  all five steps are finished, every alias looked up is trimmed and not empty, and whatever was
  saved is read back by a restart unchanged.\<close>

theorem settings_stay_ok:
  assumes "st_on_start env None disk = Inr s"
  shows "ob_hidden (st_onboarding (get_all (run_msgs st_handle ms s))) =
      list_all (is_step_finished (st_onboarding (get_all (run_msgs st_handle ms s)))) all_steps
    \<and> (\<forall>a v. get_alias (run_msgs st_handle ms s) a = Some v \<longrightarrow> v \<noteq> [] \<and> trim v = v)
    \<and> (\<forall>x. st_file (run_msgs st_handle ms s) = Saved x \<longrightarrow> reload x = x)"
proof -
  from st_on_start_cases [OF assms] have s: "st_inner s = settings_default" "st_file s = Saved settings_default"
    by simp_all
  let ?s = "run_msgs st_handle ms s"
  have ok: "settings_ok (st_inner ?s)"
    using st.inv_run [of s ms] s settings_ok_default by simp
  have "reload x = x" if "st_file ?s = Saved x" for x
    using st.disk_good [of s ms x] s settings_ok_default that by (simp add: reload_ok)
  moreover have "alias_ok v" if "get_alias ?s a = Some v" for a v
    using ok that by (force simp: settings_ok_def get_alias_def list_all_iff dest: map_of_SomeD)
  ultimately show ?thesis
    using ok by (simp add: settings_ok_def ob_ok_def get_all_def alias_ok_def)
qed

definition calm_env :: settings_env where
  "calm_env = \<lparr>env_block_number = (\<lambda>_. BlockOk), env_source_code = (\<lambda>_ _. Inr ()),
     env_autostart = (\<lambda>_. True), env_reload = (\<lambda>_. True), env_io = IoOk\<rparr>"

theorem settings_stay_ok_witness:
  "\<exists>s. st_on_start calm_env None Absent = Inr s
    \<and> (\<forall>a v. get_alias (run_msgs st_handle [(calm_env, SetAlias 1 (Some '' a ''))] s) a = Some v \<longrightarrow> trim v = v)"
proof -
  obtain s where s: "st_on_start calm_env None Absent = Inr s"
    by (simp add: st_on_start_def st_save_eq guard_ok_def calm_env_def)
  show ?thesis using settings_stay_ok [OF s, of "[(calm_env, SetAlias 1 (Some '' a ''))]"] s by blast
qed

section \<open>The keys\<close>

lemma set_alchemy_key_eq:
  "set_alchemy_key env v s =
    (let s1 = snd (tell_unfinished StepAlchemy s) in
     case as_str v of
       None \<Rightarrow> (Inl StPanic, s1)
     | Some key \<Rightarrow>
         (case if key = [] then Inr () else test_alchemy_api_key (env_block_number env) key of
           Inl e \<Rightarrow> (Inl e, s1)
         | Inr _ \<Rightarrow> (Inr (), s1\<lparr>st_inner := (st_inner s1)\<lparr>alchemy_api_key := some_nonempty key\<rparr>\<rparr>)))"
  by (simp add: set_alchemy_key_def tell_unfinished_def unwrap_def some_nonempty_def guard_ok_def st_upd_def
      Let_def split: option.split sum.split)

definition alchemy_ok :: "(string \<Rightarrow> bool) \<Rightarrow> settings \<Rightarrow> bool" where
  "alchemy_ok accepted x = (case alchemy_api_key x of None \<Rightarrow> True | Some k \<Rightarrow> k \<noteq> [] \<and> accepted k)"

definition accepts_only :: "(string \<Rightarrow> bool) \<Rightarrow> settings_env \<times> set_value \<Rightarrow> bool" where
  "accepts_only accepted m = (\<forall>k. test_alchemy_api_key (env_block_number (fst m)) k = Inr () \<longrightarrow> accepted k)"

lemma alchemy_ok_same: "alchemy_api_key y = alchemy_api_key x \<Longrightarrow> alchemy_ok acc x \<Longrightarrow> alchemy_ok acc y"
  by (simp add: alchemy_ok_def)

lemma keeps_alchemy:
  assumes "accepts_only acc (env, v')"
  shows "keeps (\<lambda>s. alchemy_ok acc (st_inner s)) (set_alchemy_key env v)"
  using assms
  by (auto simp: keeps_def set_alchemy_key_eq Let_def tell_unfinished_def alchemy_ok_def some_nonempty_def
      accepts_only_def split: option.splits sum.splits if_splits)

lemma keeps_etherscan: "keeps (\<lambda>s. alchemy_ok acc (st_inner s)) (set_etherscan_key env v)"
  unfolding set_etherscan_key_def
  by (auto intro!: keeps_intros keeps_step_id split: option.split elim!: alchemy_ok_same [rotated -1])

lemma alchemy_ok_handle:
  assumes "accepts_only acc m" and "alchemy_ok acc (st_inner s)"
  shows "alchemy_ok acc (st_inner (snd (st_handle m s)))"
proof -
  obtain env v where m: "m = (env, v)" by (cases m)
  have "keeps (\<lambda>s. alchemy_ok acc (st_inner s)) h" if "h \<in> set (set_steps env v)" for h
  proof (cases v)
    case (SetAll mp)
    with that show ?thesis
      by (intro keeps_set_all [of "alchemy_ok acc" env h mp])
         (auto intro: keeps_alchemy [OF assms(1) [unfolded m]] keeps_etherscan elim!: alchemy_ok_same [rotated -1])
  qed (use that in \<open>auto intro!: keeps_intros elim!: alchemy_ok_same [rotated -1]\<close>)
  then have "keeps (\<lambda>s. alchemy_ok acc (st_inner s)) (st_set env v)"
    unfolding st_set_def by (auto intro!: keeps_intros)
  then show ?thesis using assms(2) by (simp add: m keeps_def)
qed

interpretation keys: guarded_component st_handle "accepts_only acc" "\<lambda>s. alchemy_ok acc (st_inner s)" for acc
  by unfold_locales (rule alchemy_ok_handle)

text \<open>From a fresh start, the Alchemy key in use is not empty and the remote service
  accepted it while one of the messages was handled.\<close>

theorem stored_key_was_accepted:
  assumes "st_on_start env0 None disk = Inr s"
    and "alchemy_api_key (get_all (run_msgs st_handle ms s)) = Some k"
  shows "k \<noteq> [] \<and> (\<exists>m \<in> set ms. test_alchemy_api_key (env_block_number (fst m)) k = Inr ())"
proof -
  let ?acc = "\<lambda>k. \<exists>m \<in> set ms. test_alchemy_api_key (env_block_number (fst m)) k = Inr ()"
  from st_on_start_cases [OF assms(1)] have "alchemy_ok ?acc (st_inner s)"
    by (simp add: alchemy_ok_def settings_default_def)
  then have "alchemy_ok ?acc (st_inner (run_msgs st_handle ms s))"
    by (rule keys.inv_run) (auto simp: accepts_only_def)
  with assms(2) show ?thesis by (simp add: alchemy_ok_def get_all_def)
qed

theorem stored_key_was_accepted_witness:
  "\<exists>s. st_on_start calm_env None Absent = Inr s
    \<and> alchemy_api_key (get_all (run_msgs st_handle [(calm_env, SetAll [(''alchemyApiKey'', JStr ''k'')])] s)) = Some ''k''
    \<and> test_alchemy_api_key (env_block_number calm_env) ''k'' = Inr ()"
proof -
  define s where "s = \<lparr>st_inner = settings_default, st_file = Saved settings_default,
    st_sent = [Bus SettingsUpdated, Notify SettingsChanged], st_told = []\<rparr>"
  have s: "st_on_start calm_env None Absent = Inr s"
    by (simp add: st_on_start_def st_save_eq guard_ok_def calm_env_def s_def)
  have key: "alchemy_api_key (get_all (run_msgs st_handle [(calm_env, SetAll [(''alchemyApiKey'', JStr ''k'')])] s)) = Some ''k''"
    by (simp add: s_def st_set_def set_all_steps_def on_member_def set_alchemy_key_eq Let_def tell_unfinished_def
        some_nonempty_def test_alchemy_api_key_def calm_env_def st_save_eq get_all_def)
  with s stored_key_was_accepted [OF s key] show ?thesis by auto
qed

text \<open>When a change of several settings carries a rejected key, the settings that
  come before the key stay changed in memory (not on disk), the key is untouched, and the
  onboarding step of the key is finished by the message the actor sent itself before the check,
  whose save also writes the refused change to disk.\<close>

theorem rejected_key_leaks:
  assumes "hm_get m ''darkMode'' = Some d" and "dark_mode_from_value d = Some mode"
    and "hm_get m ''abiWatchPath'' = None"
    and "hm_get m ''alchemyApiKey'' = Some (JStr key)" and "key \<noteq> []"
    and "test_alchemy_api_key (env_block_number env) key = Inl e"
    and "\<not> is_step_finished (st_onboarding (st_inner s)) StepAlchemy"
  shows "fst (st_set env (SetAll m) s) = Inl e
    \<and> st_file (snd (st_set env (SetAll m) s)) = st_file s
    \<and> st_told (snd (st_set env (SetAll m) s)) = st_told s @ [FinishOnboardingStep StepAlchemy]
    \<and> (\<exists>x. st_file (run_msgs st_handle [(env, SetAll m), (calm_env, FinishOnboardingStep StepAlchemy)] s) = Saved x
      \<and> dark_mode x = mode \<and> alchemy_api_key x = alchemy_api_key (st_inner s)
      \<and> is_step_finished (st_onboarding x) StepAlchemy)"
proof -
  have run: "st_set env (SetAll m) s = (Inl e, s\<lparr>st_inner := (st_inner s)\<lparr>dark_mode := mode\<rparr>,
      st_told := st_told s @ [FinishOnboardingStep StepAlchemy]\<rparr>)"
    using assms
    by (simp add: st_set_def set_all_steps_def on_member_def unwrap_def st_upd_def set_alchemy_key_eq
        tell_unfinished_def Let_def)
  then show ?thesis
    by simp (simp add: st_set_def st_upd_def st_save_eq calm_env_def finish_step_def Let_def is_step_finished_def)
qed

theorem rejected_key_leaks_witness:
  "let env = calm_env\<lparr>env_block_number := \<lambda>_. BlockOther\<rparr>;
       s = \<lparr>st_inner = settings_default, st_file = Absent, st_sent = [], st_told = []\<rparr>;
       m = [(''darkMode'', JStr ''dark''), (''alchemyApiKey'', JStr ''bad'')]
   in fst (st_set env (SetAll m) s) = Inl (StKey ''Failed to connect'')"
  using rejected_key_leaks [of "[(''darkMode'', JStr ''dark''), (''alchemyApiKey'', JStr ''bad'')]"
      "JStr ''dark''" DmDark "''bad''" "calm_env\<lparr>env_block_number := \<lambda>_. BlockOther\<rparr>" "StKey ''Failed to connect''"
      "\<lparr>st_inner = settings_default, st_file = Absent, st_sent = [], st_told = []\<rparr>"]
  by (simp add: test_alchemy_api_key_def calm_env_def settings_default_def ob_default_def is_step_finished_def)

end
