(* ===== verification/Settings_Migrations.thy ===== *)
theory Settings_Migrations
  imports Settings
begin

text \<open>
  The settings file (\<open>crates/settings/src/migrations.rs\<close>): the versions it has had and the loop
  that brings a file to the latest one, one version per iteration.
\<close>

record settings_v0 =
  s0_dark_mode :: dark_mode
  s0_abi_watch_path :: "string option"
  s0_alchemy_api_key :: "string option"
  s0_etherscan_api_key :: "string option"
  s0_hide_empty_tokens :: bool
  s0_aliases :: "(address, string) hmap"
  s0_onboarded :: bool
  s0_fast_mode :: bool
  s0_autostart :: bool
  s0_start_minimized :: bool
  s0_rust_log :: string

record settings_v1 =
  s1_dark_mode :: dark_mode
  s1_abi_watch_path :: "string option"
  s1_alchemy_api_key :: "string option"
  s1_etherscan_api_key :: "string option"
  s1_hide_empty_tokens :: bool
  s1_aliases :: "(address, string) hmap"
  s1_onboarded :: bool
  s1_fast_mode :: bool
  s1_autostart :: bool
  s1_start_minimized :: bool
  s1_rust_log :: string

record settings_v2 =
  s2_dark_mode :: dark_mode
  s2_abi_watch_path :: "string option"
  s2_alchemy_api_key :: "string option"
  s2_etherscan_api_key :: "string option"
  s2_hide_empty_tokens :: bool
  s2_aliases :: "(address, string) hmap"
  s2_fast_mode :: bool
  s2_autostart :: bool
  s2_start_minimized :: bool
  s2_rust_log :: string
  s2_onboarding :: onboarding

datatype settings_versions =
    SetV0 settings_v0
  | SetV1 settings_v1
  | SetV2 settings_v2
  | SetV3 settings

definition settings_v0_to_v1 :: "settings_v0 \<Rightarrow> settings_v1" where
  "settings_v0_to_v1 v0 = \<lparr>
    s1_dark_mode = s0_dark_mode v0,
    s1_abi_watch_path = s0_abi_watch_path v0,
    s1_alchemy_api_key = s0_alchemy_api_key v0,
    s1_etherscan_api_key = s0_etherscan_api_key v0,
    s1_hide_empty_tokens = s0_hide_empty_tokens v0,
    s1_aliases = s0_aliases v0,
    s1_onboarded = s0_onboarded v0,
    s1_fast_mode = s0_fast_mode v0,
    s1_autostart = s0_autostart v0,
    s1_start_minimized = s0_start_minimized v0,
    s1_rust_log = s0_rust_log v0\<rparr>"

definition settings_v1_to_v2 :: "settings_v1 \<Rightarrow> settings_v2" where
  "settings_v1_to_v2 v1 = \<lparr>
    s2_dark_mode = s1_dark_mode v1,
    s2_abi_watch_path = s1_abi_watch_path v1,
    s2_alchemy_api_key = s1_alchemy_api_key v1,
    s2_etherscan_api_key = s1_etherscan_api_key v1,
    s2_hide_empty_tokens = s1_hide_empty_tokens v1,
    s2_aliases = s1_aliases v1,
    s2_fast_mode = s1_fast_mode v1,
    s2_autostart = s1_autostart v1,
    s2_start_minimized = s1_start_minimized v1,
    s2_rust_log = s1_rust_log v1,
    s2_onboarding = (if s1_onboarded v1 then all_done else ob_default)\<rparr>"

definition settings_v2_to_v3 :: "settings_v2 \<Rightarrow> settings" where
  "settings_v2_to_v3 v2 = \<lparr>
    dark_mode = s2_dark_mode v2,
    abi_watch_path = s2_abi_watch_path v2,
    alchemy_api_key = s2_alchemy_api_key v2,
    etherscan_api_key = s2_etherscan_api_key v2,
    walletconnect_project_id = None,
    hide_empty_tokens = s2_hide_empty_tokens v2,
    aliases = s2_aliases v2,
    fast_mode = s2_fast_mode v2,
    autostart = s2_autostart v2,
    start_minimized = s2_start_minimized v2,
    check_for_updates = True,
    rust_log = s2_rust_log v2,
    run_local_stacks = False,
    st_onboarding = s2_onboarding v2\<rparr>"

text \<open>One turn of the loop, which stops at the latest version.\<close>

fun settings_migrate_step :: "settings_versions \<Rightarrow> settings_versions + settings" where
  "settings_migrate_step (SetV3 v3) = Inr v3"
| "settings_migrate_step (SetV0 v0) = Inl (SetV1 (settings_v0_to_v1 v0))"
| "settings_migrate_step (SetV1 v1) = Inl (SetV2 (settings_v1_to_v2 v1))"
| "settings_migrate_step (SetV2 v2) = Inl (SetV3 (settings_v2_to_v3 v2))"

fun settings_version :: "settings_versions \<Rightarrow> nat" where
  "settings_version (SetV0 _) = 0"
| "settings_version (SetV1 _) = 1"
| "settings_version (SetV2 _) = 2"
| "settings_version (SetV3 _) = 3"

lemma settings_migrate_step_up: "settings_migrate_step v = Inl v' \<Longrightarrow> settings_version v < settings_version v' \<and> settings_version v' \<le> 3"
  by (cases v) auto

function st_run_migrations :: "settings_versions \<Rightarrow> settings" where
  "st_run_migrations v = (case settings_migrate_step v of Inr x \<Rightarrow> x | Inl v' \<Rightarrow> st_run_migrations v')"
  by pat_completeness auto

termination
  by (relation "measure (\<lambda>v. 3 - settings_version v)") (auto dest: settings_migrate_step_up)

declare st_run_migrations.simps [simp del]

definition st_load_and_migrate :: "(json \<Rightarrow> string + settings_versions) \<Rightarrow> string + json \<Rightarrow> string + settings" where
  "st_load_and_migrate from_value contents =
    (case contents of
      Inl e \<Rightarrow> Inl e
    | Inr j \<Rightarrow>
        (case with_version j of
          None \<Rightarrow> Inl ''panic''
        | Some j' \<Rightarrow> map_sum id st_run_migrations (from_value j')))"

lemma st_run_migrations_simps [simp]:
  "st_run_migrations (SetV3 x) = x"
  "st_run_migrations (SetV2 v2) = settings_v2_to_v3 v2"
  "st_run_migrations (SetV1 v1) = settings_v2_to_v3 (settings_v1_to_v2 v1)"
  "st_run_migrations (SetV0 v0) = settings_v2_to_v3 (settings_v1_to_v2 (settings_v0_to_v1 v0))"
  by (subst st_run_migrations.simps, simp)+

text \<open>A file of the two oldest versions keeps the user's settings through the
  migration; but a user who had finished the onboarding, for whom the migration hides the
  checklist, sees it again after the next restart: the migrated value is saved without any
  finished step and the deserializer recomputes \<open>hidden\<close> from the steps.\<close>

theorem migrated_settings:
  "aliases (st_run_migrations (SetV0 v)) = s0_aliases v
   \<and> alchemy_api_key (st_run_migrations (SetV0 v)) = s0_alchemy_api_key v
   \<and> etherscan_api_key (st_run_migrations (SetV0 v)) = s0_etherscan_api_key v
   \<and> dark_mode (st_run_migrations (SetV0 v)) = s0_dark_mode v
   \<and> ob_hidden (st_onboarding (st_run_migrations (SetV0 v))) = s0_onboarded v
   \<and> \<not> ob_hidden (st_onboarding (reload (st_run_migrations (SetV0 v))))
   \<and> st_run_migrations (SetV1 (settings_v0_to_v1 v)) = st_run_migrations (SetV0 v)"
  by (simp add: settings_v2_to_v3_def settings_v1_to_v2_def settings_v0_to_v1_def reload_def ob_deserialize_def all_done_def
      ob_default_def STEP_COUNT_def)

end
