(* ===== verification/Wc_Pairing.thy ===== *)
theory Wc_Pairing
  imports Text Json
begin

text \<open>
  WalletConnect below the sessions: the type-0 envelope (\<open>crypto.rs\<close>), the pairing URI and the
  two maps of \<open>pairing.rs\<close>. The cipher, the URL parser and the
  hexadecimal decoder are arguments.
\<close>

datatype wc_error =
    WcRelay string
  | WcCrypto string
  | WcJson
  | WcHex
  | WcInvalidUri
  | WcMissingField string
  | WcSessionNotFound
  | WcOther string
  | WcPanic

section \<open>The envelope\<close>

record aead =
  seal :: "bytes \<Rightarrow> bytes \<Rightarrow> bytes \<Rightarrow> string + bytes"
  unseal :: "bytes \<Rightarrow> bytes \<Rightarrow> bytes \<Rightarrow> string + bytes"

definition encrypt_chacha20poly1305 :: "aead \<Rightarrow> bytes \<Rightarrow> bytes \<Rightarrow> bytes \<Rightarrow> wc_error + bytes" where
  "encrypt_chacha20poly1305 A key iv plaintext = map_sum WcCrypto id (seal A key iv plaintext)"

definition decrypt_chacha20poly1305 :: "aead \<Rightarrow> bytes \<Rightarrow> bytes \<Rightarrow> bytes \<Rightarrow> wc_error + bytes" where
  "decrypt_chacha20poly1305 A key iv ciphertext = map_sum WcCrypto id (unseal A key iv ciphertext)"

text \<open>\<open>iv\<close> is what the random generator fills in: twelve bytes.\<close>

definition encrypt_type0 :: "aead \<Rightarrow> bytes \<Rightarrow> bytes \<Rightarrow> bytes \<Rightarrow> wc_error + bytes" where
  "encrypt_type0 A iv plaintext key =
    map_sum id (\<lambda>ct. [0] @ iv @ ct) (encrypt_chacha20poly1305 A key iv plaintext)"

definition first_byte :: "bytes \<Rightarrow> u8 option" where
  "first_byte b = (case b of [] \<Rightarrow> None | x # _ \<Rightarrow> Some x)"

definition decrypt_type0 :: "aead \<Rightarrow> bytes \<Rightarrow> bytes \<Rightarrow> wc_error + bytes" where
  "decrypt_type0 A envelope key =
    (if first_byte envelope \<noteq> Some 0 then Inl (WcCrypto ''not a type-0 envelope'')
     else if length envelope < 1 + 12 + 16 then Inl (WcCrypto ''type-0 envelope too short'')
     else decrypt_chacha20poly1305 A key (take 12 (drop 1 envelope)) (drop 13 envelope))"

text \<open>
  What is relied on: the cipher opens what it sealed under the same key and nonce, and adds a tag
  of sixteen bytes.
\<close>

definition aead_ok :: "aead \<Rightarrow> bool" where
  "aead_ok A = (\<forall>k n m c. seal A k n m = Inr c \<longrightarrow> unseal A k n c = Inr m \<and> length c = length m + 16)"

text \<open>C35. An encrypted message is an envelope of type zero, 29 bytes longer than the
  message, and decrypts to it under the same key; an envelope of another type, or shorter than its
  fixed parts, is refused before any decryption, with no byte read out of range.\<close>

theorem envelope_roundtrip:
  assumes "aead_ok A" and "length iv = 12"
  shows "(\<forall>e. encrypt_type0 A iv m key = Inr e \<longrightarrow>
        first_byte e = Some 0 \<and> length e = length m + 29 \<and> decrypt_type0 A e key = Inr m)
    \<and> (\<forall>e p. decrypt_type0 A e key = Inr p \<longrightarrow> first_byte e = Some 0 \<and> 29 \<le> length e)"
proof -
  have "first_byte e = Some 0 \<and> length e = length m + 29 \<and> decrypt_type0 A e key = Inr m"
    if "encrypt_type0 A iv m key = Inr e" for e
  proof -
    from that obtain ct where ct: "seal A key iv m = Inr ct" and e: "e = 0 # iv @ ct"
      by (auto simp: encrypt_type0_def encrypt_chacha20poly1305_def map_sum_def split: sum.splits)
    from assms(1) ct have "unseal A key iv ct = Inr m" "length ct = length m + 16"
      unfolding aead_ok_def by blast+
    then show ?thesis
      using assms(2) by (simp add: e decrypt_type0_def decrypt_chacha20poly1305_def first_byte_def numeral_3_eq_3)
  qed
  moreover have "first_byte e = Some 0 \<and> 29 \<le> length e" if "decrypt_type0 A e key = Inr p" for e p
    using that by (auto simp: decrypt_type0_def split: if_splits)
  ultimately show ?thesis by blast
qed

definition toy_aead :: aead where
  "toy_aead = \<lparr>seal = (\<lambda>k n m. Inr (m @ replicate 16 0)), unseal = (\<lambda>k n c. Inr (take (length c - 16) c))\<rparr>"

theorem envelope_roundtrip_witness:
  "\<exists>e. encrypt_type0 toy_aead (replicate 12 7) [1, 2] [] = Inr e \<and> decrypt_type0 toy_aead e [] = Inr [1, 2]"
proof -
  have "aead_ok toy_aead" by (auto simp: aead_ok_def toy_aead_def)
  moreover obtain e where "encrypt_type0 toy_aead (replicate 12 7) [1, 2] [] = Inr e"
    by (simp add: encrypt_type0_def encrypt_chacha20poly1305_def toy_aead_def)
  ultimately show ?thesis
    using envelope_roundtrip [of toy_aead "replicate 12 7" "[1, 2]" "[]"] by auto
qed

section \<open>Pairing URIs\<close>

record parsed_url =
  url_username :: string
  url_host :: "string option"
  url_query :: "(string \<times> string) list"

text \<open>\<open>replacen\<close> of the first occurrence.\<close>

fun replace_first :: "string \<Rightarrow> string \<Rightarrow> string \<Rightarrow> string" where
  "replace_first pat new [] = (if pat = [] then new else [])"
| "replace_first pat new (c # cs) =
    (if starts_with pat (c # cs) then new @ drop (length pat) (c # cs)
     else c # replace_first pat new cs)"

record pairing_info =
  pi_topic :: string
  pi_sym_key :: bytes

text \<open>\<open>hex32\<close> decodes into an array of 32 bytes.\<close>

definition parse_uri :: "(string \<Rightarrow> parsed_url option) \<Rightarrow> (string \<Rightarrow> bytes option) \<Rightarrow> string \<Rightarrow> wc_error + pairing_info" where
  "parse_uri url_parse hex32 uri =
    (case url_parse (replace_first ''wc:'' ''wc://'' uri) of
      None \<Rightarrow> Inl WcInvalidUri
    | Some u \<Rightarrow>
        (case (if url_username u = [] then ok_or (WcMissingField ''pairing topic'') (url_host u)
               else Inr (url_username u)) of
          Inl e \<Rightarrow> Inl e
        | Inr topic \<Rightarrow>
            (case map_option snd (List.find (\<lambda>(k, _). k = ''symKey'') (url_query u)) of
              None \<Rightarrow> Inl (WcMissingField ''symKey'')
            | Some hex \<Rightarrow>
                (case hex32 hex of
                  None \<Rightarrow> Inl WcHex
                | Some key \<Rightarrow> Inr \<lparr>pi_topic = topic, pi_sym_key = key\<rparr>))))"

end
