(* ===== verification/Dialogs.thy ===== *)
theory Dialogs
  imports Json
begin

text \<open>
  Dialogs (\<open>crates/dialogs\<close>): the windows a request waits on for the user's answer. A handler
  creates a dialog, opens it (which registers it under its id in \<open>OPEN_DIALOGS\<close>), receives what
  the window sends, and drops it. Each operation is one step here; \<open>Dialog_Locks\<close> has what happens between the two locks
  they take.
\<close>

section \<open>Messages and channels\<close>

datatype dialog_msg = DlgData json | DlgClose

text \<open>An unbounded channel: what waits in it and how many senders exist.\<close>

record channel =
  ch_queue :: "dialog_msg list"
  ch_senders :: nat

text \<open>\<open>recv\<close> gives a message, waits, or finds all senders gone.\<close>

datatype received = Got dialog_msg | Waits | Closed

definition ch_recv :: "channel \<Rightarrow> received \<times> channel" where
  "ch_recv c = (case ch_queue c of
      m # q \<Rightarrow> (Got m, c\<lparr>ch_queue := q\<rparr>)
    | [] \<Rightarrow> (if ch_senders c = 0 then Closed else Waits, c))"

definition ch_send :: "dialog_msg \<Rightarrow> channel \<Rightarrow> channel" where
  "ch_send m c = c\<lparr>ch_queue := ch_queue c @ [m]\<rparr>"

section \<open>Dialogs and the map of open ones\<close>

record inner_dialog =
  in_id :: u32
  in_preset :: string
  in_payload :: json
  in_channel :: channel

text \<open>What is broadcast to the application.\<close>

datatype window_msg =
    WinOpen u32 string string string
  | WinClose string
  | WinSend string string "json option"

text \<open>
  A handle is the position of the shared dialog; the map of open dialogs holds a second
  reference to it.
\<close>

record dialogs =
  dg_inners :: "inner_dialog list"
  dg_open :: "(u32, nat) hmap"
  dg_windows :: "window_msg list"

definition PRESETS :: "(string, string) hmap" where
  "PRESETS =
    [(''tx-review'', ''Transaction Review''), (''msg-sign'', ''Sign Message''), (''wallet-unlock'', ''Wallet Unlock''),
     (''chain-add'', ''Add Network''), (''chain-switch'', ''Switch Network''), (''erc20-add'', ''Add ERC20''),
     (''erc721-add'', ''Add ERC721''), (''erc1155-add'', ''Add ERC1155''),
     (''wc-session-proposal'', ''WalletConnect'' @ [char_of_byte 0xE2, char_of_byte 0x80, char_of_byte 0x94] @ '' Connect'')]"

definition dialog_label :: "u32 \<Rightarrow> string" where
  "dialog_label i = ''dialog/'' @ show_dec (unat i)"

text \<open>\<open>i\<close> is what the random generator gives.\<close>

definition dialog_new :: "u32 \<Rightarrow> string \<Rightarrow> json \<Rightarrow> dialogs \<Rightarrow> nat \<times> dialogs" where
  "dialog_new i preset payload g =
    (length (dg_inners g), g\<lparr>dg_inners := dg_inners g @
      [\<lparr>in_id = i, in_preset = preset, in_payload = payload, in_channel = \<lparr>ch_queue = [], ch_senders = 1\<rparr>\<rparr>]\<rparr>)"

definition dialog_open :: "nat \<Rightarrow> (dialogs, string, unit) handler" where
  "dialog_open h g =
    (let d = dg_inners g ! h; g1 = g\<lparr>dg_open := hm_insert (in_id d) h (dg_open g)\<rparr> in
      case hm_get PRESETS (in_preset d) of
        None \<Rightarrow> (Inl (''Unknown dialog preset: '' @ in_preset d), g1)
      | Some title \<Rightarrow> (Inr (), g1\<lparr>dg_windows := dg_windows g1 @
          [WinOpen (in_id d) (dialog_label (in_id d)) (''ethui Dialog - '' @ title)
            (''index.html#/dialog/'' @ in_preset d @ ''/'' @ show_dec (unat (in_id d)))]\<rparr>))"

definition dialog_send :: "nat \<Rightarrow> string \<Rightarrow> json option \<Rightarrow> dialogs \<Rightarrow> dialogs" where
  "dialog_send h event payload g =
    g\<lparr>dg_windows := dg_windows g @ [WinSend (dialog_label (in_id (dg_inners g ! h))) event payload]\<rparr>"

definition dialog_recv :: "nat \<Rightarrow> dialogs \<Rightarrow> received \<times> dialogs" where
  "dialog_recv h g =
    (case ch_recv (in_channel (dg_inners g ! h)) of
      (r, c) \<Rightarrow> (r, g\<lparr>dg_inners := (dg_inners g)[h := (dg_inners g ! h)\<lparr>in_channel := c\<rparr>]\<rparr>))"

definition dialog_drop :: "nat \<Rightarrow> dialogs \<Rightarrow> dialogs" where
  "dialog_drop h g =
    g\<lparr>dg_open := hm_remove (in_id (dg_inners g ! h)) (dg_open g),
      dg_windows := dg_windows g @ [WinClose (dialog_label (in_id (dg_inners g ! h)))]\<rparr>"

text \<open>A message from the window, into the channel of the dialog.\<close>

definition incoming :: "dialog_msg \<Rightarrow> nat \<Rightarrow> dialogs \<Rightarrow> dialogs" where
  "incoming m h g =
    g\<lparr>dg_inners := (dg_inners g)[h := (dg_inners g ! h)\<lparr>in_channel := ch_send m (in_channel (dg_inners g ! h))\<rparr>]\<rparr>"

definition not_found :: "u32 \<Rightarrow> string" where
  "not_found i = ''Dialog not found '' @ show_dec (unat i)"

definition cmd_get_payload :: "u32 \<Rightarrow> dialogs \<Rightarrow> string + json" where
  "cmd_get_payload i g = map_sum id (\<lambda>h. in_payload (dg_inners g ! h)) (ok_or (not_found i) (hm_get (dg_open g) i))"

definition cmd_dialog_send :: "u32 \<Rightarrow> json \<Rightarrow> (dialogs, string, unit) handler" where
  "cmd_dialog_send i payload g =
    (case hm_get (dg_open g) i of
      None \<Rightarrow> (Inl (not_found i), g)
    | Some h \<Rightarrow> (Inr (), incoming (DlgData payload) h g))"

definition cmd_dialog_close :: "u32 \<Rightarrow> dialogs \<Rightarrow> dialogs" where
  "cmd_dialog_close i g =
    (case hm_get (dg_open g) i of None \<Rightarrow> g | Some h \<Rightarrow> incoming DlgClose h g)"

section \<open>Messages reach their dialog\<close>

text \<open>
  What can happen, in any order: handlers open (a dialog just created), receive and drop; the
  windows send and close. \<open>live\<close> is the handles opened and not dropped. The id of a new dialog is any
  number, also one that another dialog has.
\<close>

inductive dialog_step :: "nat list \<times> dialogs \<Rightarrow> nat list \<times> dialogs \<Rightarrow> bool" where
  dlg_open: "dialog_new i preset payload g = (h, g1) \<Longrightarrow> dialog_open h g1 = (r, g') \<Longrightarrow>
    dialog_step (live, g) (h # live, g')"
| dlg_event: "h \<in> set live \<Longrightarrow> dialog_step (live, g) (live, dialog_send h event data g)"
| dlg_recv: "h \<in> set live \<Longrightarrow> dialog_recv h g = (r, g') \<Longrightarrow> dialog_step (live, g) (live, g')"
| dlg_drop: "h \<in> set live \<Longrightarrow> dialog_step (live, g) (removeAll h live, dialog_drop h g)"
| dlg_send: "cmd_dialog_send i payload g = (r, g') \<Longrightarrow> dialog_step (live, g) (live, g')"
| dlg_close: "dialog_step (live, g) (live, cmd_dialog_close i g)"

text \<open>Another dialog was created with the same id.\<close>

definition id_shared :: "dialogs \<Rightarrow> nat \<Rightarrow> bool" where
  "id_shared g h = (\<exists>k < length (dg_inners g). k \<noteq> h \<and> in_id (dg_inners g ! k) = in_id (dg_inners g ! h))"

definition dialogs_ok :: "nat list \<times> dialogs \<Rightarrow> bool" where
  "dialogs_ok = (\<lambda>(live, g). (\<forall>d \<in> set (dg_inners g). ch_senders (in_channel d) = 1)
    \<and> set live \<subseteq> {..< length (dg_inners g)}
    \<and> (\<forall>i h. hm_get (dg_open g) i = Some h \<longrightarrow> h \<in> set live \<and> in_id (dg_inners g ! h) = i)
    \<and> (\<forall>h \<in> set live. hm_get (dg_open g) (in_id (dg_inners g ! h)) = Some h \<or> id_shared g h))"

definition no_dialogs :: dialogs where
  "no_dialogs = \<lparr>dg_inners = [], dg_open = [], dg_windows = []\<rparr>"

inductive dialog_reaches :: "nat list \<times> dialogs \<Rightarrow> bool" where
  dlg_start: "dialog_reaches ([], no_dialogs)"
| dlg_more: "dialog_reaches w \<Longrightarrow> dialog_step w w' \<Longrightarrow> dialog_reaches w'"

lemma ch_recv_senders: "ch_recv c = (r, c') \<Longrightarrow> ch_senders c' = ch_senders c"
  by (auto simp: ch_recv_def split: list.splits)

text \<open>Changing the channel of one dialog keeps what the map says.\<close>

lemma id_shared_cong:
  "length (dg_inners g') = length (dg_inners g) \<Longrightarrow> (\<And>k. in_id (dg_inners g' ! k) = in_id (dg_inners g ! k)) \<Longrightarrow> id_shared g' h = id_shared g h"
  by (simp add: id_shared_def)

lemma dialogs_ok_channel:
  assumes "dialogs_ok (live, g)" "ch_senders c = 1"
  shows "dialogs_ok (live, g\<lparr>dg_inners := (dg_inners g)[h := (dg_inners g ! h)\<lparr>in_channel := c\<rparr>]\<rparr>)"
proof -
  let ?g = "g\<lparr>dg_inners := (dg_inners g)[h := (dg_inners g ! h)\<lparr>in_channel := c\<rparr>]\<rparr>"
  have ids: "in_id ((dg_inners g)[h := (dg_inners g ! h)\<lparr>in_channel := c\<rparr>] ! k) = in_id (dg_inners g ! k)" for k
    by (cases "h < length (dg_inners g)") (auto simp: nth_list_update list_update_beyond)
  have "\<forall>d \<in> set ((dg_inners g)[h := (dg_inners g ! h)\<lparr>in_channel := c\<rparr>]). ch_senders (in_channel d) = 1"
    using assms by (auto simp: dialogs_ok_def dest!: subsetD [OF set_update_subset_insert])
  moreover have "id_shared ?g k = id_shared g k" for k by (rule id_shared_cong) (simp_all add: ids)
  ultimately show ?thesis using assms(1) by (simp add: dialogs_ok_def ids)
qed

lemma dialogs_ok_windows [simp]: "dialogs_ok (live, g\<lparr>dg_windows := ws\<rparr>) = dialogs_ok (live, g)"
  by (simp add: dialogs_ok_def id_shared_def)

lemma incoming_ok:
  assumes "dialogs_ok (live, g)" "hm_get (dg_open g) i = Some h"
  shows "dialogs_ok (live, incoming m h g)"
proof -
  from assms have "h < length (dg_inners g)" by (auto simp: dialogs_ok_def)
  then have "ch_senders (in_channel (dg_inners g ! h)) = 1" using assms(1) by (simp add: dialogs_ok_def)
  with assms(1) show ?thesis unfolding incoming_def by (intro dialogs_ok_channel) (simp_all add: ch_send_def)
qed

lemma id_shared_append: "h < length (dg_inners g) \<Longrightarrow> id_shared g h \<Longrightarrow> id_shared (g\<lparr>dg_inners := dg_inners g @ ds, dg_open := m\<rparr>) h"
  unfolding id_shared_def by (auto simp: nth_append intro: exI less_SucI)

lemma dialog_open_ok:
  assumes "dialogs_ok (live, g)" "dialog_new i preset payload g = (h, g1)" "dialog_open h g1 = (r, g')"
  shows "dialogs_ok (h # live, g')"
proof -
  let ?d = "\<lparr>in_id = i, in_preset = preset, in_payload = payload, in_channel = \<lparr>ch_queue = [], ch_senders = 1\<rparr>\<rparr>"
  let ?g = "g\<lparr>dg_inners := dg_inners g @ [?d], dg_open := hm_insert i h (dg_open g)\<rparr>"
  have h: "h = length (dg_inners g)" and g1: "g1 = g\<lparr>dg_inners := dg_inners g @ [?d]\<rparr>"
    using assms(2) by (auto simp: dialog_new_def)
  have g': "\<exists>ws. g' = ?g\<lparr>dg_windows := ws\<rparr>"
    using assms(3) by (auto simp: dialog_open_def g1 h Let_def split: option.splits intro: exI [of _ "dg_windows g"])
  have old: "k < length (dg_inners g)" "dg_inners ?g ! k = dg_inners g ! k" if "k \<in> set live" for k
    using assms(1) that by (auto simp: dialogs_ok_def nth_append)
  have found: "k \<in> set live \<and> in_id (dg_inners g ! k) = j" if "hm_get (dg_open g) j = Some k" for j k
    using assms(1) that by (auto simp: dialogs_ok_def)
  have "hm_get (dg_open ?g) (in_id (dg_inners ?g ! k)) = Some k \<or> id_shared ?g k" if k: "k \<in> set live" for k
  proof (cases "in_id (dg_inners g ! k) = i")
    case True
    then have "id_shared ?g k" using old [OF k] h unfolding id_shared_def by (intro exI [of _ h]) auto
    then show ?thesis ..
  next
    case False
    have "hm_get (dg_open g) (in_id (dg_inners g ! k)) = Some k \<or> id_shared g k"
      using assms(1) k by (simp add: dialogs_ok_def)
    with False old [OF k] id_shared_append [of k g "hm_insert i h (dg_open g)" "[?d]"] show ?thesis by auto
  qed
  moreover have "hm_get (dg_open ?g) (in_id (dg_inners ?g ! h)) = Some h" by (simp add: h)
  moreover have "k \<in> set (h # live) \<and> in_id (dg_inners ?g ! k) = j" if "hm_get (dg_open ?g) j = Some k" for j k
  proof (cases "j = i")
    case True
    with that h show ?thesis by (auto simp: nth_append)
  next
    case False
    with that have "hm_get (dg_open g) j = Some k" by simp
    from found [OF this] show ?thesis using old(2) [of k] by simp
  qed
  moreover have "\<forall>d \<in> set (dg_inners ?g). ch_senders (in_channel d) = 1" "set (h # live) \<subseteq> {..< length (dg_inners ?g)}"
    using assms(1) h by (auto simp: dialogs_ok_def subset_iff)
  ultimately have "dialogs_ok (h # live, ?g)" by (simp add: dialogs_ok_def)
  with g' show ?thesis by auto
qed

lemma dialog_drop_ok: "dialogs_ok (live, g) \<Longrightarrow> h \<in> set live \<Longrightarrow> dialogs_ok (removeAll h live, dialog_drop h g)"
proof -
  assume ok: "dialogs_ok (live, g)" and h: "h \<in> set live"
  let ?g = "dialog_drop h g"
  have inn: "dg_inners ?g = dg_inners g" "dg_open ?g = hm_remove (in_id (dg_inners g ! h)) (dg_open g)"
    by (simp_all add: dialog_drop_def)
  have shared: "id_shared ?g k = id_shared g k" for k by (rule id_shared_cong) (simp_all add: inn)
  have "hm_get (dg_open ?g) (in_id (dg_inners ?g ! k)) = Some k \<or> id_shared ?g k" if k: "k \<in> set live" "k \<noteq> h" for k
  proof (cases "in_id (dg_inners g ! k) = in_id (dg_inners g ! h)")
    case True
    have "h < length (dg_inners g)" using ok h by (auto simp: dialogs_ok_def)
    with True k(2) have "id_shared g k" unfolding id_shared_def by (intro exI [of _ h]) simp
    with shared show ?thesis by blast
  next
    case False
    with ok k show ?thesis by (auto simp: dialogs_ok_def inn shared)
  qed
  moreover have "k \<in> set (removeAll h live) \<and> in_id (dg_inners ?g ! k) = j" if "hm_get (dg_open ?g) j = Some k" for j k
    using ok that by (auto simp: dialogs_ok_def inn split: if_splits)
  ultimately show ?thesis using ok by (auto simp: dialogs_ok_def inn(1))
qed

lemma dialog_step_ok: "dialog_step w w' \<Longrightarrow> dialogs_ok w \<Longrightarrow> dialogs_ok w'"
proof (induction rule: dialog_step.induct)
  case (dlg_open i preset payload g h g1 r g' live)
  then show ?case using dialog_open_ok by blast
next
  case (dlg_recv h live g r g')
  obtain c where "ch_recv (in_channel (dg_inners g ! h)) = (r, c)"
    "g' = g\<lparr>dg_inners := (dg_inners g)[h := (dg_inners g ! h)\<lparr>in_channel := c\<rparr>]\<rparr>"
    using dlg_recv.hyps(2) by (auto simp: dialog_recv_def split: prod.splits)
  moreover from dlg_recv have "ch_senders (in_channel (dg_inners g ! h)) = 1"
    by (auto simp: dialogs_ok_def subset_iff)
  ultimately show ?case using dlg_recv.prems ch_recv_senders by (auto intro: dialogs_ok_channel)
next
  case (dlg_drop h live g)
  then show ?case using dialog_drop_ok by blast
next
  case (dlg_send i payload g r g' live)
  then show ?case by (auto simp: cmd_dialog_send_def incoming_ok split: option.splits)
next
  case (dlg_close live g i)
  then show ?case by (auto simp: cmd_dialog_close_def incoming_ok split: option.splits)
qed (simp_all add: dialog_send_def)

lemma dialog_reaches_ok: "dialog_reaches w \<Longrightarrow> dialogs_ok w"
proof (induction rule: dialog_reaches.induct)
  case dlg_start
  show ?case by (simp add: dialogs_ok_def no_dialogs_def)
qed (rule dialog_step_ok)

text \<open>C16. However handlers and windows interleave, and whatever ids the dialogs drew, a live dialog never finds its channel
  closed; what a window sends, and its closing, goes to the end of the queue of one live dialog with its id
  and to no other; sending fails, and closing does nothing, only where no live dialog has the id, or where two dialogs drew the
  same one.\<close>

theorem messages_reach_their_dialog:
  assumes "dialog_reaches (live, g)"
  shows "(\<forall>h \<in> set live. fst (dialog_recv h g) \<noteq> Closed)
    \<and> ((\<exists>h \<in> set live. in_id (dg_inners g ! h) = i \<and> h < length (dg_inners g)
          \<and> cmd_dialog_send i payload g = (Inr (), g\<lparr>dg_inners := (dg_inners g)[h := (dg_inners g ! h)
              \<lparr>in_channel := (in_channel (dg_inners g ! h))\<lparr>ch_queue := ch_queue (in_channel (dg_inners g ! h)) @ [DlgData payload]\<rparr>\<rparr>]\<rparr>)
          \<and> cmd_dialog_close i g = g\<lparr>dg_inners := (dg_inners g)[h := (dg_inners g ! h)
              \<lparr>in_channel := (in_channel (dg_inners g ! h))\<lparr>ch_queue := ch_queue (in_channel (dg_inners g ! h)) @ [DlgClose]\<rparr>\<rparr>]\<rparr>
          \<and> cmd_get_payload i g = Inr (in_payload (dg_inners g ! h)))
      \<or> cmd_dialog_send i payload g = (Inl (not_found i), g) \<and> cmd_dialog_close i g = g
          \<and> (\<forall>h \<in> set live. in_id (dg_inners g ! h) = i \<longrightarrow> id_shared g h))"
proof -
  from dialog_reaches_ok [OF assms(1)]
  have senders: "\<And>h. h \<in> set live \<Longrightarrow> ch_senders (in_channel (dg_inners g ! h)) = 1 \<and> h < length (dg_inners g)"
    and m: "\<And>j h. hm_get (dg_open g) j = Some h \<Longrightarrow> h \<in> set live \<and> in_id (dg_inners g ! h) = j"
    and l: "\<And>h. h \<in> set live \<Longrightarrow> hm_get (dg_open g) (in_id (dg_inners g ! h)) = Some h \<or> id_shared g h"
    by (auto simp: dialogs_ok_def subset_iff)
  have "fst (dialog_recv h g) \<noteq> Closed" if "h \<in> set live" for h
    using senders [OF that] by (auto simp: dialog_recv_def ch_recv_def split: list.splits)
  moreover have "id_shared g h" if "hm_get (dg_open g) i = None" "h \<in> set live" "in_id (dg_inners g ! h) = i" for h
    using l [OF that(2)] that by auto
  ultimately show ?thesis
    using m [of i] senders
    by (cases "hm_get (dg_open g) i")
      (auto simp: cmd_dialog_send_def cmd_dialog_close_def cmd_get_payload_def incoming_def ch_send_def)
qed

theorem messages_reach_their_dialog_witness:
  "\<exists>g g'. dialog_reaches ([0], g) \<and> cmd_dialog_send 7 JNull g = (Inr (), g')
    \<and> ch_queue (in_channel (dg_inners g' ! 0)) = [DlgData JNull]
    \<and> ch_queue (in_channel (dg_inners (cmd_dialog_close 7 g) ! 0)) = [DlgClose]"
proof -
  obtain h g1 where n: "dialog_new 7 ''msg-sign'' JNull no_dialogs = (h, g1)" by fastforce
  obtain r g where o: "dialog_open h g1 = (r, g)" by fastforce
  have h: "h = 0" and inn: "dg_inners g = [\<lparr>in_id = 7, in_preset = ''msg-sign'', in_payload = JNull,
      in_channel = \<lparr>ch_queue = [], ch_senders = 1\<rparr>\<rparr>]" and op: "hm_get (dg_open g) 7 = Some 0"
    using n o by (auto simp: dialog_new_def dialog_open_def no_dialogs_def Let_def split: option.splits)
  have reach: "dialog_reaches ([0], g)"
    using dlg_more [OF dlg_start dialog_step.dlg_open [OF n o]] h by simp
  have "\<not> id_shared g 0" by (simp add: id_shared_def inn)
  with messages_reach_their_dialog [OF reach, of 7 JNull] inn reach show ?thesis by auto
qed

end
