(* ===== verification/Secret_Cache.thy ===== *)
theory Secret_Cache
  imports Text Dialogs
begin

text \<open>
  The cache of an unlocked wallet (\<open>crates/wallets/src/secret_cache.rs\<close>): a secret and the task
  that clears it sixty seconds after it was stored, as a step relation with the clock, the tasks
  and the callers interleaved; and the dialog that asks for the password.
\<close>

section \<open>The cache and its expirer\<close>














text \<open>A secret is only lost by expiring, never sooner than its sixty seconds.\<close>



section \<open>Secrets and strings\<close>

definition string_into_secret :: "string \<Rightarrow> bytes" where
  "string_into_secret s = map byte_of_char s"

definition string_from_secret :: "bytes \<Rightarrow> string" where
  "string_from_secret b = map char_of_byte b"

lemma string_from_into_secret [simp]: "string_from_secret (string_into_secret s) = s"
  by (simp add: string_from_secret_def string_into_secret_def comp_def)

section \<open>The unlock dialog\<close>

text \<open>
  What the dialog does: whether it opens, what each \<open>recv\<close> gives, and whether each \<open>send\<close> works.
\<close>

record dialog_env =
  dl_open :: bool
  dl_recv :: "nat \<Rightarrow> dialog_msg option"
  dl_send :: "nat \<Rightarrow> bool"

datatype unlock_error = DialogFailed | RejectedByUser | FailedToUnlock

text \<open>The attempts from the \<open>i\<close>-th on, \<open>n\<close> of them; \<open>try_decrypt\<close> fails with \<open>None\<close>.\<close>

fun unlock_attempts :: "dialog_env \<Rightarrow> (string \<Rightarrow> bytes option) \<Rightarrow> nat \<Rightarrow> nat \<Rightarrow> unlock_error + bytes" where
  "unlock_attempts d try_decrypt i 0 = Inl FailedToUnlock"
| "unlock_attempts d try_decrypt i (Suc n) =
    (case dl_recv d i of
      Some (DlgData payload) \<Rightarrow>
        (case as_str (json_get ''password'' payload) of
          None \<Rightarrow> Inl RejectedByUser
        | Some password \<Rightarrow>
            (case try_decrypt password of
              Some secret \<Rightarrow> Inr secret
            | None \<Rightarrow>
                if dl_send d i then unlock_attempts d try_decrypt (Suc i) n else Inl DialogFailed))
    | _ \<Rightarrow> Inl RejectedByUser)"

text \<open>The result, and the contents of the cache it leaves.\<close>

definition unlock_with_dialog :: "dialog_env \<Rightarrow> (string \<Rightarrow> bytes option) \<Rightarrow> bytes option
    \<Rightarrow> (unlock_error + unit) \<times> bytes option" where
  "unlock_with_dialog d try_decrypt cache =
    (case cache of
      Some _ \<Rightarrow> (Inr (), cache)
    | None \<Rightarrow>
        if \<not> dl_open d then (Inl DialogFailed, cache)
        else
          (case unlock_attempts d try_decrypt 0 3 of
            Inl e \<Rightarrow> (Inl e, cache)
          | Inr secret \<Rightarrow> (Inr (), Some secret)))"

lemma unlock_attempts_Inr:
  "unlock_attempts d f i n = Inr s \<Longrightarrow>
    \<exists>j payload pw. i \<le> j \<and> j < i + n \<and> dl_recv d j = Some (DlgData payload)
      \<and> as_str (json_get ''password'' payload) = Some pw \<and> f pw = Some s"
proof (induction n arbitrary: i)
  case (Suc n)
  from Suc.prems obtain payload pw where r: "dl_recv d i = Some (DlgData payload)"
    and pw: "as_str (json_get ''password'' payload) = Some pw"
    by (auto split: option.splits dialog_msg.splits)
  show ?case
  proof (cases "f pw")
    case (Some s')
    with Suc.prems r pw show ?thesis by (intro exI [of _ i]) auto
  next
    case None
    with Suc.prems r pw have "unlock_attempts d f (Suc i) n = Inr s" by (simp split: if_splits)
    from Suc.IH [OF this] obtain j payload' pw' where "Suc i \<le> j" "j < Suc i + n"
      "dl_recv d j = Some (DlgData payload')" "as_str (json_get ''password'' payload') = Some pw'" "f pw' = Some s"
      by blast
    then show ?thesis by (intro exI [of _ j]) auto
  qed
qed simp

text \<open>Unlocking succeeds only when the cache already holds a secret or one of the first
  three answers is a password that decrypts; a success leaves the cache unlocked, holding
  the old secret or the decrypted one, and a failure leaves it locked.\<close>

theorem unlock_stores_decrypted:
  "case unlock_with_dialog d f cache of
     (Inr _, cache') \<Rightarrow> (case cache of
         Some s \<Rightarrow> cache' = Some s
       | None \<Rightarrow> \<exists>j payload pw. j < 3 \<and> dl_recv d j = Some (DlgData payload)
           \<and> as_str (json_get ''password'' payload) = Some pw \<and> f pw \<noteq> None \<and> cache' = f pw)
   | (Inl _, cache') \<Rightarrow> cache = None \<and> cache' = None"
proof (cases cache)
  case None
  show ?thesis
  proof (cases "unlock_attempts d f 0 3")
    case (Inr s)
    then show ?thesis
      using None unlock_attempts_Inr [OF Inr] by (auto simp: unlock_with_dialog_def)
  qed (use None in \<open>simp add: unlock_with_dialog_def\<close>)
qed (simp add: unlock_with_dialog_def)

end
