(* ===== verification/Walletconnect.thy ===== *)
theory Walletconnect
  imports Wc_Pairing Secret_Cache Ethui_Types
begin

text \<open>
  WalletConnect sessions (\<open>crates/walletconnect/src/session.rs\<close> and \<open>pairing.rs\<close>): the pairings,
  the proposals being handled, the sessions, the RPC handler of each session, and what is
  published to the relay. The relay, the key exchange, the codecs, the clock, the user's answer
  to the dialog and the RPC handlers themselves are the fields of a \<open>wc_env\<close>.
\<close>

section \<open>State\<close>

record dapp_metadata =
  dm_name :: string
  dm_url :: string
  dm_icons :: "string list"

record session =
  se_topic :: string
  se_sym_key :: bytes
  se_peer :: dapp_metadata
  se_allowed_methods :: "string list"
  se_chains :: "string list"
  se_address :: address
  se_expiry :: u64

text \<open>A message given to the relay, with the payload its envelope was made of.\<close>

record published =
  pub_topic :: string
  pub_payload :: json
  pub_envelope :: bytes
  pub_tag :: nat
  pub_ttl :: nat
  pub_prompt :: bool

text \<open>The handler of a session is known by the domain it was built with.\<close>

record wc_state =
  wc_pairings :: "(string, bytes) hmap"
  wc_in_flight :: "string list"
  wc_sessions :: "(string, session) hmap"
  wc_handlers :: "(string, string option) hmap"
  wc_msg_id :: u64
  wc_subscribed :: "string list"
  wc_published :: "published list"
  wc_rpc_calls :: "(string option \<times> json) list"
  wc_notified :: nat

record wc_env =
  wce_client :: bool
  wce_relay :: "nat \<Rightarrow> wc_error option"
  wce_subscribe :: "wc_error option"
  wce_unsubscribe :: "wc_error option"
  wce_aead :: aead
  wce_iv :: "nat \<Rightarrow> bytes"
  wce_base64 :: "string \<Rightarrow> bytes option"
  wce_base64_url :: "string \<Rightarrow> bytes option"
  wce_to_bytes :: "json \<Rightarrow> bytes"
  wce_from_bytes :: "bytes \<Rightarrow> json option"
  wce_public_key :: bytes
  wce_session_key :: "bytes \<Rightarrow> wc_error + bytes"
  wce_sha256 :: "bytes \<Rightarrow> bytes"
  wce_host :: "string \<Rightarrow> string option"
  wce_url :: "string \<Rightarrow> parsed_url option"
  wce_hex_encode :: "bytes \<Rightarrow> string"
  wce_hex_decode :: "string \<Rightarrow> bytes option"
  wce_hex32 :: "string \<Rightarrow> bytes option"
  wce_show_address :: "address \<Rightarrow> string"
  wce_now :: u64
  wce_dialog :: dialog_env
  wce_current_address :: "address option"
  wce_supported :: "string list"
  wce_valid_request :: "json \<Rightarrow> bool"
  wce_rpc :: "string option \<Rightarrow> json \<Rightarrow> json option"

type_synonym wc_handler = "(wc_state, wc_error, unit) handler"

definition TAG_SESSION_PROPOSE :: nat where "TAG_SESSION_PROPOSE = 1100"
definition TAG_SESSION_UPDATE :: nat where "TAG_SESSION_UPDATE = 1104"
definition TAG_SESSION_REQUEST :: nat where "TAG_SESSION_REQUEST = 1108"
definition TAG_SESSION_EVENT :: nat where "TAG_SESSION_EVENT = 1110"
definition TAG_SESSION_DELETE :: nat where "TAG_SESSION_DELETE = 1112"
definition TAG_SESSION_PING :: nat where "TAG_SESSION_PING = 1114"

section \<open>Steps under a lock\<close>

definition start_proposal :: "string \<Rightarrow> wc_state \<Rightarrow> bool \<times> wc_state" where
  "start_proposal t s =
    (if t \<in> set (wc_in_flight s) then (False, s) else (True, s\<lparr>wc_in_flight := t # wc_in_flight s\<rparr>))"

definition finish_proposal :: "string \<Rightarrow> wc_state \<Rightarrow> wc_state" where
  "finish_proposal t s = s\<lparr>wc_in_flight := removeAll t (wc_in_flight s)\<rparr>"

definition sym_key_for :: "string \<Rightarrow> wc_state \<Rightarrow> bytes option" where
  "sym_key_for t s = hm_get (wc_pairings s) t"

definition remove_pairing :: "string \<Rightarrow> wc_state \<Rightarrow> wc_state" where
  "remove_pairing t s = s\<lparr>wc_pairings := hm_remove t (wc_pairings s)\<rparr>"

definition insert_handler :: "string \<Rightarrow> string option \<Rightarrow> wc_state \<Rightarrow> wc_state" where
  "insert_handler t h s = s\<lparr>wc_handlers := hm_insert t h (wc_handlers s)\<rparr>"

definition insert_session :: "string \<Rightarrow> session \<Rightarrow> wc_state \<Rightarrow> wc_state" where
  "insert_session t x s = s\<lparr>wc_sessions := hm_insert t x (wc_sessions s)\<rparr>"

definition remove_session :: "string \<Rightarrow> wc_state \<Rightarrow> wc_state" where
  "remove_session t s = s\<lparr>wc_sessions := hm_remove t (wc_sessions s)\<rparr>"

definition remove_handler :: "string \<Rightarrow> wc_state \<Rightarrow> wc_state" where
  "remove_handler t s = s\<lparr>wc_handlers := hm_remove t (wc_handlers s)\<rparr>"

definition wc_notify :: "wc_state \<Rightarrow> wc_state" where
  "wc_notify s = s\<lparr>wc_notified := wc_notified s + 1\<rparr>"

text \<open>\<open>fetch_add\<close> returns the old value and wraps around.\<close>

definition next_msg_id :: "wc_state \<Rightarrow> u64 \<times> wc_state" where
  "next_msg_id s = (wc_msg_id s, s\<lparr>wc_msg_id := wc_msg_id s + 1\<rparr>)"

definition publish_raw :: "wc_env \<Rightarrow> string \<Rightarrow> bytes \<Rightarrow> json \<Rightarrow> nat \<Rightarrow> nat \<Rightarrow> bool \<Rightarrow> wc_handler" where
  "publish_raw env topic key payload tag ttl prompt s =
    (case encrypt_type0 (wce_aead env) (wce_iv env (length (wc_published s))) (wce_to_bytes env payload) key of
      Inl e \<Rightarrow> (Inl e, s)
    | Inr envelope \<Rightarrow>
        if \<not> wce_client env then (Inl (WcOther ''walletconnect not initialised''), s)
        else
          (case wce_relay env (length (wc_published s)) of
            Some e \<Rightarrow> (Inl e, s)
          | None \<Rightarrow> (Inr (), s\<lparr>wc_published := wc_published s @
              [\<lparr>pub_topic = topic, pub_payload = payload, pub_envelope = envelope, pub_tag = tag,
                pub_ttl = ttl, pub_prompt = prompt\<rparr>]\<rparr>)))"

definition publish :: "wc_env \<Rightarrow> string \<Rightarrow> bytes \<Rightarrow> json \<Rightarrow> nat \<Rightarrow> nat \<Rightarrow> bool \<Rightarrow> wc_handler" where
  "publish env topic key payload tag ttl prompt = publish_raw env topic key payload tag ttl prompt"

section \<open>Accounts and methods\<close>

text \<open>An address is written by \<open>show\<close>.\<close>

definition build_eip155_accounts :: "(address \<Rightarrow> string) \<Rightarrow> string list \<Rightarrow> address \<Rightarrow> string list" where
  "build_eip155_accounts show chs a =
    (let accounts = map (\<lambda>c. c @ '':'' @ show a) (filter (starts_with ''eip155:'') chs) in
      if accounts = [] then [''eip155:1:'' @ show a] else accounts)"

definition collect_strings :: "json \<Rightarrow> string \<Rightarrow> string list" where
  "collect_strings namespaces field =
    (case as_array (json_get field (json_get ''eip155'' namespaces)) of
      None \<Rightarrow> []
    | Some xs \<Rightarrow> List.map_filter as_str xs)"

text \<open>\<open>filter(|m| seen.insert(m))\<close> keeps the first of each.\<close>

fun dedup_seen :: "string list \<Rightarrow> string list \<Rightarrow> string list" where
  "dedup_seen seen [] = []"
| "dedup_seen seen (x # xs) = (if x \<in> set seen then dedup_seen seen xs else x # dedup_seen (x # seen) xs)"

definition filter_methods :: "string list \<Rightarrow> string list \<Rightarrow> string list \<Rightarrow> string list + string list" where
  "filter_methods required optional supported =
    (let unsupported_required = filter (\<lambda>m. m \<notin> set supported) required in
      if unsupported_required \<noteq> [] then Inl unsupported_required
      else Inr (dedup_seen [] (filter (\<lambda>m. m \<in> set supported) (required @ optional))))"

section \<open>Proposals\<close>

definition error_response :: "u64 \<Rightarrow> int \<Rightarrow> string \<Rightarrow> json" where
  "error_response i code message =
    JObj [(''id'', JInt (uint i)), (''jsonrpc'', JStr ''2.0''),
      (''error'', JObj [(''code'', JInt code), (''message'', JStr message)])]"

definition result_response :: "u64 \<Rightarrow> json \<Rightarrow> json" where
  "result_response i result = JObj [(''id'', JInt (uint i)), (''jsonrpc'', JStr ''2.0''), (''result'', result)]"

definition wc_call :: "u64 \<Rightarrow> string \<Rightarrow> json \<Rightarrow> json" where
  "wc_call i wc_method params =
    JObj [(''id'', JInt (uint i)), (''jsonrpc'', JStr ''2.0''), (''method'', JStr wc_method), (''params'', params)]"

definition eip155_namespaces :: "string list \<Rightarrow> string list \<Rightarrow> json" where
  "eip155_namespaces accounts ms =
    JObj [(''eip155'', JObj [(''accounts'', JArr (map JStr accounts)), (''methods'', JArr (map JStr ms)),
      (''events'', JArr [JStr ''chainChanged'', JStr ''accountsChanged''])])]"

text \<open>
  \<open>{:?}\<close> of a list of strings: quoted, with quotes, backslashes and control characters escaped.
\<close>

definition debug_char :: "char \<Rightarrow> string" where
  "debug_char c =
    (let n = of_char c :: nat; slash = CHR 0x5C in
      if n = 0 then [slash, CHR ''0'']
      else if n = 9 then [slash, CHR ''t'']
      else if n = 10 then [slash, CHR ''n'']
      else if n = 13 then [slash, CHR ''r'']
      else if n = 34 \<or> n = 92 then [slash, c]
      else if n < 32 \<or> n = 127 then [slash] @ ''u{'' @ show_hex n @ ''}''
      else [c])"

definition debug_str :: "string \<Rightarrow> string" where
  "debug_str s = [CHR 0x22] @ concat (map debug_char s) @ [CHR 0x22]"

fun join_comma :: "string list \<Rightarrow> string" where
  "join_comma [] = []"
| "join_comma [x] = x"
| "join_comma (x # y # ys) = x @ '', '' @ join_comma (y # ys)"

definition debug_strings :: "string list \<Rightarrow> string" where
  "debug_strings xs = ''['' @ join_comma (map debug_str xs) @ '']''"

text \<open>The dialog: only \<open>approved: true\<close> approves.\<close>

definition open_dialog :: "wc_env \<Rightarrow> wc_error + bool" where
  "open_dialog env =
    (if \<not> dl_open (wce_dialog env) then Inl (WcOther ''dialog'')
     else Inr (case dl_recv (wce_dialog env) 0 of
       Some (DlgData data) \<Rightarrow> as_bool (json_get ''approved'' data) = Some True
     | _ \<Rightarrow> False))"

definition settle_params :: "string list \<Rightarrow> string list \<Rightarrow> string \<Rightarrow> u64 \<Rightarrow> json" where
  "settle_params accounts ms pub expiry =
    JObj [(''relay'', JObj [(''protocol'', JStr ''irn'')]),
      (''namespaces'', eip155_namespaces accounts ms),
      (''controller'', JObj [(''publicKey'', JStr pub), (''metadata'', JObj [(''name'', JStr ''ethui''),
        (''description'', JStr ''ethui developer wallet''), (''url'', JStr ''https://ethui.dev''), (''icons'', JArr [])])]),
      (''expiry'', JInt (uint expiry))]"

definition settle_session :: "wc_env \<Rightarrow> string \<Rightarrow> bytes \<Rightarrow> u64 \<Rightarrow> string \<Rightarrow> dapp_metadata \<Rightarrow> string list \<Rightarrow> string list \<Rightarrow> wc_handler" where
  "settle_session env pairing_topic pairing_key proposal_id proposer_hex peer chs allowed s =
    (case wce_hex_decode env proposer_hex of
      None \<Rightarrow> (Inl WcHex, s)
    | Some proposer \<Rightarrow>
        if length proposer \<noteq> 32 then (Inl (WcCrypto ''proposer pubkey wrong length''), s)
        else
          (case wce_session_key env proposer of
            Inl e \<Rightarrow> (Inl e, s)
          | Inr key \<Rightarrow>
              (let topic = wce_hex_encode env (wce_sha256 env key); pub = wce_hex_encode env (wce_public_key env) in
                if \<not> wce_client env then (Inl (WcOther ''walletconnect not initialised''), s)
                else
                  (case wce_subscribe env of
                    Some e \<Rightarrow> (Inl e, s)
                  | None \<Rightarrow>
                      (let s1 = s\<lparr>wc_subscribed := topic # wc_subscribed s\<rparr> in
                        case wce_current_address env of
                          None \<Rightarrow> (Inl WcPanic, s1)
                        | Some address \<Rightarrow>
                            (let expiry = wce_now env + 604800;
                                 accounts = build_eip155_accounts (wce_show_address env) chs address;
                                 response = result_response proposal_id
                                   (JObj [(''relay'', JObj [(''protocol'', JStr ''irn'')]), (''responderPublicKey'', JStr pub)]);
                                 new = \<lparr>se_topic = topic, se_sym_key = key, se_peer = peer, se_allowed_methods = allowed,
                                   se_chains = chs, se_address = address, se_expiry = expiry\<rparr> in
                              run_seq
                                [publish env pairing_topic pairing_key response 1101 300 False,
                                 (\<lambda>s. case next_msg_id s of (i, s') \<Rightarrow>
                                   publish env topic key (wc_call i ''wc_sessionSettle'' (settle_params accounts allowed pub expiry))
                                     1102 300 True s'),
                                 step (insert_handler topic (wce_host env (dm_url peer))),
                                 step (insert_session topic new),
                                 step wc_notify,
                                 step (remove_pairing pairing_topic)] s1))))))"

definition proposal_peer :: "json \<Rightarrow> dapp_metadata" where
  "proposal_peer metadata = \<lparr>
    dm_name = (case as_str (json_get ''name'' metadata) of None \<Rightarrow> ''Unknown'' | Some n \<Rightarrow> n),
    dm_url = (case as_str (json_get ''url'' metadata) of None \<Rightarrow> [] | Some u \<Rightarrow> u),
    dm_icons = (case as_array (json_get ''icons'' metadata) of None \<Rightarrow> [] | Some xs \<Rightarrow> List.map_filter as_str xs)\<rparr>"

definition proposal_chains :: "json \<Rightarrow> json \<Rightarrow> string list" where
  "proposal_chains required optional =
    dedup_seen [] (collect_strings required ''chains'' @ collect_strings optional ''chains'')"

definition handle_proposal :: "wc_env \<Rightarrow> string \<Rightarrow> bytes \<Rightarrow> json \<Rightarrow> wc_handler" where
  "handle_proposal env topic key payload s =
    (case as_u64 (json_get ''id'' payload) of
      None \<Rightarrow> (Inl (WcMissingField ''proposal id''), s)
    | Some i \<Rightarrow>
        (let params = json_get ''params'' payload; proposer = json_get ''proposer'' params;
             required = json_get ''requiredNamespaces'' params; optional = json_get ''optionalNamespaces'' params in
          case as_str (json_get ''publicKey'' proposer) of
            None \<Rightarrow> (Inl (WcMissingField ''proposer.publicKey''), s)
          | Some pub \<Rightarrow>
              (case filter_methods (collect_strings required ''methods'') (collect_strings optional ''methods'') (wce_supported env) of
                Inl bad \<Rightarrow>
                  run_seq
                    [publish env topic key (error_response i 5003 (''Non conforming namespaces: unsupported required methods '' @ debug_strings bad))
                       1101 300 False,
                     step (remove_pairing topic)] s
              | Inr allowed \<Rightarrow>
                  (case open_dialog env of
                    Inl e \<Rightarrow> (Inl e, s)
                  | Inr approved \<Rightarrow>
                      if \<not> approved then
                        run_seq
                          [publish env topic key (error_response i 5000 ''User rejected the session proposal'') 1101 300 False,
                           step (remove_pairing topic)] s
                      else
                        settle_session env topic key i pub (proposal_peer (json_get ''metadata'' proposer))
                          (proposal_chains required optional) allowed s))))"

section \<open>Requests\<close>

definition rpc_request :: "u64 \<Rightarrow> string \<Rightarrow> json \<Rightarrow> json" where
  "rpc_request i rpc_method params =
    JObj [(''jsonrpc'', JStr ''2.0''), (''id'', JInt (uint i)), (''method'', JStr rpc_method), (''params'', params)]"

definition handle_request :: "wc_env \<Rightarrow> string \<Rightarrow> bytes \<Rightarrow> json \<Rightarrow> wc_handler" where
  "handle_request env topic key payload s =
    (case as_u64 (json_get ''id'' payload) of
      None \<Rightarrow> (Inl (WcMissingField ''request id''), s)
    | Some i \<Rightarrow>
        (let inner = json_get ''request'' (json_get ''params'' payload) in
          case as_str (json_get ''method'' inner) of
            None \<Rightarrow> (Inl (WcMissingField ''request.method''), s)
          | Some rpc_method \<Rightarrow>
              (case hm_get (wc_sessions s) topic of
                None \<Rightarrow> (Inr (), s)
              | Some x \<Rightarrow>
                  if se_expiry x < wce_now env then
                    publish env topic key (error_response i 5000 ''Session expired'') 1109 300 False s
                  else if rpc_method \<notin> set (se_allowed_methods x) then
                    publish env topic key (error_response i 5001 (''Unauthorized method: '' @ rpc_method)) 1109 300 False s
                  else
                    (let req = rpc_request i rpc_method (json_get ''params'' inner) in
                      if \<not> wce_valid_request env req then (Inl WcJson, s)
                      else
                        (case hm_get (wc_handlers s) topic of
                          None \<Rightarrow> (Inr (), s)
                        | Some h \<Rightarrow>
                            (let s1 = s\<lparr>wc_rpc_calls := wc_rpc_calls s @ [(h, req)]\<rparr> in
                              case wce_rpc env h req of
                                None \<Rightarrow> (Inr (), s1)
                              | Some resp \<Rightarrow> publish_raw env topic key resp 1109 300 False s1))))))"

section \<open>Lifecycle\<close>

definition send_ping_response :: "wc_env \<Rightarrow> string \<Rightarrow> bytes \<Rightarrow> json \<Rightarrow> wc_handler" where
  "send_ping_response env topic key payload s =
    (case (case as_u64 (json_get ''id'' payload) of Some i \<Rightarrow> (i, s) | None \<Rightarrow> next_msg_id s) of
      (i, s') \<Rightarrow> publish env topic key (result_response i (JBool True)) 1115 60 False s')"

definition delete_by_peer :: "string \<Rightarrow> wc_handler" where
  "delete_by_peer topic = run_seq [step (remove_session topic), step (remove_handler topic), step wc_notify]"

definition disconnect :: "wc_env \<Rightarrow> string \<Rightarrow> wc_handler" where
  "disconnect env topic s =
    (case hm_get (wc_sessions s) topic of
      None \<Rightarrow> (Inl WcSessionNotFound, s)
    | Some x \<Rightarrow>
        run_seq
          [\<lambda>s. (case next_msg_id s of (i, s') \<Rightarrow>
             publish env topic (se_sym_key x)
               (wc_call i ''wc_sessionDelete'' (JObj [(''code'', JInt 6000), (''message'', JStr ''User disconnected'')])) 1112 60 False s'),
           \<lambda>s. (if \<not> wce_client env then (Inl (WcOther ''walletconnect not initialised''), s)
                else case wce_unsubscribe env of
                  Some e \<Rightarrow> (Inl e, s)
                | None \<Rightarrow> (Inr (), s\<lparr>wc_subscribed := removeAll topic (wc_subscribed s)\<rparr>)),
           step (remove_session topic),
           step (remove_handler topic),
           step wc_notify] s)"

text \<open>A failure to disconnect one session is logged and the others go on.\<close>

definition disconnect_all :: "wc_env \<Rightarrow> wc_state \<Rightarrow> wc_state" where
  "disconnect_all env s = fold (\<lambda>x s. snd (disconnect env (se_topic x) s)) (hm_values (wc_sessions s)) s"

definition list_sessions :: "wc_state \<Rightarrow> session list" where
  "list_sessions s = hm_values (wc_sessions s)"

definition switch_account :: "wc_env \<Rightarrow> string \<Rightarrow> address \<Rightarrow> wc_handler" where
  "switch_account env topic a s =
    (case hm_get (wc_sessions s) topic of
      None \<Rightarrow> (Inl WcSessionNotFound, s)
    | Some x \<Rightarrow>
        run_seq
          [\<lambda>s. (case next_msg_id s of (i, s') \<Rightarrow>
             publish env topic (se_sym_key x)
               (wc_call i ''wc_sessionUpdate'' (JObj [(''namespaces'',
                  eip155_namespaces (build_eip155_accounts (wce_show_address env) (se_chains x) a) (se_allowed_methods x))]))
               TAG_SESSION_UPDATE 300 False s'),
           \<lambda>s. (case next_msg_id s of (i, s') \<Rightarrow>
             publish env topic (se_sym_key x)
               (wc_call i ''wc_sessionEvent'' (JObj
                 [(''event'', JObj [(''name'', JStr ''accountsChanged''), (''data'', JArr [JStr (wce_show_address env a)])]),
                  (''chainId'', JStr (case se_chains x of [] \<Rightarrow> ''eip155:1'' | c # _ \<Rightarrow> c))]))
               TAG_SESSION_EVENT 300 False s'),
           \<lambda>s. (case hm_get (wc_sessions s) topic of
               None \<Rightarrow> (Inl WcSessionNotFound, s)
             | Some y \<Rightarrow> (Inr (), s\<lparr>wc_sessions := hm_insert topic (y\<lparr>se_address := a\<rparr>) (wc_sessions s)\<rparr>)),
           step wc_notify] s)"

definition pair :: "wc_env \<Rightarrow> string \<Rightarrow> wc_handler" where
  "pair env uri s =
    (case parse_uri (wce_url env) (wce_hex32 env) uri of
      Inl e \<Rightarrow> (Inl e, s)
    | Inr info \<Rightarrow>
        (let t = pi_topic info; s1 = s\<lparr>wc_pairings := hm_insert t (pi_sym_key info) (wc_pairings s)\<rparr> in
          if \<not> wce_client env then (Inl (WcOther ''walletconnect not initialised''), remove_pairing t s1)
          else
            (case wce_subscribe env of
              Some e \<Rightarrow> (Inl e, remove_pairing t s1)
            | None \<Rightarrow> (Inr (), s1\<lparr>wc_subscribed := t # wc_subscribed s1\<rparr>))))"

section \<open>Dispatch\<close>

text \<open>What a message spawns.\<close>

datatype wc_task =
    TaskProposal string bytes json
  | TaskRequest string bytes json
  | TaskPing string bytes json
  | TaskDelete string

definition decode_message :: "wc_env \<Rightarrow> string \<Rightarrow> bytes option" where
  "decode_message env raw =
    (case wce_base64 env (trim raw) of
      Some b \<Rightarrow> Some b
    | None \<Rightarrow> wce_base64_url env (trim raw))"

definition read_payload :: "wc_env \<Rightarrow> bytes \<Rightarrow> bytes \<Rightarrow> json option" where
  "read_payload env envelope key =
    (case decrypt_type0 (wce_aead env) envelope key of
      Inl _ \<Rightarrow> None
    | Inr plaintext \<Rightarrow> wce_from_bytes env plaintext)"

definition session_task :: "nat \<Rightarrow> string \<Rightarrow> bytes \<Rightarrow> json \<Rightarrow> wc_task option" where
  "session_task tag topic key payload =
    (if tag = TAG_SESSION_REQUEST then Some (TaskRequest topic key payload)
     else if tag = TAG_SESSION_PING then Some (TaskPing topic key payload)
     else if tag = TAG_SESSION_DELETE then Some (TaskDelete topic)
     else None)"

definition dispatch :: "wc_env \<Rightarrow> string \<Rightarrow> nat \<Rightarrow> string \<Rightarrow> wc_state \<Rightarrow> wc_task option \<times> wc_state" where
  "dispatch env topic tag raw s =
    (case decode_message env raw of
      None \<Rightarrow> (None, s)
    | Some envelope \<Rightarrow>
        (case sym_key_for topic s of
          Some key \<Rightarrow>
            if tag \<noteq> TAG_SESSION_PROPOSE then (None, s)
            else
              (case read_payload env envelope key of
                None \<Rightarrow> (None, s)
              | Some payload \<Rightarrow>
                  (case start_proposal topic s of
                    (started, s') \<Rightarrow> (if started then Some (TaskProposal topic key payload) else None, s')))
        | None \<Rightarrow>
            (case hm_get (wc_sessions s) topic of
              None \<Rightarrow> (None, s)
            | Some x \<Rightarrow>
                (case read_payload env envelope (se_sym_key x) of
                  None \<Rightarrow> (None, s)
                | Some payload \<Rightarrow> (session_task tag topic (se_sym_key x) payload, s)))))"

text \<open>A task logs its error.\<close>

fun run_task :: "wc_env \<Rightarrow> wc_task \<Rightarrow> wc_state \<Rightarrow> wc_state" where
  "run_task env (TaskProposal topic key payload) s =
    finish_proposal topic (snd (handle_proposal env topic key payload s))"
| "run_task env (TaskRequest topic key payload) s = snd (handle_request env topic key payload s)"
| "run_task env (TaskPing topic key payload) s = snd (send_ping_response env topic key payload s)"
| "run_task env (TaskDelete topic) s = snd (delete_by_peer topic s)"

section \<open>Methods and accounts\<close>

lemma dedup_seen_set: "set (dedup_seen seen xs) = set xs - set seen"
  by (induction seen xs rule: dedup_seen.induct) auto

lemma dedup_seen_distinct: "distinct (dedup_seen seen xs)"
  by (induction seen xs rule: dedup_seen.induct) (auto simp: dedup_seen_set)

lemma dedup_seen_cong: "set a = set b \<Longrightarrow> dedup_seen a ys = dedup_seen b ys"
proof (induction ys arbitrary: a b)
  case (Cons y ys)
  have "dedup_seen a ys = dedup_seen b ys" "dedup_seen (y # a) ys = dedup_seen (y # b) ys"
    using Cons.IH [of a b] Cons.IH [of "y # a" "y # b"] Cons.prems by simp_all
  with Cons.prems show ?case by simp
qed simp

lemma dedup_seen_append:
  "dedup_seen seen (xs @ ys) = dedup_seen seen xs @ dedup_seen (rev xs @ seen) ys"
proof (induction seen xs arbitrary: rule: dedup_seen.induct)
  case (2 seen x xs)
  show ?case
  proof (cases "x \<in> set seen")
    case True
    then have "dedup_seen (rev xs @ seen) ys = dedup_seen (rev (x # xs) @ seen) ys" by (intro dedup_seen_cong) auto
    with True "2.IH"(1) show ?thesis by simp
  next
    case False
    with "2.IH"(2) show ?thesis by simp
  qed
qed simp

text \<open>A proposal is refused exactly when some required method is not supported, with all
  of those methods; else what is approved has no duplicates, contains every required method,
  exactly the supported ones of the optional methods, and the required ones first.\<close>

theorem filter_methods_spec:
  "case filter_methods required optional supported of
     Inl bad \<Rightarrow> bad \<noteq> [] \<and> set bad = set required - set supported
   | Inr ms \<Rightarrow> distinct ms \<and> set required \<subseteq> set supported
       \<and> set ms = set required \<union> (set optional \<inter> set supported)
       \<and> (\<exists>rest. ms = dedup_seen [] required @ rest \<and> set rest \<inter> set required = {})"
proof (cases "filter (\<lambda>m. m \<notin> set supported) required = []")
  case True
  then have sup: "set required \<subseteq> set supported" by (auto simp: filter_empty_conv)
  then have req: "filter (\<lambda>m. m \<in> set supported) required = required" by (simp add: filter_id_conv subset_eq)
  let ?opt = "filter (\<lambda>m. m \<in> set supported) optional"
  have "filter_methods required optional supported = Inr (dedup_seen [] required @ dedup_seen (rev required) ?opt)"
    using True req by (simp add: filter_methods_def dedup_seen_append)
  moreover have "distinct (dedup_seen [] required @ dedup_seen (rev required) ?opt)"
    using dedup_seen_distinct [of "[]" "required @ ?opt"] by (simp add: dedup_seen_append)
  ultimately show ?thesis using sup by (auto simp: dedup_seen_set)
next
  case False
  then show ?thesis by (auto simp: filter_methods_def Let_def)
qed

lemma accounts_spec:
  "build_eip155_accounts show chs a \<noteq> []
   \<and> (\<forall>c \<in> set chs. starts_with ''eip155:'' c \<longrightarrow> c @ '':'' @ show a \<in> set (build_eip155_accounts show chs a))
   \<and> (\<forall>x \<in> set (build_eip155_accounts show chs a). \<exists>c. starts_with ''eip155:'' c \<and> x = c @ '':'' @ show a
        \<and> (c \<in> set chs \<or> c = ''eip155:1''))"
proof (cases "filter (starts_with ''eip155:'') chs = []")
  case True
  then show ?thesis
    by (auto simp: build_eip155_accounts_def filter_empty_conv starts_with_def intro: exI [of _ "''eip155:1''"])
next
  case False
  then show ?thesis by (auto simp: build_eip155_accounts_def Let_def filter_empty_conv)
qed

section \<open>Publishing\<close>

text \<open>Publishing adds at most one message and touches nothing else.\<close>

definition same_but_published :: "wc_state \<Rightarrow> wc_state \<Rightarrow> bool" where
  "same_but_published s s' = (wc_sessions s' = wc_sessions s \<and> wc_handlers s' = wc_handlers s
    \<and> wc_pairings s' = wc_pairings s \<and> wc_in_flight s' = wc_in_flight s \<and> wc_rpc_calls s' = wc_rpc_calls s)"

lemma publish_raw_cases:
  assumes "publish_raw env topic key payload tag ttl prompt s = (r, s')"
  obtains e where "r = Inl e" "s' = s"
  | p where "r = Inr ()" "s' = s\<lparr>wc_published := wc_published s @ [p]\<rparr>" "pub_topic p = topic"
      "pub_payload p = payload" "pub_tag p = tag"
  using assms by (auto simp: publish_raw_def split: sum.splits option.splits if_splits)

lemma publish_same:
  "same_but_published s (snd (publish_raw env topic key payload tag ttl prompt s))"
  by (auto simp: publish_raw_def same_but_published_def split: sum.splits option.splits)

lemma next_msg_id_same [simp]: "same_but_published s (snd (next_msg_id s))"
  by (simp add: next_msg_id_def same_but_published_def)

section \<open>Requests\<close>

text \<open>C4. A request reaches the RPC handler only on a known session that has not expired,
  for a method the session allows, and goes to the handler of that session; handling a request
  never changes the sessions, the handlers or the pairings. On an expired session, or for a method
  that is not allowed, the only effect of a success is one error response on the topic.\<close>

theorem requests_are_authorised:
  assumes "handle_request env topic key payload s = (r, s')"
  shows "wc_sessions s' = wc_sessions s \<and> wc_handlers s' = wc_handlers s \<and> wc_pairings s' = wc_pairings s
    \<and> (wc_rpc_calls s' \<noteq> wc_rpc_calls s \<longrightarrow> (\<exists>x h i m.
          hm_get (wc_sessions s) topic = Some x \<and> wce_now env \<le> se_expiry x \<and> m \<in> set (se_allowed_methods x)
          \<and> hm_get (wc_handlers s) topic = Some h
          \<and> as_str (json_get ''method'' (json_get ''request'' (json_get ''params'' payload))) = Some m
          \<and> as_u64 (json_get ''id'' payload) = Some i
          \<and> wc_rpc_calls s' = wc_rpc_calls s @ [(h, rpc_request i m
              (json_get ''params'' (json_get ''request'' (json_get ''params'' payload))))]))
    \<and> (\<forall>x i m. hm_get (wc_sessions s) topic = Some x \<longrightarrow> as_u64 (json_get ''id'' payload) = Some i
          \<longrightarrow> as_str (json_get ''method'' (json_get ''request'' (json_get ''params'' payload))) = Some m
          \<longrightarrow> se_expiry x < wce_now env \<or> m \<notin> set (se_allowed_methods x) \<longrightarrow> r = Inr ()
          \<longrightarrow> (\<exists>p msg code. wc_published s' = wc_published s @ [p] \<and> pub_topic p = topic
                \<and> pub_payload p = error_response i code msg))"
proof -
  define inner where "inner = json_get ''request'' (json_get ''params'' payload)"
  show ?thesis
  proof (cases "as_u64 (json_get ''id'' payload) = None \<or> as_str (json_get ''method'' inner) = None
      \<or> hm_get (wc_sessions s) topic = None")
    case True
    with assms show ?thesis
      by (auto simp: handle_request_def inner_def Let_def split: option.splits)
  next
    case False
    then obtain i m x where im: "as_u64 (json_get ''id'' payload) = Some i" "as_str (json_get ''method'' inner) = Some m"
      and x: "hm_get (wc_sessions s) topic = Some x" by auto
    consider "se_expiry x < wce_now env" | "\<not> se_expiry x < wce_now env" "m \<notin> set (se_allowed_methods x)"
      | "\<not> se_expiry x < wce_now env" "m \<in> set (se_allowed_methods x)" by blast
    then show ?thesis
    proof cases
      case 1
      with assms im x have "publish_raw env topic key (error_response i 5000 ''Session expired'') 1109 300 False s = (r, s')"
        by (simp add: handle_request_def inner_def publish_def)
      then show ?thesis by (rule publish_raw_cases) (use im x in \<open>auto simp: inner_def\<close>)
    next
      case 2
      with assms im x have "publish_raw env topic key (error_response i 5001 (''Unauthorized method: '' @ m)) 1109 300 False s = (r, s')"
        by (simp add: handle_request_def inner_def publish_def)
      then show ?thesis by (rule publish_raw_cases) (use im x in \<open>auto simp: inner_def\<close>)
    next
      case 3
      then have "wce_now env \<le> se_expiry x" by simp
      with 3 assms im x show ?thesis
        by (auto simp: handle_request_def inner_def Let_def split: if_splits option.splits elim: publish_raw_cases)
    qed
  qed
qed

definition toy_wc_env :: wc_env where
  "toy_wc_env = \<lparr>
    wce_client = True, wce_relay = (\<lambda>_. None), wce_subscribe = None, wce_unsubscribe = None,
    wce_aead = toy_aead, wce_iv = (\<lambda>_. replicate 12 0), wce_base64 = (\<lambda>_. None), wce_base64_url = (\<lambda>_. None),
    wce_to_bytes = (\<lambda>_. []), wce_from_bytes = (\<lambda>_. None),
    wce_public_key = [], wce_session_key = Inr, wce_sha256 = (\<lambda>k. take 1 k), wce_host = (\<lambda>u. Some u),
    wce_url = (\<lambda>_. None), wce_hex_encode = map (\<lambda>_. CHR ''s''), wce_hex_decode = (\<lambda>_. None), wce_hex32 = (\<lambda>_. None),
    wce_show_address = (\<lambda>a. show_hex (unat a)), wce_now = 100,
    wce_dialog = \<lparr>dl_open = True, dl_recv = (\<lambda>_. Some (DlgData (JObj [(''approved'', JBool True)]))), dl_send = (\<lambda>_. True)\<rparr>,
    wce_current_address = Some 5, wce_supported = [''eth_accounts''], wce_valid_request = (\<lambda>_. True),
    wce_rpc = (\<lambda>_ _. None)\<rparr>"

definition empty_wc :: wc_state where
  "empty_wc = \<lparr>wc_pairings = [(''t'', [])], wc_in_flight = [], wc_sessions = [], wc_handlers = [], wc_msg_id = 1,
     wc_subscribed = [], wc_published = [], wc_rpc_calls = [], wc_notified = 0\<rparr>"

definition toy_request :: "string \<Rightarrow> json" where
  "toy_request m = JObj [(''id'', JInt 7), (''params'', JObj [(''request'', JObj [(''method'', JStr m)])])]"

definition toy_session :: session where
  "toy_session = \<lparr>se_topic = ''s'', se_sym_key = [], se_peer = \<lparr>dm_name = [], dm_url = [], dm_icons = []\<rparr>,
     se_allowed_methods = [''eth_accounts''], se_chains = [], se_address = 5, se_expiry = 200\<rparr>"

theorem requests_are_authorised_witness:
  "\<exists>p msg code. wc_published (snd (handle_request toy_wc_env ''s'' [] (toy_request ''eth_sign'')
      (empty_wc\<lparr>wc_sessions := [(''s'', toy_session)]\<rparr>))) = [p] \<and> pub_payload p = error_response 7 code msg"
proof -
  let ?s = "empty_wc\<lparr>wc_sessions := [(''s'', toy_session)]\<rparr>"
  obtain r s' where r: "handle_request toy_wc_env ''s'' [] (toy_request ''eth_sign'') ?s = (r, s')" by fastforce
  moreover have "r = Inr ()"
    using r by (auto simp: handle_request_def toy_request_def toy_session_def toy_wc_env_def publish_def publish_raw_def
        encrypt_type0_def encrypt_chacha20poly1305_def toy_aead_def Let_def split: if_splits)
  ultimately show ?thesis
    using requests_are_authorised [OF r] by (auto simp: toy_request_def toy_session_def empty_wc_def)
qed

section \<open>Proposals\<close>

lemma publish_frame:
  "publish env topic key payload tag ttl prompt s = (r, s') \<Longrightarrow> same_but_published s s'"
  using publish_same [of s env topic key payload tag ttl prompt] by (simp add: publish_def)

lemma refuse_proposal:
  assumes "run_seq [publish env topic key payload tag ttl prompt, step (remove_pairing topic)] s = (r, s')"
  shows "wc_sessions s' = wc_sessions s" "wc_handlers s' = wc_handlers s"
    and "r = Inr () \<Longrightarrow> sym_key_for topic s' = None \<and> (\<exists>p. wc_published s' = wc_published s @ [p]
      \<and> pub_topic p = topic \<and> pub_payload p = payload)"
proof -
  obtain q s1 where p: "publish env topic key payload tag ttl prompt s = (q, s1)" by fastforce
  from publish_frame [OF p] have same: "same_but_published s s1" .
  show "wc_sessions s' = wc_sessions s" "wc_handlers s' = wc_handlers s"
    using assms p same by (auto simp: same_but_published_def remove_pairing_def split: sum.splits)
  assume "r = Inr ()"
  with assms p have "q = Inr ()" "s' = remove_pairing topic s1" by (auto split: sum.splits)
  with p [unfolded publish_def] show "sym_key_for topic s' = None \<and> (\<exists>p. wc_published s' = wc_published s @ [p]
      \<and> pub_topic p = topic \<and> pub_payload p = payload)"
    by (elim publish_raw_cases) (auto simp: sym_key_for_def remove_pairing_def)
qed

text \<open>What settling stores.\<close>

definition settled :: "wc_env \<Rightarrow> string \<Rightarrow> dapp_metadata \<Rightarrow> string list \<Rightarrow> string list \<Rightarrow> wc_state \<Rightarrow> wc_state \<Rightarrow> bool" where
  "settled env pairing_topic peer chs allowed s s' = (\<exists>x. wc_sessions s' = hm_insert (se_topic x) x (wc_sessions s)
    \<and> wc_handlers s' = hm_insert (se_topic x) (wce_host env (dm_url peer)) (wc_handlers s)
    \<and> se_topic x = wce_hex_encode env (wce_sha256 env (se_sym_key x)) \<and> se_peer x = peer \<and> se_allowed_methods x = allowed
    \<and> se_chains x = chs \<and> Some (se_address x) = wce_current_address env \<and> se_expiry x = wce_now env + 604800
    \<and> sym_key_for pairing_topic s' = None
    \<and> (\<exists>p q. wc_published s' = wc_published s @ [p, q] \<and> pub_topic p = pairing_topic \<and> pub_topic q = se_topic x
        \<and> json_get ''namespaces'' (json_get ''params'' (pub_payload q)) =
            eip155_namespaces (build_eip155_accounts (wce_show_address env) chs (se_address x)) allowed))"

lemma settle_tail:
  assumes "run_seq [publish env pt pkey resp 1101 300 False,
      (\<lambda>s. case next_msg_id s of (i, s') \<Rightarrow> publish env topic key (f i) 1102 300 True s'),
      step (insert_handler topic h), step (insert_session topic x), step wc_notify, step (remove_pairing pt)] s = (r, s')"
  shows "(\<exists>e. r = Inl e) \<and> wc_sessions s' = wc_sessions s \<and> wc_handlers s' = wc_handlers s
    \<or> r = Inr () \<and> wc_sessions s' = hm_insert topic x (wc_sessions s)
      \<and> wc_handlers s' = hm_insert topic h (wc_handlers s) \<and> sym_key_for pt s' = None
      \<and> (\<exists>p q i. wc_published s' = wc_published s @ [p, q] \<and> pub_topic p = pt \<and> pub_topic q = topic \<and> pub_payload q = f i)"
proof -
  obtain q1 s1 where p1: "publish env pt pkey resp 1101 300 False s = (q1, s1)" by fastforce
  obtain i s2 where n: "next_msg_id s1 = (i, s2)" by fastforce
  obtain q2 s3 where p2: "publish env topic key (f i) 1102 300 True s2 = (q2, s3)" by fastforce
  from publish_frame [OF p1] next_msg_id_same [of s1] publish_frame [OF p2] n
  have same: "same_but_published s s1" "same_but_published s s3" by (auto simp: same_but_published_def)
  show ?thesis
  proof (cases "q1 = Inr () \<and> q2 = Inr ()")
    case False
    with assms p1 n p2 same show ?thesis
      by (cases q1; cases q2) (auto simp: same_but_published_def)
  next
    case True
    from p1 True obtain a where a: "s1 = s\<lparr>wc_published := wc_published s @ [a]\<rparr>" "pub_topic a = pt"
      unfolding publish_def by (elim publish_raw_cases) auto
    from p2 True obtain b where b: "s3 = s2\<lparr>wc_published := wc_published s2 @ [b]\<rparr>" "pub_topic b = topic" "pub_payload b = f i"
      unfolding publish_def by (elim publish_raw_cases) auto
    have "s' = remove_pairing pt (wc_notify (insert_session topic x (insert_handler topic h s3)))" "r = Inr ()"
      using assms p1 n p2 True by auto
    with a b n show ?thesis
      by (auto simp: remove_pairing_def wc_notify_def insert_session_def insert_handler_def sym_key_for_def next_msg_id_def)
  qed
qed

lemma settle_session_cases:
  assumes "settle_session env t key i pub peer chs allowed s = (r, s')"
  shows "(\<exists>e. r = Inl e) \<and> wc_sessions s' = wc_sessions s \<and> wc_handlers s' = wc_handlers s
    \<or> r = Inr () \<and> settled env t peer chs allowed s s'"
proof -
  consider (early) e where "r = Inl e" "wc_sessions s' = wc_sessions s" "wc_handlers s' = wc_handlers s"
    | (late) skey address resp g where "wce_current_address env = Some address" and
      "run_seq [publish env t key resp 1101 300 False,
        (\<lambda>s. case next_msg_id s of (i, s') \<Rightarrow> publish env (wce_hex_encode env (wce_sha256 env skey)) skey
           (wc_call i ''wc_sessionSettle'' (settle_params (build_eip155_accounts (wce_show_address env) chs address) allowed g (wce_now env + 604800))) 1102 300 True s'),
        step (insert_handler (wce_hex_encode env (wce_sha256 env skey)) (wce_host env (dm_url peer))),
        step (insert_session (wce_hex_encode env (wce_sha256 env skey)) \<lparr>se_topic = wce_hex_encode env (wce_sha256 env skey), se_sym_key = skey,
          se_peer = peer, se_allowed_methods = allowed, se_chains = chs, se_address = address, se_expiry = wce_now env + 604800\<rparr>),
        step wc_notify, step (remove_pairing t)]
        (s\<lparr>wc_subscribed := wce_hex_encode env (wce_sha256 env skey) # wc_subscribed s\<rparr>) = (r, s')"
    using assms
    by (auto simp: settle_session_def Let_def simp del: run_seq.simps split: option.splits sum.splits if_splits)
  then show ?thesis
  proof cases
    case late
    from settle_tail [OF late(2)] show ?thesis
      using late(1) by (auto simp: settled_def settle_params_def wc_call_def
          intro!: exI [of _ "\<lparr>se_topic = wce_hex_encode env (wce_sha256 env skey), se_sym_key = skey,
          se_peer = peer, se_allowed_methods = allowed, se_chains = chs, se_address = address, se_expiry = wce_now env + 604800\<rparr>"])
  qed simp
qed

text \<open>C5. Handling a proposal settles a session only if the user approved it and every
  required method is supported: the session then allows exactly the filtered methods, expires in a
  week, exposes the current address on a non-empty list of accounts, has an RPC handler, and the
  pairing is gone. Whenever it succeeds without settling, it has told the dApp why, and the pairing
  is gone too; when it fails, no session was stored.\<close>

theorem proposals_settle_only_when_approved:
  assumes "handle_proposal env topic key payload s = (r, s')"
  defines "required \<equiv> json_get ''requiredNamespaces'' (json_get ''params'' payload)"
    and "optional \<equiv> json_get ''optionalNamespaces'' (json_get ''params'' payload)"
    and "metadata \<equiv> json_get ''metadata'' (json_get ''proposer'' (json_get ''params'' payload))"
  shows "(case r of
      Inl _ \<Rightarrow> wc_sessions s' = wc_sessions s \<and> wc_handlers s' = wc_handlers s
    | Inr _ \<Rightarrow>
        (\<exists>ms. open_dialog env = Inr True
          \<and> filter_methods (collect_strings required ''methods'') (collect_strings optional ''methods'') (wce_supported env) = Inr ms
          \<and> settled env topic (proposal_peer metadata) (proposal_chains required optional) ms s s')
        \<or> wc_sessions s' = wc_sessions s \<and> wc_handlers s' = wc_handlers s \<and> sym_key_for topic s' = None
          \<and> (\<exists>p i code msg. wc_published s' = wc_published s @ [p] \<and> pub_topic p = topic
              \<and> pub_payload p = error_response i code msg \<and> code \<in> {5000, 5003}))"
proof (cases "as_u64 (json_get ''id'' payload) = None
    \<or> as_str (json_get ''publicKey'' (json_get ''proposer'' (json_get ''params'' payload))) = None")
  case True
  with assms(1) show ?thesis by (auto simp: handle_proposal_def Let_def split: option.splits)
next
  case False
  then obtain i pub where ip: "as_u64 (json_get ''id'' payload) = Some i"
    "as_str (json_get ''publicKey'' (json_get ''proposer'' (json_get ''params'' payload))) = Some pub" by auto
  let ?methods = "filter_methods (collect_strings required ''methods'') (collect_strings optional ''methods'') (wce_supported env)"
  have told: ?thesis if "run_seq [publish env topic key (error_response i code msg) 1101 300 False, step (remove_pairing topic)] s = (r, s')"
    and "code \<in> {5000, 5003}" for code msg
  proof (cases r)
    case (Inl e)
    with refuse_proposal [OF that(1)] show ?thesis by simp
  next
    case (Inr u)
    with refuse_proposal [OF that(1)] obtain p where "sym_key_for topic s' = None"
      "wc_published s' = wc_published s @ [p]" "pub_topic p = topic" "pub_payload p = error_response i code msg" by auto
    with Inr refuse_proposal(1,2) [OF that(1)] that(2) show ?thesis
      unfolding Inr sum.case by (intro disjI2 conjI exI [of _ p] exI [of _ i] exI [of _ code] exI [of _ msg]) simp_all
  qed
  show ?thesis
  proof (cases ?methods)
    case (Inl bad)
    with assms(1) ip have "run_seq [publish env topic key (error_response i 5003
        (''Non conforming namespaces: unsupported required methods '' @ debug_strings bad)) 1101 300 False, step (remove_pairing topic)] s = (r, s')"
      by (simp add: handle_proposal_def required_def optional_def)
    then show ?thesis by (rule told) simp
  next
    case (Inr ms)
    consider e where "open_dialog env = Inl e" | "open_dialog env = Inr False" | "open_dialog env = Inr True"
    proof (cases "open_dialog env")
      case (Inr b)
      with that show ?thesis by (cases b) auto
    qed (use that in auto)
    then show ?thesis
    proof cases
      case 1
      with assms(1) ip Inr have "r = Inl e \<and> s' = s" by (simp add: handle_proposal_def required_def optional_def)
      then show ?thesis by simp
    next
      case 2
      with assms(1) ip Inr have "run_seq [publish env topic key (error_response i 5000 ''User rejected the session proposal'') 1101 300 False,
          step (remove_pairing topic)] s = (r, s')"
        by (simp add: handle_proposal_def required_def optional_def)
      then show ?thesis by (rule told) simp
    next
      case 3
      with assms(1) ip Inr have "settle_session env topic key i pub (proposal_peer metadata) (proposal_chains required optional) ms s = (r, s')"
        by (simp add: handle_proposal_def required_def optional_def metadata_def Let_def)
      from settle_session_cases [OF this] 3 Inr show ?thesis by (cases r) auto
    qed
  qed
qed

definition toy_proposal :: "string \<Rightarrow> json" where
  "toy_proposal m = JObj [(''id'', JInt 7), (''params'', JObj [(''proposer'', JObj [(''publicKey'', JStr [])]),
     (''requiredNamespaces'', JObj [(''eip155'', JObj [(''methods'', JArr [JStr m])])])])]"

theorem proposals_settle_only_when_approved_witness:
  "wc_sessions (snd (handle_proposal toy_wc_env ''t'' [] (toy_proposal ''eth_sign'') empty_wc)) = []"
proof -
  obtain r s' where r: "handle_proposal toy_wc_env ''t'' [] (toy_proposal ''eth_sign'') empty_wc = (r, s')" by fastforce
  have "filter_methods [''eth_sign''] [] (wce_supported toy_wc_env) = Inl [''eth_sign'']"
    by (simp add: filter_methods_def toy_wc_env_def)
  then have none: "wc_sessions empty_wc = []" "\<And>ms. filter_methods (collect_strings (json_get ''requiredNamespaces'' (json_get ''params'' (toy_proposal ''eth_sign''))) ''methods'')
      (collect_strings (json_get ''optionalNamespaces'' (json_get ''params'' (toy_proposal ''eth_sign''))) ''methods'') (wce_supported toy_wc_env) \<noteq> Inr ms"
    by (simp_all add: toy_proposal_def collect_strings_def empty_wc_def map_filter_simps)
  from proposals_settle_only_when_approved [OF r] none have "wc_sessions s' = []"
    by (cases r) auto
  with r show ?thesis by simp
qed

end
