(* ===== verification/Wc_Interleaving.thy ===== *)
theory Wc_Interleaving
  imports Walletconnect "HOL-Library.Multiset"
begin

text \<open>
  The tasks of WalletConnect interleaved (\<open>crates/walletconnect/src/session.rs\<close> and
  \<open>pairing.rs\<close>). The message loop and the backlog fetch of \<open>pair\<close> both call \<open>dispatch\<close>, and each
  proposal, request and deletion is a task of its own; what is atomic is one operation under one
  lock. A task is where it stands between two of them; a step takes one of the operations of
  \<open>Walletconnect\<close>. Session topics are hashes of fresh keys: a settling task takes one that was
  not used before.
\<close>

section \<open>Tasks and steps\<close>

text \<open>
  \<open>PReading t\<close>: \<open>dispatch\<close> has read the key of pairing \<open>t\<close> and not yet called
  \<open>start_proposal\<close>. \<open>PHandling t\<close>: in \<open>handle_proposal\<close>. \<open>PSettling t x\<close>: the handler of
  session topic \<open>x\<close> is inserted. \<open>PSettled t\<close>: so is the session. \<open>PFinishing t\<close>: before
  \<open>finish_proposal\<close>. \<open>PDelete x\<close>: a deletion was spawned; \<open>PDeleting x\<close>: the session is removed
  and its handler is not yet.
\<close>

datatype wc_pc =
    PReading string
  | PHandling string
  | PSettling string session
  | PSettled string
  | PFinishing string
  | PDelete string
  | PDeleting string

text \<open>
  The state, the tasks, and what happened: the topics paired, the session topics taken, and the
  pairing topic of each session stored.
\<close>

datatype wc_world = World wc_state "wc_pc multiset" "string list" "string list" "string list"

fun world_state :: "wc_world \<Rightarrow> wc_state" where "world_state (World s T ps us ss) = s"
fun world_tasks :: "wc_world \<Rightarrow> wc_pc multiset" where "world_tasks (World s T ps us ss) = T"
fun world_paired :: "wc_world \<Rightarrow> string list" where "world_paired (World s T ps us ss) = ps"
fun world_settled :: "wc_world \<Rightarrow> string list" where "world_settled (World s T ps us ss) = ss"

inductive wc_step :: "wc_world \<Rightarrow> wc_world \<Rightarrow> bool" where
  wc_pair: "wc_step (World s T ps us ss)
      (World (s\<lparr>wc_pairings := hm_insert t k (wc_pairings s)\<rparr>) T (t # ps) us ss)"
| wc_unpair: "wc_step (World s T ps us ss) (World (remove_pairing t s) T ps us ss)"
| wc_read: "sym_key_for t s \<noteq> None \<Longrightarrow>
    wc_step (World s T ps us ss) (World s (add_mset (PReading t) T) ps us ss)"
| wc_start: "start_proposal t s = (started, s') \<Longrightarrow>
    wc_step (World s (add_mset (PReading t) T) ps us ss)
      (World s' (if started then add_mset (PHandling t) T else T) ps us ss)"
| wc_refuse: "wc_step (World s (add_mset (PHandling t) T) ps us ss)
      (World (remove_pairing t s) (add_mset (PFinishing t) T) ps us ss)"
| wc_fail: "wc_step (World s (add_mset (PHandling t) T) ps us ss)
      (World s (add_mset (PFinishing t) T) ps us ss)"
| wc_die: "wc_step (World s (add_mset (PHandling t) T) ps us ss) (World s T ps us ss)"
| wc_settle: "se_topic x \<notin> set us \<Longrightarrow>
    wc_step (World s (add_mset (PHandling t) T) ps us ss)
      (World (insert_handler (se_topic x) h s) (add_mset (PSettling t x) T) ps (se_topic x # us) ss)"
| wc_store: "wc_step (World s (add_mset (PSettling t x) T) ps us ss)
      (World (insert_session (se_topic x) x s) (add_mset (PSettled t) T) ps us (t # ss))"
| wc_clean: "wc_step (World s (add_mset (PSettled t) T) ps us ss)
      (World (remove_pairing t s) (add_mset (PFinishing t) T) ps us ss)"
| wc_finish: "wc_step (World s (add_mset (PFinishing t) T) ps us ss) (World (finish_proposal t s) T ps us ss)"
| wc_delete: "hm_get (wc_sessions s) x \<noteq> None \<Longrightarrow>
    wc_step (World s T ps us ss) (World s (add_mset (PDelete x) T) ps us ss)"
| wc_remove: "wc_step (World s (add_mset (PDelete x) T) ps us ss)
      (World (remove_session x s) (add_mset (PDeleting x) T) ps us ss)"
| wc_remove_handler: "wc_step (World s (add_mset (PDeleting x) T) ps us ss) (World (remove_handler x s) T ps us ss)"
| wc_switch: "hm_get (wc_sessions s) x = Some y \<Longrightarrow>
    wc_step (World s T ps us ss) (World (insert_session x (y\<lparr>se_address := a\<rparr>) s) T ps us ss)"
| wc_other: "same_but_published s s' \<Longrightarrow> wc_step (World s T ps us ss) (World s' T ps us ss)"

inductive wc_reaches :: "wc_world \<Rightarrow> wc_world \<Rightarrow> bool" where
  wc_here: "wc_reaches w w"
| wc_more: "wc_reaches w w' \<Longrightarrow> wc_step w' w'' \<Longrightarrow> wc_reaches w w''"

definition wc_idle :: "wc_state \<Rightarrow> wc_world" where
  "wc_idle s = World s {#} [] [] []"

section \<open>One proposal at a time, and a handler for every session\<close>

fun proposal_of :: "wc_pc \<Rightarrow> string option" where
  "proposal_of (PHandling t) = Some t"
| "proposal_of (PSettling t x) = Some t"
| "proposal_of (PSettled t) = Some t"
| "proposal_of (PFinishing t) = Some t"
| "proposal_of _ = None"

fun settles :: "wc_pc \<Rightarrow> string option" where
  "settles (PSettling t x) = Some (se_topic x)"
| "settles _ = None"

definition proposals_on :: "string \<Rightarrow> wc_pc multiset \<Rightarrow> nat" where
  "proposals_on t T = size (filter_mset (\<lambda>p. proposal_of p = Some t) T)"

definition settlers :: "string \<Rightarrow> wc_pc multiset \<Rightarrow> nat" where
  "settlers x T = size (filter_mset (\<lambda>p. settles p = Some x) T)"

lemma proposals_on_add [simp]:
  "proposals_on t {#} = 0"
  "proposals_on t (add_mset p T) = (if proposal_of p = Some t then 1 else 0) + proposals_on t T"
  by (simp_all add: proposals_on_def)

lemma settlers_add [simp]:
  "settlers x {#} = 0"
  "settlers x (add_mset p T) = (if settles p = Some x then 1 else 0) + settlers x T"
  by (simp_all add: settlers_def)

definition one_proposal :: "wc_state \<Rightarrow> wc_pc multiset \<Rightarrow> string \<Rightarrow> bool" where
  "one_proposal s T t = (proposals_on t T \<le> 1 \<and> (proposals_on t T \<noteq> 0 \<longrightarrow> t \<in> set (wc_in_flight s)))"

text \<open>For one session topic: nothing knows it before it is taken; while it is being settled
  it has a handler, no session and no deletion; and a session has a handler.\<close>

definition topic_ok :: "wc_state \<Rightarrow> wc_pc multiset \<Rightarrow> string list \<Rightarrow> string \<Rightarrow> bool" where
  "topic_ok s T us x =
    ((x \<notin> set us \<longrightarrow> settlers x T = 0 \<and> hm_get (wc_sessions s) x = None \<and> PDelete x \<notin># T \<and> PDeleting x \<notin># T)
    \<and> (settlers x T \<noteq> 0 \<longrightarrow> settlers x T = 1 \<and> hm_get (wc_sessions s) x = None \<and> hm_get (wc_handlers s) x \<noteq> None
        \<and> PDelete x \<notin># T \<and> PDeleting x \<notin># T)
    \<and> (PDeleting x \<in># T \<longrightarrow> hm_get (wc_sessions s) x = None)
    \<and> (hm_get (wc_sessions s) x \<noteq> None \<longrightarrow> hm_get (wc_handlers s) x \<noteq> None))"

lemmas wc_ops = start_proposal_def finish_proposal_def sym_key_for_def remove_pairing_def insert_handler_def
  insert_session_def remove_session_def remove_handler_def same_but_published_def

fun world_ok :: "wc_world \<Rightarrow> bool" where
  "world_ok (World s T ps us ss) = (\<forall>x. one_proposal s T x \<and> topic_ok s T us x)"

lemma step_one_proposal:
  assumes "wc_step (World s T ps us ss) (World s' T' ps' us' ss')" "one_proposal s T t"
  shows "one_proposal s' T' t"
  using assms(1)
proof (cases rule: wc_step.cases)
  case (wc_start t' started)
  with assms(2) show ?thesis by (auto simp: one_proposal_def start_proposal_def split: if_splits)
next
  case (wc_finish t')
  with assms(2) show ?thesis by (simp add: one_proposal_def finish_proposal_def split: if_splits)
qed (use assms(2) in \<open>simp_all add: one_proposal_def remove_pairing_def insert_handler_def insert_session_def
  remove_session_def remove_handler_def same_but_published_def split: if_splits\<close>)

lemma step_topic_ok:
  assumes "wc_step (World s T ps us ss) (World s' T' ps' us' ss')" "topic_ok s T us x"
  shows "topic_ok s' T' us' x"
  using assms(1)
proof (cases rule: wc_step.cases)
  case (wc_start t started)
  with assms(2) show ?thesis by (auto simp: topic_ok_def start_proposal_def split: if_splits)
next
  case (wc_settle y t T0 h)
  with assms(2) show ?thesis by (cases "se_topic y = x") (auto simp: topic_ok_def insert_handler_def)
next
  case (wc_store t y T0)
  with assms(2) show ?thesis by (cases "se_topic y = x") (auto simp: topic_ok_def insert_session_def)
next
  case (wc_delete y)
  with assms(2) show ?thesis by (cases "y = x") (auto simp: topic_ok_def)
next
  case (wc_remove y T0)
  with assms(2) show ?thesis by (cases "y = x") (auto simp: topic_ok_def remove_session_def)
next
  case (wc_remove_handler y)
  with assms(2) show ?thesis by (cases "y = x") (auto simp: topic_ok_def remove_handler_def)
next
  case (wc_switch y z a)
  with assms(2) show ?thesis by (cases "y = x") (auto simp: topic_ok_def insert_session_def)
qed (use assms(2) in \<open>simp_all add: topic_ok_def wc_ops\<close>)

lemma step_world_ok: "wc_step w w' \<Longrightarrow> world_ok w \<Longrightarrow> world_ok w'"
  by (cases w; cases w') (auto dest: step_one_proposal step_topic_ok)

lemma reaches_world_ok: "wc_reaches w w' \<Longrightarrow> world_ok w \<Longrightarrow> world_ok w'"
  by (induction rule: wc_reaches.induct) (auto intro: step_world_ok)

lemma idle_world_ok: "wc_sessions s = [] \<Longrightarrow> world_ok (wc_idle s)"
  by (simp add: wc_idle_def one_proposal_def topic_ok_def)

text \<open>C33. However the tasks are interleaved, each pairing topic has at most one proposal being
  handled, settled or finished, and it is marked as in flight; every stored session has its RPC
  handler; and a session being settled cannot be deleted before it is stored.\<close>

theorem one_proposal_and_handlers:
  assumes "wc_sessions s = []" "wc_reaches (wc_idle s) (World s' T ps us ss)"
  shows "proposals_on t T \<le> 1 \<and> (proposals_on t T = 1 \<longrightarrow> t \<in> set (wc_in_flight s'))
    \<and> (hm_get (wc_sessions s') x \<noteq> None \<longrightarrow> hm_get (wc_handlers s') x \<noteq> None)
    \<and> (settlers x T \<noteq> 0 \<longrightarrow> PDelete x \<notin># T \<and> PDeleting x \<notin># T)"
  using reaches_world_ok [OF assms(2) idle_world_ok [OF assms(1)]]
  by (auto simp: one_proposal_def topic_ok_def)


section \<open>Sessions for a pairing\<close>

text \<open>
  \<open>dispatch\<close> reads the key of the pairing and marks the proposal as in flight in two steps. In
  the runs in which no pairing goes away between the two, each pairing gives at most one session.
\<close>

fun key_still_there :: "wc_world \<Rightarrow> bool" where
  "key_still_there (World s T ps us ss) = (\<forall>t. PReading t \<in># T \<longrightarrow> sym_key_for t s \<noteq> None)"

inductive wc_careful :: "wc_world \<Rightarrow> wc_world \<Rightarrow> bool" where
  careful_here: "wc_careful w w"
| careful_more: "wc_careful w w' \<Longrightarrow> wc_step w' w'' \<Longrightarrow> key_still_there w'' \<Longrightarrow> wc_careful w w''"

fun unsettled_of :: "wc_pc \<Rightarrow> string option" where
  "unsettled_of (PHandling t) = Some t"
| "unsettled_of (PSettling t x) = Some t"
| "unsettled_of _ = None"

definition unsettled_on :: "string \<Rightarrow> wc_pc multiset \<Rightarrow> nat" where
  "unsettled_on t T = size (filter_mset (\<lambda>p. unsettled_of p = Some t) T)"

lemma unsettled_on_add [simp]:
  "unsettled_on t {#} = 0"
  "unsettled_on t (add_mset p T) = (if unsettled_of p = Some t then 1 else 0) + unsettled_on t T"
  by (simp_all add: unsettled_on_def)

definition settled_on :: "string \<Rightarrow> wc_pc multiset \<Rightarrow> nat" where
  "settled_on t T = count T (PSettled t)"

lemma settled_on_add [simp]:
  "settled_on t {#} = 0"
  "settled_on t (add_mset p T) = (if p = PSettled t then 1 else 0) + settled_on t T"
  by (simp_all add: settled_on_def)

lemma unsettled_and_settled: "unsettled_on t T + settled_on t T \<le> proposals_on t T"
proof (induction T)
  case (add p T)
  then show ?case by (cases p) auto
qed simp

definition may_settle :: "wc_state \<Rightarrow> wc_pc multiset \<Rightarrow> string \<Rightarrow> nat" where
  "may_settle s T t =
    (if unsettled_on t T \<noteq> 0 \<or> sym_key_for t s \<noteq> None \<and> settled_on t T = 0 then 1 else 0)"

lemma step_settled:
  assumes "wc_step (World s T ps us ss) (World s' T' ps' us' ss')" "one_proposal s T t"
    and "PReading t \<in># T \<Longrightarrow> sym_key_for t s \<noteq> None"
    and "count_list ss t + may_settle s T t \<le> count_list ps t"
  shows "count_list ss' t + may_settle s' T' t \<le> count_list ps' t"
  using assms(1)
proof (cases rule: wc_step.cases)
  case (wc_pair t' k)
  with assms(4) show ?thesis by (auto simp: may_settle_def sym_key_for_def split: if_splits)
next
  case (wc_start t' started T0)
  with assms(2-4) unsettled_and_settled [of t T0] show ?thesis
    by (auto simp: may_settle_def sym_key_for_def start_proposal_def one_proposal_def split: if_splits)
next
  case (wc_store t' y T0)
  with assms(2,4) unsettled_and_settled [of t T0] show ?thesis
    by (auto simp: may_settle_def sym_key_for_def insert_session_def one_proposal_def split: if_splits)
next
  case (wc_clean t' T0)
  with assms(2,4) unsettled_and_settled [of t T0] show ?thesis
    by (auto simp: may_settle_def sym_key_for_def remove_pairing_def one_proposal_def split: if_splits)
qed (use assms(4) in \<open>auto simp: may_settle_def wc_ops split: if_splits\<close>)


lemma careful_settled:
  assumes "wc_careful w w'" "world_ok w" "key_still_there w"
    and "\<And>t. count_list (world_settled w) t + may_settle (world_state w) (world_tasks w) t \<le> count_list (world_paired w) t"
  shows "world_ok w' \<and> key_still_there w'
    \<and> count_list (world_settled w') t + may_settle (world_state w') (world_tasks w') t \<le> count_list (world_paired w') t"
  using assms
proof (induction rule: wc_careful.induct)
  case (careful_more w w' w'')
  obtain s T ps us ss s' T' ps' us' ss' where ws: "w' = World s T ps us ss" "w'' = World s' T' ps' us' ss'"
    by (cases w'; cases w'') auto
  with careful_more show ?case
    using step_world_ok [of w' w''] step_settled [of s T ps us ss s' T' ps' us' ss' t] by auto
qed auto

lemma careful_reaches: "wc_careful w w' \<Longrightarrow> wc_reaches w w'"
  by (induction rule: wc_careful.induct) (auto intro: wc_reaches.intros)

text \<open>In a run in which no pairing goes away between reading its key and starting its
  proposal, a pairing topic settles at most as many sessions as it was paired.\<close>

theorem settled_at_most_paired:
  assumes "wc_sessions s = []" "wc_pairings s = []" "wc_careful (wc_idle s) w"
  shows "count_list (world_settled w) t \<le> count_list (world_paired w) t"
proof -
  have "key_still_there (wc_idle s)" "\<And>t. may_settle s {#} t = 0"
    using assms(2) by (simp_all add: wc_idle_def may_settle_def sym_key_for_def)
  with careful_settled [OF assms(3) idle_world_ok [OF assms(1)], of t] show ?thesis
    by (simp add: wc_idle_def)
qed


lemma wc_reaches_trans [trans]: "wc_reaches w w' \<Longrightarrow> wc_reaches w' w'' \<Longrightarrow> wc_reaches w w''"
  by (rotate_tac, induction rule: wc_reaches.induct) (auto intro: wc_reaches.intros)

text \<open>A delivery that goes all the way, and the state it leaves.\<close>

definition marked :: "string \<Rightarrow> wc_state \<Rightarrow> wc_state" where
  "marked t s = s\<lparr>wc_in_flight := t # wc_in_flight s\<rparr>"

definition with_session :: "session \<Rightarrow> wc_state \<Rightarrow> wc_state" where
  "with_session x s = insert_session (se_topic x) x (insert_handler (se_topic x) None s)"

lemma settle_steps:
  assumes "t \<notin> set (wc_in_flight s)" "se_topic x \<notin> set us"
  shows "wc_step (World s (add_mset (PReading t) T) ps us ss) (World (marked t s) (add_mset (PHandling t) T) ps us ss)"
    and "wc_step (World (marked t s) (add_mset (PHandling t) T) ps us ss)
      (World (insert_handler (se_topic x) None (marked t s)) (add_mset (PSettling t x) T) ps (se_topic x # us) ss)"
    and "wc_step (World (insert_handler (se_topic x) None (marked t s)) (add_mset (PSettling t x) T) ps (se_topic x # us) ss)
      (World (with_session x (marked t s)) (add_mset (PSettled t) T) ps (se_topic x # us) (t # ss))"
proof -
  have "start_proposal t s = (True, marked t s)" using assms(1) by (simp add: start_proposal_def marked_def)
  from wc_start [OF this, of T ps us ss]
  show "wc_step (World s (add_mset (PReading t) T) ps us ss) (World (marked t s) (add_mset (PHandling t) T) ps us ss)" by simp
qed (use assms(2) in \<open>auto simp: with_session_def intro: wc_settle wc_store\<close>)

lemma settle_run:
  assumes "t \<notin> set (wc_in_flight s)" "se_topic x \<notin> set us"
  shows "wc_reaches (World s (add_mset (PReading t) T) ps us ss)
    (World (finish_proposal t (remove_pairing t (with_session x (marked t s)))) T ps (se_topic x # us) (t # ss))"
  by (rule wc_more [OF wc_more [OF wc_more [OF wc_more [OF wc_more [OF wc_here settle_steps(1) [OF assms]]
    settle_steps(2) [OF assms]] settle_steps(3) [OF assms]] wc_clean] wc_finish])

lemma paired_and_read:
  "wc_careful (wc_idle s) (World (s\<lparr>wc_pairings := hm_insert t k (wc_pairings s)\<rparr>) (replicate_mset n (PReading t)) [t] [] [])"
proof (induction n)
  case 0
  show ?case unfolding wc_idle_def
    by (rule careful_more [OF careful_here]) (auto intro: wc_pair)
next
  case (Suc n)
  let ?s = "s\<lparr>wc_pairings := hm_insert t k (wc_pairings s)\<rparr>"
  have "sym_key_for t ?s \<noteq> None" by (simp add: sym_key_for_def)
  from careful_more [OF Suc wc_read [OF this]] this show ?case by (auto split: if_splits)
qed

text \<open>Two deliveries of one proposal that both read the pairing's key before the first is
  handled settle two sessions for a topic that was paired once: the marker is cleared when the
  first is done, and the second does not look the key up again.\<close>

theorem late_delivery_settles_again:
  assumes "t \<notin> set (wc_in_flight s)" "se_topic x \<noteq> se_topic y"
  shows "\<exists>w. wc_reaches (wc_idle s) w \<and> world_paired w = [t] \<and> world_settled w = [t, t]
    \<and> hm_get (wc_sessions (world_state w)) (se_topic x) = Some x \<and> hm_get (wc_sessions (world_state w)) (se_topic y) = Some y"
proof -
  let ?s1 = "s\<lparr>wc_pairings := hm_insert t [] (wc_pairings s)\<rparr>"
  let ?s2 = "finish_proposal t (remove_pairing t (with_session x (marked t ?s1)))"
  let ?s3 = "finish_proposal t (remove_pairing t (with_session y (marked t ?s2)))"
  have "wc_reaches (wc_idle s) (World ?s1 {#PReading t, PReading t#} [t] [] [])"
    using careful_reaches [OF paired_and_read [of s t "[]" 2]] by (simp add: numeral_2_eq_2)
  also have "wc_reaches \<dots> (World ?s2 {#PReading t#} [t] [se_topic x] [t])"
    using assms(1) by (intro settle_run) simp_all
  also have "wc_reaches \<dots> (World ?s3 {#} [t] [se_topic y, se_topic x] [t, t])"
    using assms(2) by (intro settle_run) (simp_all add: finish_proposal_def)
  finally show ?thesis using assms(2)
    by (intro exI [of _ "World ?s3 {#} [t] [se_topic y, se_topic x] [t, t]"] conjI)
      (simp_all add: finish_proposal_def remove_pairing_def with_session_def marked_def insert_session_def insert_handler_def)
qed

definition no_pairing :: wc_state where
  "no_pairing = empty_wc\<lparr>wc_pairings := []\<rparr>"

theorem late_delivery_settles_again_witness:
  "\<exists>w. wc_reaches (wc_idle no_pairing) w \<and> length (world_settled w) = 2"
  using late_delivery_settles_again [of "''t''" no_pairing toy_session "toy_session\<lparr>se_topic := ''z''\<rparr>"]
  by (force simp: empty_wc_def no_pairing_def toy_session_def)

definition first_settled :: wc_world where
  "first_settled = World (with_session toy_session (marked ''t'' (empty_wc\<lparr>wc_pairings := [(''t'', [])]\<rparr>)))
      {#PSettled ''t''#} [''t''] [''s''] [''t'']"

lemma first_settled_reached: "wc_careful (wc_idle no_pairing) first_settled"
proof -
  have free: "''t'' \<notin> set (wc_in_flight (empty_wc\<lparr>wc_pairings := [(''t'', [])]\<rparr>))" "se_topic toy_session \<notin> set []"
    by (simp_all add: empty_wc_def)
  note steps = settle_steps [OF free, of "{#}" "[''t'']" "[]"]
  have "wc_careful (wc_idle no_pairing) (World (empty_wc\<lparr>wc_pairings := [(''t'', [])]\<rparr>) {#PReading ''t''#} [''t''] [] [])"
    using paired_and_read [of no_pairing "''t''" "[]" 1] by (simp add: no_pairing_def)
  from careful_more [OF careful_more [OF careful_more [OF this steps(1)] steps(2)] steps(3)]
  show ?thesis by (simp add: first_settled_def toy_session_def)
qed

theorem one_proposal_and_handlers_witness:
  "proposals_on ''t'' (world_tasks first_settled) = 1 \<and> ''t'' \<in> set (wc_in_flight (world_state first_settled))"
  using one_proposal_and_handlers [OF _ careful_reaches [OF first_settled_reached [unfolded first_settled_def]], of "''t''"]
  by (simp add: no_pairing_def empty_wc_def first_settled_def)

theorem settled_at_most_paired_witness:
  "world_settled first_settled = [''t''] \<and> count_list (world_settled first_settled) ''t'' \<le> count_list (world_paired first_settled) ''t''"
  using settled_at_most_paired [OF _ _ first_settled_reached, of "''t''"]
  by (simp add: no_pairing_def empty_wc_def first_settled_def)

end
