(* ===== verification/Connections.thy ===== *)
theory Connections
  imports Networks Json
begin

text \<open>
  Connections of web sites to the app (\<open>crates/connections\<close>): the store of network affinities by
  domain, the context of one connection, which reads and switches the chain it is on, and its
  permissions. A context works on a \<open>world\<close>: the shared store, the networks actor it asks, and
  what it broadcasts. The receivers of the broadcasts are here (for the store) and in \<open>Networks\<close>.
\<close>

section \<open>The store\<close>

record conn_store =
  cs_affinities :: "(string, affinity) hmap"
  cs_file :: "(string, affinity) hmap disk_file"

record world =
  w_store :: conn_store
  w_nets :: networks_actor
  w_sent :: "internal_msg list"

datatype conn_error = ConnIo | InvalidChainId u64 | ConnPanic string

definition store_get_affinity :: "conn_store \<Rightarrow> string \<Rightarrow> affinity" where
  "store_get_affinity st domain =
    (case hm_get (cs_affinities st) domain of None \<Rightarrow> affinity_default | Some a \<Rightarrow> a)"

definition store_save :: "io \<Rightarrow> (conn_store, conn_error, unit) handler" where
  "store_save i st =
    (case write_file i (cs_affinities st) (cs_file st) of
      (ok, f) \<Rightarrow> (if ok then Inr () else Inl ConnIo, st\<lparr>cs_file := f\<rparr>))"

definition store_set_affinity :: "io \<Rightarrow> string \<Rightarrow> affinity \<Rightarrow> (conn_store, conn_error, unit) handler" where
  "store_set_affinity i domain a =
    run_seq
      [step (\<lambda>st. st\<lparr>cs_affinities :=
         (case a of
           Unset \<Rightarrow> hm_remove domain (cs_affinities st)
         | _ \<Rightarrow> hm_insert domain a (cs_affinities st))\<rparr>),
       store_save i]"

definition on_chain_removed :: "network_id \<Rightarrow> conn_store \<Rightarrow> conn_store" where
  "on_chain_removed i st =
    st\<lparr>cs_affinities := hm_retain (\<lambda>_ a. a \<noteq> affinity_from i) (cs_affinities st)\<rparr>"

fun conn_receiver :: "internal_msg \<Rightarrow> conn_store \<Rightarrow> conn_store" where
  "conn_receiver (NetworkRemoved n) st = on_chain_removed (net_id n) st"
| "conn_receiver _ st = st"

text \<open>Starting: the migrated file, or an empty store.\<close>

definition conn_init :: "(string + (string, affinity) hmap) option \<Rightarrow> io \<Rightarrow> (string, affinity) hmap disk_file
    \<Rightarrow> conn_error + conn_store" where
  "conn_init loaded i disk =
    (case loaded of
      None \<Rightarrow> Inr \<lparr>cs_affinities = [], cs_file = disk\<rparr>
    | Some (Inl e) \<Rightarrow> Inl (ConnPanic ''failed to load connections'')
    | Some (Inr m) \<Rightarrow>
        (case store_save i \<lparr>cs_affinities = m, cs_file = disk\<rparr> of
          (Inl e, _) \<Rightarrow> Inl (ConnPanic ''failed to load connections'')
        | (Inr _, st) \<Rightarrow> Inr st))"

section \<open>Permissions\<close>

record caveat =
  cav_type :: string
  cav_value :: json

record permission =
  invoker :: string
  parent_capability :: string
  caveats :: "caveat list"

type_synonym permission_request = "(string, (string, json) hmap) hmap"

definition into_permissions :: "permission_request \<Rightarrow> string \<Rightarrow> permission list" where
  "into_permissions methods who =
    map (\<lambda>(m, cs). \<lparr>invoker = who, parent_capability = m,
      caveats = map (\<lambda>(c, v). \<lparr>cav_type = c, cav_value = v\<rparr>) cs\<rparr>) methods"

text \<open>What is returned names each requested method with the time of the request.\<close>

record requested_permission =
  rp_parent_capability :: string
  rp_date :: string

definition into_request_permissions_result :: "string \<Rightarrow> permission_request \<Rightarrow> requested_permission list" where
  "into_request_permissions_result now methods =
    map (\<lambda>m. \<lparr>rp_parent_capability = m, rp_date = now\<rparr>) (hm_keys methods)"

section \<open>The context of a connection\<close>

record ctx =
  cx_domain :: "string option"
  cx_permissions :: "permission list"

definition ctx_default :: ctx where
  "ctx_default = \<lparr>cx_domain = None, cx_permissions = []\<rparr>"

definition ctx_get_affinity :: "ctx \<Rightarrow> world \<Rightarrow> affinity" where
  "ctx_get_affinity c w =
    (case cx_domain c of Some d \<Rightarrow> store_get_affinity (w_store w) d | None \<Rightarrow> affinity_default)"

definition ctx_set_affinity :: "io \<Rightarrow> affinity \<Rightarrow> ctx \<Rightarrow> (world, conn_error, unit) handler" where
  "ctx_set_affinity i a c w =
    (case cx_domain c of
      None \<Rightarrow> (Inr (), w)
    | Some d \<Rightarrow> (case store_set_affinity i d a (w_store w) of (r, st) \<Rightarrow> (r, w\<lparr>w_store := st\<rparr>)))"

definition ctx_chain_id :: "ctx \<Rightarrow> world \<Rightarrow> conn_error + u64" where
  "ctx_chain_id c w =
    (case ctx_get_affinity c w of
      Sticky i \<Rightarrow> Inr (id_chain_id i)
    | _ \<Rightarrow>
        (case get_current_inner (w_nets w) of
          Inl e \<Rightarrow> Inl (ConnPanic ''networks actor not available'')
        | Inr n \<Rightarrow> Inr (chain_id n)))"

definition ctx_network :: "ctx \<Rightarrow> world \<Rightarrow> conn_error + network" where
  "ctx_network c w =
    (case ctx_chain_id c w of
      Inl e \<Rightarrow> Inl e
    | Inr i \<Rightarrow> ok_or (ConnPanic ''network not found for chain_id'') (nw_get (w_nets w) (KeyChainId i)))"

definition w_broadcast :: "internal_msg \<Rightarrow> world \<Rightarrow> world" where
  "w_broadcast m w = w\<lparr>w_sent := w_sent w @ [m]\<rparr>"

definition ctx_switch_chain :: "io \<Rightarrow> u64 \<Rightarrow> ctx \<Rightarrow> (world, conn_error, unit) handler" where
  "ctx_switch_chain i new c w =
    (case ctx_chain_id c w of
      Inl e \<Rightarrow> (Inl e, w)
    | Inr now \<Rightarrow>
        if now = new then (Inr (), w)
        else if \<not> validate_chain_id (w_nets w) new then (Inl (InvalidChainId new), w)
        else
          (let dedup = get_lowest_dedup_id (w_nets w) new in
            case ctx_get_affinity c w of
              Global \<Rightarrow>
                (Inr (), w_broadcast (ChainChanged (network_id_from (new, dedup)) None Global) w)
            | _ \<Rightarrow>
                (let internal_id = network_id_from (new, 0); a = affinity_from internal_id in
                  run_seq
                    [ctx_set_affinity i a c,
                     step (w_broadcast (ChainChanged internal_id (cx_domain c) a))] w)))"

definition ctx_invoker :: "ctx \<Rightarrow> string" where
  "ctx_invoker c = (case cx_domain c of None \<Rightarrow> [] | Some d \<Rightarrow> d)"

definition request_permissions :: "string \<Rightarrow> permission_request \<Rightarrow> ctx \<Rightarrow> requested_permission list \<times> ctx" where
  "request_permissions now r c =
    (into_request_permissions_result now r,
     c\<lparr>cx_permissions := cx_permissions c @ into_permissions r (ctx_invoker c)\<rparr>)"

definition revoke_permissions :: "string \<Rightarrow> permission_request \<Rightarrow> ctx \<Rightarrow> requested_permission list \<times> ctx" where
  "revoke_permissions now r c =
    (into_request_permissions_result now r,
     let to_revoke = into_permissions r (ctx_invoker c) in
     c\<lparr>cx_permissions := filter (\<lambda>p. p \<notin> set to_revoke) (cx_permissions c)\<rparr>)"

definition get_permissions :: "ctx \<Rightarrow> permission list" where
  "get_permissions c = cx_permissions c"

section \<open>Commands and matching\<close>

definition connections_affinity_for :: "string \<Rightarrow> world \<Rightarrow> affinity" where
  "connections_affinity_for d w = store_get_affinity (w_store w) d"

text \<open>Setting the affinity of a domain from the app's own interface.\<close>

definition connections_set_affinity :: "io \<Rightarrow> string \<Rightarrow> affinity \<Rightarrow> (world, conn_error, unit) handler" where
  "connections_set_affinity i domain a w =
    (case (case a of
        Sticky j \<Rightarrow> if validate_chain_id (w_nets w) (id_chain_id j) then Inr j else Inl (InvalidChainId (id_chain_id j))
      | _ \<Rightarrow> (case get_current_inner (w_nets w) of
            Inl e \<Rightarrow> Inl (ConnPanic ''networks actor'')
          | Inr n \<Rightarrow> Inr (net_id n))) of
      Inl e \<Rightarrow> (Inl e, w)
    | Inr j \<Rightarrow>
        run_seq
          [\<lambda>w. (case store_set_affinity i domain a (w_store w) of (r, st) \<Rightarrow> (r, w\<lparr>w_store := st\<rparr>)),
           step (w_broadcast (ChainChanged j (Some domain) a))] w)"

definition affinity_matches :: "conn_store \<Rightarrow> string option \<Rightarrow> string option \<Rightarrow> affinity \<Rightarrow> bool" where
  "affinity_matches st own other a =
    (case a of
      Sticky _ \<Rightarrow> own = other
    | _ \<Rightarrow>
        (case map_option (store_get_affinity st) own of
          None \<Rightarrow> True
        | Some b \<Rightarrow> is_unset b \<or> is_global b))"

section \<open>The effect of switching\<close>

lemma store_save_eq:
  "store_save i st =
    (if i = IoOk then (Inr (), st\<lparr>cs_file := Saved (cs_affinities st)\<rparr>)
     else (Inl ConnIo, st\<lparr>cs_file := snd (write_file i (cs_affinities st) (cs_file st))\<rparr>))"
  by (cases i) (simp_all add: store_save_def)

text \<open>The map after an assignment, looked up with the default.\<close>

definition assign_affinity :: "string \<Rightarrow> affinity \<Rightarrow> (string, affinity) hmap \<Rightarrow> (string, affinity) hmap" where
  "assign_affinity d a m = (case a of Unset \<Rightarrow> hm_remove d m | _ \<Rightarrow> hm_insert d a m)"

lemma store_set_affinity_eq:
  "store_set_affinity i d a st =
    (let st' = st\<lparr>cs_affinities := assign_affinity d a (cs_affinities st)\<rparr> in
     if i = IoOk then (Inr (), st'\<lparr>cs_file := Saved (cs_affinities st')\<rparr>)
     else (Inl ConnIo, st'\<lparr>cs_file := snd (write_file i (cs_affinities st') (cs_file st))\<rparr>))"
  by (simp add: store_set_affinity_def store_save_eq assign_affinity_def Let_def)

lemma get_assign_affinity:
  "(case hm_get (assign_affinity d a m) d' of None \<Rightarrow> affinity_default | Some b \<Rightarrow> b) =
   (if d' = d then a else case hm_get m d' of None \<Rightarrow> affinity_default | Some b \<Rightarrow> b)"
  by (cases a) (simp_all add: assign_affinity_def affinity_default_def)

lemma store_get_set_affinity:
  "store_get_affinity (snd (store_set_affinity i d a st)) d' = (if d' = d then a else store_get_affinity st d')"
  by (simp add: store_set_affinity_eq store_get_affinity_def Let_def get_assign_affinity)

lemma store_get_affinity_cong:
  "cs_affinities s = cs_affinities t \<Longrightarrow> store_get_affinity s d = store_get_affinity t d"
  by (simp add: store_get_affinity_def)

text \<open>The state of the store that every operation keeps: \<open>Unset\<close> is never stored.\<close>

definition affinities_ok :: "(string, affinity) hmap \<Rightarrow> bool" where
  "affinities_ok m = (hm_ok m \<and> list_all (\<lambda>a. a \<noteq> Unset) (hm_values m))"

datatype conn_msg = SetAffinity io string affinity | OnBus internal_msg

fun conn_handle :: "conn_msg \<Rightarrow> (conn_store, conn_error, unit) handler" where
  "conn_handle (SetAffinity i d a) st = store_set_affinity i d a st"
| "conn_handle (OnBus m) st = (Inr (), conn_receiver m st)"

lemma affinities_ok_assign:
  assumes "affinities_ok m"
  shows "affinities_ok (assign_affinity d a m)"
proof (cases "a = Unset")
  case True
  then show ?thesis
    using assms hm.entries_remove [of m d] by (force simp: affinities_ok_def assign_affinity_def list_all_iff)
next
  case False
  then have "assign_affinity d a m = hm_insert d a m" by (cases a) (simp_all add: assign_affinity_def)
  then show ?thesis
    using False assms hm.entries_insert [of m d a] by (force simp: affinities_ok_def list_all_iff)
qed

lemma affinities_ok_removed: "affinities_ok (cs_affinities st) \<Longrightarrow> affinities_ok (cs_affinities (on_chain_removed i st))"
  by (auto simp: affinities_ok_def on_chain_removed_def hm_ok_retain) (auto simp: hm_retain_def list_all_iff)

lemma conn_receiver_cases: "conn_receiver m st = st \<or> (\<exists>i. conn_receiver m st = on_chain_removed i st)"
  by (cases m) auto

interpretation cs: guarded_component conn_handle "\<lambda>_. True" "\<lambda>st. affinities_ok (cs_affinities st)"
proof
  fix st :: conn_store and m assume ok: "affinities_ok (cs_affinities st)"
  show "affinities_ok (cs_affinities (snd (conn_handle m st)))"
  proof (cases m)
    case (SetAffinity i d a)
    with ok affinities_ok_assign show ?thesis by (simp add: store_set_affinity_eq Let_def)
  next
    case (OnBus b)
    with ok affinities_ok_removed conn_receiver_cases [of b st] show ?thesis by auto
  qed
qed

definition set_handle :: "io \<times> string \<times> affinity \<Rightarrow> (conn_store, conn_error, unit) handler" where
  "set_handle m = (case m of (i, d, a) \<Rightarrow> store_set_affinity i d a)"

interpretation cs_set: saved_component set_handle "\<lambda>_. True" "\<lambda>st. affinities_ok (cs_affinities st)"
  cs_affinities cs_file affinities_ok
proof unfold_locales
  fix m :: "io \<times> string \<times> affinity" and s :: conn_store
  obtain i d a where m: "m = (i, d, a)" by (cases m)
  show "affinities_ok (cs_affinities (snd (set_handle m s)))" if "affinities_ok (cs_affinities s)"
    using affinities_ok_assign [OF that] by (simp add: m set_handle_def store_set_affinity_eq Let_def)
  show "cs_file (snd (set_handle m s)) = Saved (cs_affinities (snd (set_handle m s)))" if "fst (set_handle m s) = Inr x" for x
    using that by (auto simp: m set_handle_def store_set_affinity_eq Let_def split: if_splits)
  show "cs_file (snd (set_handle m s)) = cs_file s \<or> cs_file (snd (set_handle m s)) = Truncated"
    if "fst (set_handle m s) = Inl e" for e
    using that by (cases i) (simp_all add: m set_handle_def store_set_affinity_eq Let_def)
qed

text \<open>Assigning an affinity changes what is read for that domain and for no other,
  never leaves \<open>Unset\<close> in the store, and reports success exactly when the new map is on disk.\<close>

theorem affinity_set_get:
  assumes "affinities_ok (cs_affinities st)"
  shows "store_get_affinity (snd (store_set_affinity i d a st)) d' = (if d' = d then a else store_get_affinity st d')
    \<and> hm_get (cs_affinities (snd (store_set_affinity i d a st))) d' \<noteq> Some Unset
    \<and> (fst (store_set_affinity i d a st) = Inr () \<longleftrightarrow> i = IoOk)
    \<and> (i = IoOk \<longrightarrow> cs_file (snd (store_set_affinity i d a st)) = Saved (cs_affinities (snd (store_set_affinity i d a st))))"
proof -
  have "affinities_ok (cs_affinities (snd (store_set_affinity i d a st)))"
    using cs.inv_handle [OF assms, of "SetAffinity i d a"] by simp
  then have "hm_get (cs_affinities (snd (store_set_affinity i d a st))) d' \<noteq> Some Unset"
    by (force simp: affinities_ok_def list_all_iff dest: map_of_SomeD)
  then show ?thesis
    by (simp only: store_get_set_affinity) (simp add: store_set_affinity_eq Let_def)
qed

theorem affinity_set_get_witness:
  "store_get_affinity (snd (store_set_affinity IoOk ''a'' Global \<lparr>cs_affinities = [], cs_file = Absent\<rparr>)) ''a'' = Global"
  using affinity_set_get [of "\<lparr>cs_affinities = [], cs_file = Absent\<rparr>" IoOk "''a''" Global "''a''"]
  by (simp add: affinities_ok_def)

section \<open>Switching reaches the connections that are told\<close>

text \<open>The receiver of the networks actor takes what was broadcast, in order.\<close>

definition deliver :: "world \<Rightarrow> world" where
  "deliver w = w\<lparr>w_nets := run_msgs nw_handle
     (map (\<lambda>m. (\<lambda>_. Inr False, IoOk, m)) (List.map_filter nw_receiver (w_sent w))) (w_nets w)\<rparr>"

text \<open>A connection is told of a chain change when some broadcast matches its domain.\<close>

definition is_told :: "ctx \<Rightarrow> world \<Rightarrow> bool" where
  "is_told c w = list_ex (\<lambda>m. case m of
      ChainChanged _ other a \<Rightarrow> affinity_matches (w_store w) (cx_domain c) other a
    | _ \<Rightarrow> False) (w_sent w)"

lemma lowest_dedup_exists:
  assumes "validate_chain_id s c"
  shows "\<exists>n \<in> set (hm_values (nets s)). net_id n = network_id_from (c, get_lowest_dedup_id s c)"
proof -
  let ?ns = "filter (\<lambda>n. chain_id n = c) (hm_values (nets s))"
  from assms obtain e where "e \<in> set (nets s)" "chain_id (snd e) = c"
    unfolding validate_chain_id_def list_ex_iff by blast
  then have "snd e \<in> set ?ns" by simp
  then have "?ns \<noteq> []" by (metis empty_iff list.set(1))
  then obtain n0 ns where "?ns = n0 # ns" by (meson neq_Nil_conv)
  then obtain d ds where ds: "map dedup_id ?ns = d # ds" by (metis list.simps(9))
  have "get_lowest_dedup_id s c = Min (set (d # ds))"
    using ds by (simp only: get_lowest_dedup_id_def list.case Min.set_eq_fold)
  also have "\<dots> \<in> set (d # ds)" by (rule Min_in) auto
  finally have "get_lowest_dedup_id s c \<in> set (map dedup_id ?ns)" using ds by simp
  then obtain n where "n \<in> set ?ns" and low: "get_lowest_dedup_id s c = dedup_id n"
    unfolding set_map by blast
  then have n: "n \<in> set (hm_values (nets s))" "chain_id n = c" by (simp_all only: set_filter) blast+
  then show ?thesis
    by (intro bexI [of _ n]) (simp_all add: low chain_id_def dedup_id_def network_id_from_def)
qed

lemma set_current_by_id:
  assumes wf: "nw_wf s" and ex: "\<exists>n \<in> set (hm_values (nets s)). net_id n = j"
  shows "\<exists>n. get_current_inner (snd (nw_set_current IoOk (KeyId j) s)) = Inr n \<and> net_id n = j
    \<and> n \<in> set (hm_values (nets s)) \<and> nets (snd (nw_set_current IoOk (KeyId j) s)) = nets s"
proof -
  obtain n where find: "List.find (\<lambda>n. net_id n = j) (hm_values (nets s)) = Some n"
    using ex unfolding find_exists by blast
  then have n: "n \<in> set (hm_values (nets s))" "net_id n = j" by (auto dest: find_Some_set)
  then have "hm_get (nets s) (net_name n) = Some n"
    using keyed_value [of "nets s" n] wf by (simp add: nw_wf_def)
  then have new: "get_current_inner (set_current_name (net_name n) s) = Inr n"
    by (simp add: get_current_present)
  have "nets s \<noteq> []" using n(1) by auto
  then obtain p where p: "get_current_inner s = Inr p" unfolding get_current_nonempty by blast
  have resolve: "nw_resolve s (KeyId j) = Inr (net_name n)" by (simp add: nw_resolve_def find)
  define s1 where "s1 = (if net_name p \<noteq> net_name n then announce n (set_current_name (net_name n) s)
      else set_current_name (net_name n) s)"
  have eq: "nw_set_current IoOk (KeyId j) s = save_then IoOk [] s1"
    by (simp add: nw_set_current_eq resolve p new s1_def)
  have "nw_inner (snd (save_then IoOk [] s1)) = nw_inner (set_current_name (net_name n) s)"
    by (simp add: s1_def)
  from get_current_inner_cong [OF this] new this n show ?thesis
    by (intro exI [of _ n]) (simp add: eq)
qed

lemma current_chain_nonempty:
  assumes "validate_chain_id s c"
  obtains n where "get_current_inner s = Inr n"
proof -
  from assms have "nets s \<noteq> []" by (auto simp: validate_chain_id_def)
  then show thesis using that unfolding get_current_nonempty by blast
qed

lemma chain_id_of_affinity:
  "ctx_get_affinity c w' = ctx_get_affinity c w \<Longrightarrow> w_nets w' = w_nets w \<Longrightarrow> ctx_chain_id c w' = ctx_chain_id c w"
  by (simp add: ctx_chain_id_def split: affinity.split)

lemma switch_sticky:
  assumes "ctx_chain_id c w = Inr now" and "now \<noteq> new" and "validate_chain_id (w_nets w) new"
    and "ctx_get_affinity c w \<noteq> Global"
  shows "ctx_switch_chain i new c w =
    (case ctx_set_affinity i (Sticky (network_id_from (new, 0))) c w of
      (Inl e, w') \<Rightarrow> (Inl e, w')
    | (Inr _, w') \<Rightarrow> (Inr (), w_broadcast (ChainChanged (network_id_from (new, 0)) (cx_domain c) (Sticky (network_id_from (new, 0)))) w'))"
  using assms by (auto simp: ctx_switch_chain_def Let_def affinity_from_def split: affinity.split sum.split prod.split)

lemma switch_global:
  assumes "ctx_chain_id c w = Inr now" and "now \<noteq> new" and "validate_chain_id (w_nets w) new"
    and "ctx_get_affinity c w = Global"
  shows "ctx_switch_chain i new c w = (Inr (), w_broadcast (ChainChanged
      (network_id_from (new, get_lowest_dedup_id (w_nets w) new)) None Global) w)"
  using assms by (simp add: ctx_switch_chain_def Let_def)

lemma ctx_get_affinity_domain [simp]:
  "cx_domain c = Some d \<Longrightarrow> ctx_get_affinity c w = store_get_affinity (w_store w) d"
  "cx_domain c = None \<Longrightarrow> ctx_get_affinity c w = Unset"
  by (simp_all add: ctx_get_affinity_def affinity_default_def)

lemma deliver_store [simp]: "w_store (deliver w) = w_store w"
  by (simp add: deliver_def)

lemma ctx_get_affinity_deliver [simp]: "ctx_get_affinity c (deliver w) = ctx_get_affinity c w"
  by (simp add: ctx_get_affinity_def split: option.split)

text \<open>
  What a switch comes to for any connection: nothing sent and nothing changed when the chain is
  already current, else one of the two ways of switching. Each lemma says who is told, and where
  every connection is afterwards.
\<close>

lemma switch_same:
  assumes "ctx_chain_id c w = Inr new" and "w_sent w = []" and "ctx_switch_chain i new c w = (r, w')"
  shows "r = Inr ()" "deliver w' = w" "\<not> is_told c' w'"
proof -
  from assms show "r = Inr ()" by (simp add: ctx_switch_chain_def)
  from assms have w': "w' = w" by (simp add: ctx_switch_chain_def)
  from assms(2) show "deliver w' = w" unfolding w' by (cases w) (simp add: deliver_def map_filter_simps)
  from assms(2) show "\<not> is_told c' w'" unfolding w' by (simp add: is_told_def)
qed

lemma switched_global:
  fixes w :: world
  defines "m \<equiv> \<lambda>new. ChainChanged (network_id_from (new, get_lowest_dedup_id (w_nets w) new)) None Global"
  assumes "nw_wf (w_nets w)" and "validate_chain_id (w_nets w) new"
  shows "ctx_chain_id c' (deliver (w\<lparr>w_sent := [m new]\<rparr>)) =
      (if is_told c' (w\<lparr>w_sent := [m new]\<rparr>) then Inr new else ctx_chain_id c' w)"
    and "is_told c' (w\<lparr>w_sent := [m new]\<rparr>) \<longleftrightarrow> (\<forall>i. ctx_get_affinity c' w \<noteq> Sticky i)"
proof -
  let ?j = "network_id_from (new, get_lowest_dedup_id (w_nets w) new)"
  let ?w = "w\<lparr>w_sent := [m new]\<rparr>"
  have nets: "w_nets (deliver ?w) = snd (nw_set_current IoOk (KeyId ?j) (w_nets w))"
    by (simp add: deliver_def m_def map_filter_simps is_global_def)
  obtain n where n: "get_current_inner (w_nets (deliver ?w)) = Inr n" "net_id n = ?j"
    using set_current_by_id [OF assms(2) lowest_dedup_exists [OF assms(3)]] nets by auto
  have chain: "chain_id n = new" using n(2) by (simp add: chain_id_def network_id_from_def)
  have aff: "ctx_get_affinity c' (deliver ?w) = ctx_get_affinity c' w"
    by (simp add: ctx_get_affinity_def split: option.split)
  show told: "is_told c' ?w \<longleftrightarrow> (\<forall>i. ctx_get_affinity c' w \<noteq> Sticky i)"
    by (cases "cx_domain c'"; cases "ctx_get_affinity c' w")
       (simp_all add: is_told_def m_def affinity_matches_def is_unset_def is_global_def)
  show "ctx_chain_id c' (deliver ?w) = (if is_told c' ?w then Inr new else ctx_chain_id c' w)"
    using aff n(1) chain told by (cases "ctx_get_affinity c' w") (simp_all add: ctx_chain_id_def)
qed

lemma switched_sticky:
  fixes w w' :: world
  assumes "w' = w\<lparr>w_store := snd (store_set_affinity i d (Sticky (network_id_from (new, 0))) (w_store w)),
      w_sent := [ChainChanged (network_id_from (new, 0)) (Some d) (Sticky (network_id_from (new, 0)))]\<rparr>"
  shows "ctx_chain_id c' (deliver w') = (if is_told c' w' then Inr new else ctx_chain_id c' w)"
    and "is_told c' w' \<longleftrightarrow> cx_domain c' = Some d"
proof -
  have nets: "w_nets (deliver w') = w_nets w"
    by (simp add: deliver_def assms map_filter_simps is_global_def is_unset_def)
  show told: "is_told c' w' \<longleftrightarrow> cx_domain c' = Some d"
    by (auto simp: is_told_def assms affinity_matches_def)
  show "ctx_chain_id c' (deliver w') = (if is_told c' w' then Inr new else ctx_chain_id c' w)"
  proof (cases "cx_domain c' = Some d")
    case True
    then show ?thesis
      using told by (simp add: ctx_chain_id_def assms store_get_set_affinity network_id_from_def)
  next
    case False
    then have "ctx_get_affinity c' (deliver w') = ctx_get_affinity c' w"
      by (cases "cx_domain c'") (simp_all add: assms store_get_set_affinity)
    from chain_id_of_affinity [OF this nets] told False show ?thesis by simp
  qed
qed

text \<open>
  After a connection with a domain switches to a known chain and the networks actor has handled
  what was broadcast, the connection is on that chain; every other connection that was told of a
  change is on it too, and every connection that was not told is where it was.
\<close>

lemma switch_chain_takes_effect:
  assumes "nw_wf (w_nets w)" and "validate_chain_id (w_nets w) new" and "cx_domain c = Some d"
    and "w_sent w = []" and "ctx_switch_chain IoOk new c w = (r, w')"
  shows "r = Inr () \<and> ctx_chain_id c (deliver w') = Inr new
    \<and> (\<forall>c'. ctx_chain_id c' (deliver w') = (if is_told c' w' then Inr new else ctx_chain_id c' w))"
proof -
  obtain cur where cur: "get_current_inner (w_nets w) = Inr cur"
    using current_chain_nonempty [OF assms(2)] by blast
  obtain now where now: "ctx_chain_id c w = Inr now"
    using cur by (cases "ctx_get_affinity c w") (simp_all add: ctx_chain_id_def)
  consider "now = new" | "now \<noteq> new" "ctx_get_affinity c w = Global" | "now \<noteq> new" "ctx_get_affinity c w \<noteq> Global"
    by blast
  then show ?thesis
  proof cases
    case 1
    then show ?thesis using switch_same [OF _ assms(4,5)] now by simp
  next
    case 2
    from assms(4,5) switch_global [OF now 2(1) assms(2) 2(2), of IoOk]
    have "r = Inr ()" and w': "w' = w\<lparr>w_sent := [ChainChanged
        (network_id_from (new, get_lowest_dedup_id (w_nets w) new)) None Global]\<rparr>"
      by (simp_all add: w_broadcast_def)
    with switched_global [OF assms(1,2)] 2(2) show ?thesis by simp
  next
    case 3
    from assms(3,4,5) switch_sticky [OF now 3(1) assms(2) 3(2), of IoOk]
    have "r = Inr ()"
      and w': "w' = w\<lparr>w_store := snd (store_set_affinity IoOk d (Sticky (network_id_from (new, 0))) (w_store w)),
        w_sent := [ChainChanged (network_id_from (new, 0)) (Some d) (Sticky (network_id_from (new, 0)))]\<rparr>"
      by (simp_all add: ctx_set_affinity_def store_set_affinity_eq Let_def w_broadcast_def)
    with switched_sticky [OF w'] assms(3) show ?thesis by simp
  qed
qed

text \<open>
  Whom a switch concerns, said by the affinities before it: nobody when the connection is on the chain already;
  every connection that is not fixed to a chain when the domain follows the current network; else those of
  the same domain.
\<close>

definition switch_concerns :: "ctx \<Rightarrow> u64 \<Rightarrow> world \<Rightarrow> ctx \<Rightarrow> bool" where
  "switch_concerns c new w c' = (ctx_chain_id c w \<noteq> Inr new \<and>
    (if ctx_get_affinity c w = Global then (\<forall>i. ctx_get_affinity c' w \<noteq> Sticky i) else cx_domain c' = cx_domain c))"

lemma switch_tells:
  assumes "nw_wf (w_nets w)" and "validate_chain_id (w_nets w) new" and "cx_domain c = Some d"
    and "w_sent w = []" and "ctx_switch_chain IoOk new c w = (r, w')"
  shows "is_told c' w' = switch_concerns c new w c'"
proof -
  obtain cur where cur: "get_current_inner (w_nets w) = Inr cur"
    using current_chain_nonempty [OF assms(2)] by blast
  obtain now where now: "ctx_chain_id c w = Inr now"
    using cur by (cases "ctx_get_affinity c w") (simp_all add: ctx_chain_id_def)
  consider "now = new" | "now \<noteq> new" "ctx_get_affinity c w = Global" | "now \<noteq> new" "ctx_get_affinity c w \<noteq> Global"
    by blast
  then show ?thesis
  proof cases
    case 1
    then show ?thesis using switch_same(3) [OF _ assms(4,5)] now by (simp add: switch_concerns_def)
  next
    case 2
    from assms(4,5) switch_global [OF now 2(1) assms(2) 2(2), of IoOk]
    have "w' = w\<lparr>w_sent := [ChainChanged
        (network_id_from (new, get_lowest_dedup_id (w_nets w) new)) None Global]\<rparr>"
      by (simp add: w_broadcast_def)
    with switched_global(2) [OF assms(1,2)] 2 now show ?thesis by (simp add: switch_concerns_def)
  next
    case 3
    from assms(3,4,5) switch_sticky [OF now 3(1) assms(2) 3(2), of IoOk]
    have w': "w' = w\<lparr>w_store := snd (store_set_affinity IoOk d (Sticky (network_id_from (new, 0))) (w_store w)),
        w_sent := [ChainChanged (network_id_from (new, 0)) (Some d) (Sticky (network_id_from (new, 0)))]\<rparr>"
      by (simp add: ctx_set_affinity_def store_set_affinity_eq Let_def w_broadcast_def)
    with switched_sticky(2) [OF w'] assms(3) 3 now show ?thesis by (simp add: switch_concerns_def)
  qed
qed

definition fresh_world :: world where
  "fresh_world = \<lparr>w_store = \<lparr>cs_affinities = [], cs_file = Absent\<rparr>,
     w_nets = \<lparr>nw_inner = nw_default, nw_file = Absent, nw_sent = [], nw_spawned = []\<rparr>, w_sent = []\<rparr>"

definition site :: "string \<Rightarrow> ctx" where
  "site d = \<lparr>cx_domain = Some d, cx_permissions = []\<rparr>"

lemma fresh_world_ok: "nw_wf (w_nets fresh_world)" "w_sent fresh_world = []"
  "validate_chain_id (w_nets fresh_world) 1"
  by (simp_all add: fresh_world_def nw_wf_def keyed_default)
     (simp add: validate_chain_id_def nw_default_def types_defs)

text \<open>A connection without a domain that asks for another known chain is told that the
  switch succeeded, and an event is broadcast, but it stays on the chain it was on.\<close>

theorem switch_without_domain:
  assumes "cx_domain c = None" and "ctx_chain_id c w = Inr now" and "now \<noteq> new"
    and "validate_chain_id (w_nets w) new" and "w_sent w = []"
  shows "\<exists>w'. ctx_switch_chain i new c w = (Inr (), w')
    \<and> w_sent w' = [ChainChanged (network_id_from (new, 0)) None (Sticky (network_id_from (new, 0)))]
    \<and> ctx_chain_id c (deliver w') = Inr now"
proof -
  have "ctx_get_affinity c w \<noteq> Global" using assms(1) by simp
  from switch_sticky [OF assms(2-4) this, of i]
  have r: "ctx_switch_chain i new c w = (Inr (), w\<lparr>w_sent := [ChainChanged (network_id_from (new, 0)) None (Sticky (network_id_from (new, 0)))]\<rparr>)"
    using assms(1,5) by (simp add: ctx_set_affinity_def w_broadcast_def)
  let ?w = "w\<lparr>w_sent := [ChainChanged (network_id_from (new, 0)) None (Sticky (network_id_from (new, 0)))]\<rparr>"
  have "w_nets (deliver ?w) = w_nets w"
    by (simp add: deliver_def map_filter_simps is_global_def is_unset_def)
  moreover have "ctx_get_affinity c (deliver ?w) = ctx_get_affinity c w"
    using assms(1) by simp
  ultimately have "ctx_chain_id c (deliver ?w) = Inr now"
    using chain_id_of_affinity [of c "deliver ?w" w] assms(2) by simp
  with r show ?thesis by (intro exI [of _ ?w]) simp
qed

theorem switch_without_domain_witness:
  "\<exists>w'. ctx_switch_chain IoOk 1 ctx_default fresh_world = (Inr (), w') \<and> ctx_chain_id ctx_default (deliver w') = Inr 31337"
proof -
  have "ctx_chain_id ctx_default fresh_world = Inr 31337"
    by (simp add: ctx_chain_id_def ctx_default_def fresh_world_def nw_default_def get_current_inner_def types_defs)
  then show ?thesis
    using switch_without_domain [of ctx_default fresh_world 31337 1 IoOk] fresh_world_ok
    by (auto simp: ctx_default_def)
qed

lemma switch_sends:
  assumes "ctx_chain_id c w = Inr now" and "validate_chain_id (w_nets w) new" and "w_sent w = []"
    and "ctx_switch_chain IoOk new c w = (r, w')"
  shows "w_nets w' = w_nets w \<and> (w_sent w' = [] \<or> (\<exists>i other a. w_sent w' = [ChainChanged i other a] \<and> id_chain_id i = new))"
proof (cases "now = new")
  case True
  with assms show ?thesis by (simp add: ctx_switch_chain_def)
next
  case False
  show ?thesis
  proof (cases "ctx_get_affinity c w = Global")
    case True
    with switch_global [OF assms(1) False assms(2)] assms(3,4) show ?thesis
      by (auto simp: w_broadcast_def network_id_from_def)
  next
    case other: False
    with switch_sticky [OF assms(1) False assms(2)] assms(3,4) show ?thesis
      by (cases "cx_domain c") (auto simp: ctx_set_affinity_def store_set_affinity_eq Let_def w_broadcast_def network_id_from_def)
  qed
qed

section \<open>Removed networks\<close>

text \<open>A restart reads the file back; a file cut short does not parse.\<close>

definition conn_restart :: "conn_store \<Rightarrow> conn_error + conn_store" where
  "conn_restart st =
    conn_init (case cs_file st of Absent \<Rightarrow> None | Truncated \<Rightarrow> Some (Inl ''EOF'') | Saved m \<Rightarrow> Some (Inr m))
      IoOk (cs_file st)"

lemma store_get_on_chain_removed:
  assumes "affinities_ok (cs_affinities st)"
  shows "store_get_affinity (on_chain_removed i st) d =
    (if store_get_affinity st d = Sticky i then Unset else store_get_affinity st d)"
proof -
  have "hm_ok (cs_affinities st)" using assms by (simp add: affinities_ok_def)
  then show ?thesis
    by (auto simp: store_get_affinity_def on_chain_removed_def hm_get_retain affinity_from_def affinity_default_def
        split: option.splits)
qed

text \<open>When a network is removed, exactly the domains that were bound to its
  identifier lose their affinity; but the file is not written, so a restart binds them again.\<close>

theorem removed_network_affinities:
  assumes "affinities_ok (cs_affinities st)" and "cs_file st = Saved (cs_affinities st)"
  shows "store_get_affinity (conn_receiver (NetworkRemoved n) st) d =
      (if store_get_affinity st d = Sticky (net_id n) then Unset else store_get_affinity st d)
    \<and> (\<exists>st'. conn_restart (conn_receiver (NetworkRemoved n) st) = Inr st'
        \<and> store_get_affinity st' d = store_get_affinity st d)"
proof
  show "store_get_affinity (conn_receiver (NetworkRemoved n) st) d =
      (if store_get_affinity st d = Sticky (net_id n) then Unset else store_get_affinity st d)"
    using store_get_on_chain_removed [OF assms(1)] by simp
  show "\<exists>st'. conn_restart (conn_receiver (NetworkRemoved n) st) = Inr st'
        \<and> store_get_affinity st' d = store_get_affinity st d"
    using assms(2)
    by (simp add: conn_restart_def on_chain_removed_def conn_init_def store_save_eq store_get_affinity_def)
qed

definition bound_store :: conn_store where
  "bound_store = \<lparr>cs_affinities = [(''a'', Sticky (net_id (anvil 0)))], cs_file = Saved [(''a'', Sticky (net_id (anvil 0)))]\<rparr>"

theorem removed_network_affinities_witness:
  "store_get_affinity (conn_receiver (NetworkRemoved (anvil 0)) bound_store) ''a'' = Unset
   \<and> (\<exists>st'. conn_restart (conn_receiver (NetworkRemoved (anvil 0)) bound_store) = Inr st'
        \<and> store_get_affinity st' ''a'' = Sticky (net_id (anvil 0)))"
  using removed_network_affinities [of bound_store "anvil 0" "''a''"]
  by (simp add: bound_store_def affinities_ok_def store_get_affinity_def)

lemma removed_chain_unknown:
  assumes "hm_get (nets s) name = Some n" and "nw_wf s"
    and "\<forall>m \<in> set (hm_values (nets s)). chain_id m = chain_id n \<longrightarrow> m = n"
  shows "nw_get (s\<lparr>nw_inner := (nw_inner s)\<lparr>sn_networks := hm_remove name (nets s)\<rparr>\<rparr>) (KeyChainId (chain_id n)) = None"
proof -
  have "chain_id m \<noteq> chain_id n" if "m \<in> set (hm_values (hm_remove name (nets s)))" for m
  proof
    assume same: "chain_id m = chain_id n"
    have ok: "hm_ok (nets s)" using assms(2) by (simp add: nw_wf_def keyed_def)
    from that obtain k where km: "(k, m) \<in> set (nets s)" "k \<noteq> name"
      using hm.entries_remove [OF ok, of name] by auto
    then have "m = n" using assms(3) same by force
    moreover have "net_name m = k" "net_name n = name"
      using km(1) assms(1,2) keyed_get [of "nets s" name n] by (auto simp: nw_wf_def keyed_def list_all_iff)
    ultimately show False using km(2) by simp
  qed
  then show ?thesis by (simp add: nw_get_def find_None_set del: set_map)
qed

lemma nw_remove_nets:
  "fst (nw_remove i name s) = Inr () \<Longrightarrow> nets (snd (nw_remove i name s)) = hm_remove name (nets s)"
  by (auto simp: nw_remove_eq Let_def split: option.splits list.splits sum.splits if_splits)

text \<open>A domain is bound to the first identifier of a chain even when the chain is
  known under another one: when the only network of that chain is then removed, the binding
  survives the clean-up, and asking for the network of the connection panics.\<close>

theorem stale_binding_panics:
  assumes "nw_wf (w_nets w)" and "affinities_ok (cs_affinities (w_store w))"
    and "cx_domain c = Some d" and "ctx_get_affinity c w = Sticky (network_id_from (chain_id n, 0))"
    and "hm_get (nets (w_nets w)) name = Some n" and "dedup_id n \<noteq> 0"
    and "\<forall>m \<in> set (hm_values (nets (w_nets w))). chain_id m = chain_id n \<longrightarrow> m = n"
    and "nw_remove i name (w_nets w) = (Inr (), s')"
  shows "ctx_network c (w\<lparr>w_nets := s', w_store := conn_receiver (NetworkRemoved n) (w_store w)\<rparr>)
    = Inl (ConnPanic ''network not found for chain_id'')"
proof -
  let ?w = "w\<lparr>w_nets := s', w_store := conn_receiver (NetworkRemoved n) (w_store w)\<rparr>"
  have other: "Sticky (network_id_from (chain_id n, 0)) \<noteq> Sticky (net_id n)"
    using assms(6) by (cases "net_id n") (simp add: network_id_from_def dedup_id_def)
  have "ctx_get_affinity c ?w = Sticky (network_id_from (chain_id n, 0))"
    using assms(3,4) store_get_on_chain_removed [OF assms(2), of "net_id n" d] other by simp
  then have "ctx_chain_id c ?w = Inr (chain_id n)" by (simp add: ctx_chain_id_def network_id_from_def)
  moreover have "nets s' = hm_remove name (nets (w_nets w))"
    using nw_remove_nets [of i name "w_nets w"] assms(8) by simp
  then have "nw_get s' (KeyChainId (chain_id n)) = None"
    using removed_chain_unknown [OF assms(5,1,7)] by (simp add: nw_get_def)
  ultimately show ?thesis by (simp add: ctx_network_def)
qed

definition second_world :: world where
  "second_world = \<lparr>w_store = \<lparr>cs_affinities = [(''a'', Sticky (network_id_from (1, 0)))], cs_file = Absent\<rparr>,
     w_nets = \<lparr>nw_inner = \<lparr>sn_networks = [(''Anvil'', anvil 0), (''Mainnet'', mainnet 1)], sn_current = ''Anvil''\<rparr>,
       nw_file = Absent, nw_sent = [], nw_spawned = []\<rparr>, w_sent = []\<rparr>"

theorem stale_binding_panics_witness:
  "ctx_network (site ''a'') (second_world\<lparr>w_nets := snd (nw_remove IoOk ''Mainnet'' (w_nets second_world)),
      w_store := conn_receiver (NetworkRemoved (mainnet 1)) (w_store second_world)\<rparr>)
    = Inl (ConnPanic ''network not found for chain_id'')"
proof (rule stale_binding_panics [where name = "''Mainnet''" and d = "''a''" and i = IoOk])
  show "nw_wf (w_nets second_world)" "affinities_ok (cs_affinities (w_store second_world))"
    by (simp_all add: second_world_def nw_wf_def keyed_def types_defs affinities_ok_def)
  show "hm_get (nets (w_nets second_world)) ''Mainnet'' = Some (mainnet 1)" "dedup_id (mainnet 1) \<noteq> 0"
    by (simp_all add: second_world_def types_defs)
  show "ctx_get_affinity (site ''a'') second_world = Sticky (network_id_from (chain_id (mainnet 1), 0))"
    "cx_domain (site ''a'') = Some ''a''"
    by (simp_all add: second_world_def site_def store_get_affinity_def types_defs)
  show "\<forall>m \<in> set (hm_values (nets (w_nets second_world))). chain_id m = chain_id (mainnet 1) \<longrightarrow> m = mainnet 1"
    by (simp add: second_world_def types_defs)
  show "nw_remove IoOk ''Mainnet'' (w_nets second_world) = (Inr (), snd (nw_remove IoOk ''Mainnet'' (w_nets second_world)))"
    by (simp add: prod_eq_iff nw_remove_eq second_world_def Let_def)
qed

section \<open>Permissions\<close>

text \<open>Revoking the request that granted them removes exactly those permissions; but
  the caveats of a permission are kept in the order a hash map gave them, so a revocation that
  names the same two caveats in the other order removes nothing.\<close>

theorem revoke_permissions_order:
  "get_permissions (snd (revoke_permissions now r (snd (request_permissions now r c)))) =
      filter (\<lambda>p. p \<notin> set (into_permissions r (ctx_invoker c))) (get_permissions c)
   \<and> (fst k1 \<noteq> fst k2 \<longrightarrow>
      get_permissions (snd (revoke_permissions now [(m, [k2, k1])] (snd (request_permissions now [(m, [k1, k2])] ctx_default))))
       = into_permissions [(m, [k1, k2])] [])"
  by (cases k1; cases k2)
     (auto simp: get_permissions_def revoke_permissions_def request_permissions_def Let_def ctx_invoker_def
      into_permissions_def ctx_default_def)

theorem revoke_permissions_order_witness:
  "get_permissions (snd (revoke_permissions ''t'' [(''eth_accounts'', [(''b'', JNull), (''a'', JNull)])]
      (snd (request_permissions ''t'' [(''eth_accounts'', [(''a'', JNull), (''b'', JNull)])] ctx_default))))
    = into_permissions [(''eth_accounts'', [(''a'', JNull), (''b'', JNull)])] []"
  using revoke_permissions_order [of "''t''" "[]" ctx_default "(''a'', JNull)" "(''b'', JNull)" "''eth_accounts''"] by simp

end
