(* ===== verification/Connections_Migrations.thy ===== *)
theory Connections_Migrations
  imports Connections
begin

text \<open>
  The connections file (\<open>crates/connections/src/migrations.rs\<close>): affinities used to be bound to
  a chain id of 32 bits and are now bound to the first identifier of that chain. The migrated
  value is saved before the app starts.
\<close>

datatype affinity_v0 = UnsetV0 | GlobalV0 | StickyV0 u32

datatype conn_versions =
    ConnV0 "(string, affinity_v0) hmap"
  | ConnV1 "(string, affinity_v0) hmap"
  | ConnV2 "(string, affinity) hmap"

fun affinity_v0_to_v1 :: "affinity_v0 \<Rightarrow> affinity" where
  "affinity_v0_to_v1 (StickyV0 c) = Sticky (network_id_from (ucast c, 0))"
| "affinity_v0_to_v1 UnsetV0 = Unset"
| "affinity_v0_to_v1 GlobalV0 = Global"

definition migrate_affinities_from_v1_to_v2 :: "(string, affinity_v0) hmap \<Rightarrow> (string, affinity) hmap" where
  "migrate_affinities_from_v1_to_v2 m = map (\<lambda>(d, a). (d, affinity_v0_to_v1 a)) m"

fun conn_version :: "conn_versions \<Rightarrow> nat" where
  "conn_version (ConnV0 _) = 0"
| "conn_version (ConnV1 _) = 1"
| "conn_version (ConnV2 _) = 2"

function (sequential) conn_run_migrations :: "conn_versions \<Rightarrow> (string, affinity) hmap" where
  "conn_run_migrations (ConnV0 m) = conn_run_migrations (ConnV1 m)"
| "conn_run_migrations (ConnV1 m) = migrate_affinities_from_v1_to_v2 m"
| "conn_run_migrations (ConnV2 m) = m"
  by pat_completeness auto

termination
  by (relation "measure (\<lambda>v. 2 - conn_version v)") simp_all

definition conn_load_and_migrate :: "(json \<Rightarrow> string + conn_versions) \<Rightarrow> string + json \<Rightarrow> string + (string, affinity) hmap" where
  "conn_load_and_migrate from_value contents =
    (case contents of
      Inl e \<Rightarrow> Inl e
    | Inr j \<Rightarrow>
        (case with_version j of
          None \<Rightarrow> Inl ''panic''
        | Some j' \<Rightarrow> map_sum id conn_run_migrations (from_value j')))"

lemma get_migrated: "hm_get (conn_run_migrations (ConnV0 m)) d = map_option affinity_v0_to_v1 (hm_get m d)"
  by (simp add: migrate_affinities_from_v1_to_v2_def map_of_map)

text \<open>A file of the first version is read, migrated and saved in one start: each
  domain that was bound to a chain is bound to the first network of that chain, and the
  contents on disk are the migrated ones.\<close>

theorem migrated_connections:
  assumes "from_value (JObj (hm_insert ''version'' (JInt 0) j)) = Inr (ConnV0 m)"
    and "json_get ''version'' (JObj j) = JNull"
  shows "\<exists>st. conn_init (Some (conn_load_and_migrate from_value (Inr (JObj j)))) IoOk disk = Inr st
    \<and> cs_file st = Saved (cs_affinities st)
    \<and> (\<forall>d c. hm_get m d = Some (StickyV0 c) \<longrightarrow> store_get_affinity st d = Sticky (network_id_from (ucast c, 0)))
    \<and> (\<forall>d. hm_get m d \<noteq> Some GlobalV0 \<longrightarrow> (\<forall>c. hm_get m d \<noteq> Some (StickyV0 c)) \<longrightarrow> store_get_affinity st d = Unset)"
proof -
  have load: "conn_load_and_migrate from_value (Inr (JObj j)) = Inr (conn_run_migrations (ConnV0 m))"
    using assms by (simp add: conn_load_and_migrate_def with_version_def json_is_null_def)
  have get: "store_get_affinity \<lparr>cs_affinities = conn_run_migrations (ConnV0 m), cs_file = f\<rparr> d =
      (case hm_get m d of None \<Rightarrow> Unset | Some a \<Rightarrow> affinity_v0_to_v1 a)" for d f
    by (simp add: store_get_affinity_def get_migrated affinity_default_def
        del: conn_run_migrations.simps split: option.split)
  have other: "(case hm_get m d of None \<Rightarrow> Unset | Some a \<Rightarrow> affinity_v0_to_v1 a) = Unset"
    if "hm_get m d \<noteq> Some GlobalV0" "\<forall>c. hm_get m d \<noteq> Some (StickyV0 c)" for d
  proof (cases "hm_get m d")
    case (Some a)
    with that show ?thesis by (cases a) simp_all
  qed simp
  show ?thesis
    by (intro exI [of _ "\<lparr>cs_affinities = conn_run_migrations (ConnV0 m), cs_file = Saved (conn_run_migrations (ConnV0 m))\<rparr>"])
       (simp add: load conn_init_def store_save_eq get other del: conn_run_migrations.simps)
qed

theorem migrated_connections_witness:
  "\<exists>st. conn_init (Some (conn_load_and_migrate
      (\<lambda>j. if json_get ''version'' j = JInt 0 then Inr (ConnV0 [(''localhost'', StickyV0 31337)]) else Inl ''no match'')
      (Inr (JObj [])))) IoOk Absent = Inr st
    \<and> store_get_affinity st ''localhost'' = Sticky (network_id_from (31337, 0))"
  using migrated_connections [of "\<lambda>j. if json_get ''version'' j = JInt 0
      then Inr (ConnV0 [(''localhost'', StickyV0 31337)]) else Inl ''no match''" "[]" "[(''localhost'', StickyV0 31337)]" Absent]
  by auto

end
