(* ===== verification/Dialog_Locks.thy ===== *)
theory Dialog_Locks
  imports Dialogs "HOL-Library.Multiset"
begin

text \<open>
  The two locks of the dialogs (\<open>crates/dialogs/src/handle.rs\<close>, \<open>commands.rs\<close> and \<open>utils.rs\<close>):
  which tasks take them in which order, and whether they always get them.
\<close>

section \<open>The two locks\<close>

text \<open>
  \<open>OPEN_DIALOGS\<close> is a mutex; each dialog has a read-write lock. Opening holds the dialog's lock for
  reading and then locks the map; a command of the window (\<open>dialog_get_payload\<close>, \<open>dialog_send\<close>, or
  \<open>dialog_close\<close>, which the application calls when the window is asked to close and when it is
  destroyed) locks the map and, still holding it, the dialog for reading; the task that dropping a
  dialog spawns locks the dialog for writing and, still holding it, the map. A task is the lock it
  waits for or the locks it holds; \<open>reg\<close> is the ids in the map. What holds a lock is read off the
  tasks.
\<close>

datatype dlg_task =
    OpenWaits u32
  | OpenHasMap u32
  | CmdWaits u32
  | CmdHasMap u32
  | CmdHasBoth u32
  | DropWaits u32
  | DropHasInner u32
  | DropHasBoth u32
  | DropCloses u32

type_synonym dlg_locks = "u32 set \<times> dlg_task multiset"

fun holds_map :: "dlg_task \<Rightarrow> bool" where
  "holds_map (OpenHasMap d) = True"
| "holds_map (CmdHasMap d) = True"
| "holds_map (CmdHasBoth d) = True"
| "holds_map (DropHasBoth d) = True"
| "holds_map _ = False"

fun reads_inner :: "dlg_task \<Rightarrow> u32 option" where
  "reads_inner (OpenWaits d) = Some d"
| "reads_inner (OpenHasMap d) = Some d"
| "reads_inner (CmdHasBoth d) = Some d"
| "reads_inner _ = None"

fun writes_inner :: "dlg_task \<Rightarrow> u32 option" where
  "writes_inner (DropHasInner d) = Some d"
| "writes_inner (DropHasBoth d) = Some d"
| "writes_inner (DropCloses d) = Some d"
| "writes_inner _ = None"

definition map_free :: "dlg_task multiset \<Rightarrow> bool" where
  "map_free T = (\<forall>p \<in># T. \<not> holds_map p)"

definition readable :: "u32 \<Rightarrow> dlg_task multiset \<Rightarrow> bool" where
  "readable d T = (\<forall>p \<in># T. writes_inner p \<noteq> Some d)"

definition writable :: "u32 \<Rightarrow> dlg_task multiset \<Rightarrow> bool" where
  "writable d T = (readable d T \<and> (\<forall>p \<in># T. reads_inner p \<noteq> Some d))"

text \<open>What the tasks there are do next.\<close>

inductive lock_step :: "dlg_locks \<Rightarrow> dlg_locks \<Rightarrow> bool" where
  open_locks: "map_free T \<Longrightarrow> lock_step (reg, add_mset (OpenWaits d) T) (reg, add_mset (OpenHasMap d) T)"
| open_done: "lock_step (reg, add_mset (OpenHasMap d) T) (insert d reg, T)"
| cmd_locks: "map_free T \<Longrightarrow> lock_step (reg, add_mset (CmdWaits d) T) (reg, if d \<in> reg then add_mset (CmdHasMap d) T else T)"
| cmd_reads: "readable d T \<Longrightarrow> lock_step (reg, add_mset (CmdHasMap d) T) (reg, add_mset (CmdHasBoth d) T)"
| cmd_done: "lock_step (reg, add_mset (CmdHasBoth d) T) (reg, T)"
| drop_writes: "writable d T \<Longrightarrow> lock_step (reg, add_mset (DropWaits d) T) (reg, add_mset (DropHasInner d) T)"
| drop_locks: "map_free T \<Longrightarrow> lock_step (reg, add_mset (DropHasInner d) T) (reg, add_mset (DropHasBoth d) T)"
| drop_removes: "lock_step (reg, add_mset (DropHasBoth d) T) (reg - {d}, add_mset (DropCloses d) T)"
| drop_done: "lock_step (reg, add_mset (DropCloses d) T) (reg, T)"

text \<open>And the tasks that come: openings, commands and drops.\<close>

inductive locks_run :: "dlg_locks \<Rightarrow> dlg_locks \<Rightarrow> bool" where
  run_here: "locks_run w w"
| run_step: "locks_run w w' \<Longrightarrow> lock_step w' w'' \<Longrightarrow> locks_run w w''"
| run_opening: "locks_run w (reg, T) \<Longrightarrow> readable d T \<Longrightarrow> locks_run w (reg, add_mset (OpenWaits d) T)"
| run_command: "locks_run w (reg, T) \<Longrightarrow> locks_run w (reg, add_mset (CmdWaits d) T)"
| run_drop: "locks_run w (reg, T) \<Longrightarrow> locks_run w (reg, add_mset (DropWaits d) T)"

text \<open>Two tasks wait for each other: a command and the drop of the same dialog.\<close>

definition stuck :: "u32 \<Rightarrow> dlg_task multiset \<Rightarrow> bool" where
  "stuck d T = (CmdHasMap d \<in># T \<and> DropHasInner d \<in># T)"

lemma stuck_step:
  assumes "lock_step (reg, T) (reg', T')" "stuck d T"
  shows "stuck d T'"
  using assms by (cases rule: lock_step.cases) (auto simp: stuck_def map_free_def readable_def split: if_splits)

lemma stuck_forever:
  assumes "locks_run w w'" "stuck d (snd w)"
  shows "stuck d (snd w')"
  using assms
proof (induction rule: locks_run.induct)
  case (run_step w w' w'')
  then show ?case by (cases w'; cases w'') (auto intro: stuck_step)
qed (simp_all add: stuck_def)

lemma stuck_no_opening:
  assumes "lock_step w w'" "stuck d (snd w)"
  shows "count (snd w') (OpenWaits e) = count (snd w) (OpenWaits e)"
  using assms by (cases rule: lock_step.cases) (auto simp: stuck_def map_free_def split: if_splits)

text \<open>Closing a dialog can hang every dialog: a command of its window that comes while the
  dialog is dropped can leave the two waiting for each other, the command with the map and the drop
  with the dialog. From then on, whatever else comes, the map is never free again and no dialog that
  waits to be opened gets any further.\<close>

theorem closing_can_deadlock:
  "\<exists>w. locks_run ({d}, {#}) w
    \<and> (\<forall>w'. locks_run w w' \<longrightarrow> \<not> map_free (snd w')
        \<and> (\<forall>w'' e. lock_step w' w'' \<longrightarrow> count (snd w'') (OpenWaits e) = count (snd w') (OpenWaits e)))"
proof -
  let ?w = "({d}, {#CmdHasMap d, DropHasInner d#})"
  have "locks_run ({d}, {#}) ({d}, {#DropWaits d#})"
    using run_drop [OF run_here [of "({d}, {#})"]] by simp
  then have "locks_run ({d}, {#}) ({d}, {#DropHasInner d#})"
    using drop_writes [of d "{#}" "{d}"] by (auto intro: run_step simp: writable_def readable_def)
  then have "locks_run ({d}, {#}) ({d}, {#CmdWaits d, DropHasInner d#})"
    by (rule run_command)
  moreover have "lock_step ({d}, {#CmdWaits d, DropHasInner d#}) ?w"
    using cmd_locks [of "{#DropHasInner d#}" "{d}" d] by (simp add: map_free_def)
  ultimately have "locks_run ({d}, {#}) ?w" by (rule run_step)
  moreover have "stuck d (snd ?w)" by (simp add: stuck_def)
  ultimately show ?thesis
    using stuck_forever stuck_no_opening by (intro exI [of _ ?w]) (fastforce simp: stuck_def map_free_def)
qed

theorem closing_can_deadlock_witness:
  "\<exists>w. locks_run ({7}, {#}) w \<and> \<not> map_free (snd w)"
  using closing_can_deadlock [of 7] run_here by blast

section \<open>It is the only way to hang\<close>

text \<open>How many steps a task has left at most.\<close>

fun steps_left :: "dlg_task \<Rightarrow> nat" where
  "steps_left (OpenWaits d) = 2"
| "steps_left (OpenHasMap d) = 1"
| "steps_left (CmdWaits d) = 3"
| "steps_left (CmdHasMap d) = 2"
| "steps_left (CmdHasBoth d) = 1"
| "steps_left (DropWaits d) = 4"
| "steps_left (DropHasInner d) = 3"
| "steps_left (DropHasBoth d) = 2"
| "steps_left (DropCloses d) = 1"

definition work :: "dlg_locks \<Rightarrow> nat" where
  "work w = sum_mset (image_mset steps_left (snd w))"

lemma lock_step_work: "lock_step w w' \<Longrightarrow> work w' < work w"
  by (induction rule: lock_step.induct) (auto simp: work_def)

lemma progress:
  assumes "T \<noteq> {#}" "\<And>d. \<not> stuck d T"
  shows "\<exists>w. lock_step (reg, T) w"
proof (cases "map_free T")
  case False
  then obtain p where p: "p \<in># T" "holds_map p" by (auto simp: map_free_def)
  then obtain T' where T: "T = add_mset p T'" by (metis multi_member_split)
  show ?thesis
  proof (cases p)
    case (CmdHasMap d)
    show ?thesis
    proof (cases "readable d T'")
      case True
      with T CmdHasMap show ?thesis by (auto intro: cmd_reads)
    next
      case False
      then obtain q where q: "q \<in># T'" "writes_inner q = Some d" by (auto simp: readable_def)
      have "q \<noteq> DropHasInner d" using assms(2) [of d] q T CmdHasMap by (auto simp: stuck_def)
      with q(2) have "q = DropHasBoth d \<or> q = DropCloses d" by (cases q) auto
      moreover obtain U where "T' = add_mset q U" using q(1) by (metis multi_member_split)
      then have "T = add_mset q (add_mset p U)" using T by (simp add: add_mset_commute)
      ultimately show ?thesis using drop_removes drop_done by blast
    qed
  next
    case (OpenHasMap d)
    with T show ?thesis using open_done by blast
  next
    case (CmdHasBoth d)
    with T show ?thesis using cmd_done by blast
  next
    case (DropHasBoth d)
    with T show ?thesis using drop_removes by blast
  qed (use p in simp_all)
next
  case True
  from assms(1) obtain p where "p \<in># T" by blast
  then obtain T' where T: "T = add_mset p T'" by (metis multi_member_split)
  from True T have free: "map_free T'" and np: "\<not> holds_map p" by (auto simp: map_free_def)
  show ?thesis
  proof (cases p)
    case (DropWaits d)
    show ?thesis
    proof (cases "writable d T'")
      case True
      with T DropWaits show ?thesis by (auto intro: drop_writes)
    next
      case False
      then obtain q where q: "q \<in># T'" "writes_inner q = Some d \<or> reads_inner q = Some d"
        by (auto simp: writable_def readable_def)
      then obtain U where U: "T' = add_mset q U" by (metis multi_member_split)
      from q(1) free have nq: "\<not> holds_map q" by (auto simp: map_free_def)
      from U free T have "map_free (add_mset p U)" using np by (auto simp: map_free_def)
      moreover from q(2) nq have "q = DropHasInner d \<or> q = DropCloses d \<or> q = OpenWaits d" by (cases q) auto
      moreover have "T = add_mset q (add_mset p U)" using T U by (simp add: add_mset_commute)
      ultimately show ?thesis using drop_locks drop_done open_locks by blast
    qed
  next
    case (OpenWaits d)
    with T free show ?thesis using open_locks by blast
  next
    case (CmdWaits d)
    with T free show ?thesis using cmd_locks by blast
  next
    case (DropHasInner d)
    with T free show ?thesis using drop_locks by blast
  next
    case (DropCloses d)
    with T show ?thesis using drop_done by blast
  qed (use np in simp_all)
qed

text \<open>C36. The tasks on the locks always come to a halt, and when they do, either all of them are
  done or a command and the drop of its dialog wait for each other: there is no other deadlock.\<close>

theorem locks_halt:
  "wfP (\<lambda>w' w. lock_step w w')
    \<and> {w. \<nexists>w'. lock_step w w'} \<subseteq> {(reg, T). T = {#} \<or> (\<exists>d. stuck d T)}"
proof
  have "{(w', w). lock_step w w'} \<subseteq> measure work"
    by (auto dest: lock_step_work)
  then have "wf {(w', w). lock_step w w'}" by (rule wf_subset [OF wf_measure])
  then show "wfP (\<lambda>w' w. lock_step w w')" by (simp add: wfp_def)
  show "{w. \<nexists>w'. lock_step w w'} \<subseteq> {(reg, T). T = {#} \<or> (\<exists>d. stuck d T)}"
    using progress by blast
qed

end
