(* ===== verification/Ws_Peers.thy ===== *)
theory Ws_Peers
  imports Connections
begin

text \<open>
  The websocket server (\<open>crates/ws\<close>): the peers connected (browser tabs), what is broadcast to
  them, and the loop that serves one connection. The socket, the URL parser, the JSON text codec
  and the RPC handler are fields of a \<open>ws_env\<close>.
\<close>

section \<open>Peers\<close>

text \<open>
  A peer's sender is the number of its channel. What went out on each channel is recorded in
  order; a channel whose receiver is gone takes nothing (the error is logged).
\<close>

record peer =
  pe_origin :: string
  pe_url :: "string option"
  pe_socket :: string
  pe_sender :: nat
  pe_alive :: bool

record peers =
  ps_map :: "(string, peer) hmap"
  ps_events :: "sent list"
  ps_out :: "(nat \<times> json) list"
  ps_gone :: "nat list"

definition peer_new :: "string \<Rightarrow> nat \<Rightarrow> (string, string) hmap \<Rightarrow> peer" where
  "peer_new socket sender params = \<lparr>
    pe_origin = (case hm_get params ''origin'' of None \<Rightarrow> ''unknown'' | Some x \<Rightarrow> x),
    pe_url = hm_get params ''url'', pe_socket = socket, pe_sender = sender, pe_alive = False\<rparr>"

text \<open>\<open>host\<close> parses a URL and gives its host, when both exist.\<close>

definition peer_domain :: "(string \<Rightarrow> string option) \<Rightarrow> peer \<Rightarrow> string option" where
  "peer_domain host p = Option.bind (pe_url p) host"

text \<open>The context of the handler built for a peer.\<close>

definition peer_ctx :: "(string \<Rightarrow> string option) \<Rightarrow> peer \<Rightarrow> ctx" where
  "peer_ctx host p = ctx_default\<lparr>cx_domain := peer_domain host p\<rparr>"

definition ps_event :: "sent \<Rightarrow> peers \<Rightarrow> peers" where
  "ps_event e P = P\<lparr>ps_events := ps_events P @ [e]\<rparr>"

definition add_peer :: "peer \<Rightarrow> peers \<Rightarrow> peers" where
  "add_peer p P = ps_event (Notify PeersUpdated) (ps_event (Bus PeerAdded)
    (P\<lparr>ps_map := hm_insert (pe_socket p) p (ps_map P)\<rparr>))"

definition remove_peer :: "string \<Rightarrow> peers \<Rightarrow> peers" where
  "remove_peer socket P = ps_event (Notify PeersUpdated) (P\<lparr>ps_map := hm_remove socket (ps_map P)\<rparr>)"

text \<open>\<open>None\<close> is a panic.\<close>

definition peer_alive :: "peer \<Rightarrow> peers \<Rightarrow> peers option" where
  "peer_alive p P =
    map_option (\<lambda>q. ps_event (Notify PeersUpdated) (P\<lparr>ps_map := hm_insert (pe_socket p) (q\<lparr>pe_alive := True\<rparr>) (ps_map P)\<rparr>))
      (hm_get (ps_map P) (pe_socket p))"

definition peer_send :: "json \<Rightarrow> peer \<Rightarrow> peers \<Rightarrow> peers" where
  "peer_send m p P =
    (if pe_sender p \<in> set (ps_gone P) then P else P\<lparr>ps_out := ps_out P @ [(pe_sender p, m)]\<rparr>)"







definition by_domain :: "(string \<Rightarrow> string option) \<Rightarrow> peers \<Rightarrow> (string, peer list) hmap" where
  "by_domain host P =
    fold (\<lambda>p acc. if \<not> pe_alive p then acc
          else (let d = (case peer_domain host p of None \<Rightarrow> [] | Some x \<Rightarrow> x) in
            hm_insert d ((case hm_get acc d of None \<Rightarrow> [] | Some ps \<Rightarrow> ps) @ [p]) acc))
      (hm_values (ps_map P)) []"

definition peer_count :: "peers \<Rightarrow> nat" where
  "peer_count P = length (ps_map P)"

section \<open>One connection\<close>

text \<open>Why a request does not parse.\<close>

datatype json_category = DataError | SyntaxError | EofError | IoError

definition json_rpc_error :: "int \<Rightarrow> string \<Rightarrow> json \<Rightarrow> json" where
  "json_rpc_error code message i =
    JObj [(''jsonrpc'', JStr ''2.0''), (''error'', JObj [(''code'', JInt code), (''message'', JStr message)]), (''id'', i)]"

definition json_rpc_parse_error :: "json_category \<Rightarrow> json \<Rightarrow> json" where
  "json_rpc_parse_error e i =
    (case (case e of DataError \<Rightarrow> (-32600, ''Invalid Request'') | _ \<Rightarrow> (-32700, ''Parse error'')) of
      (code, message) \<Rightarrow> json_rpc_error code message i)"

text \<open>
  Parsing gives a request or the category of the error; \<open>wv_handle\<close> is the RPC handler, which
  replies, has no reply (to a notification), or panics (\<open>None\<close>); \<open>wv_send k\<close> says whether the
  \<open>k\<close>-th message can be sent.
\<close>

record ws_env =
  wv_parse :: "string \<Rightarrow> json_category + json"
  wv_handle :: "json \<Rightarrow> json option option"
  wv_send :: "nat \<Rightarrow> bool"

datatype ws_out = OutJson json | OutPing

datatype ws_error = WsSocket | WsPanic

record ws_conn =
  cn_liveness :: "peer option"
  cn_sent :: "ws_out list"
  cn_peers :: peers

type_synonym ws_handler = "(ws_conn, ws_error, unit) handler"

definition ws_send :: "ws_env \<Rightarrow> ws_out \<Rightarrow> ws_handler" where
  "ws_send env m c =
    (if wv_send env (length (cn_sent c)) then (Inr (), c\<lparr>cn_sent := cn_sent c @ [m]\<rparr>) else (Inl WsSocket, c))"

definition mark_alive :: ws_handler where
  "mark_alive c =
    (case cn_liveness c of
      None \<Rightarrow> (Inr (), c)
    | Some p \<Rightarrow>
        (case peer_alive p (cn_peers c) of
          None \<Rightarrow> (Inl WsPanic, c\<lparr>cn_liveness := None\<rparr>)
        | Some P \<Rightarrow> (Inr (), c\<lparr>cn_liveness := None, cn_peers := P\<rparr>)))"

definition ws_reply :: "ws_env \<Rightarrow> string \<Rightarrow> json option" where
  "ws_reply env text =
    (case wv_parse env text of
      Inl e \<Rightarrow> Some (json_rpc_parse_error e JNull)
    | Inr request \<Rightarrow> map_option (\<lambda>r. case r of None \<Rightarrow> JNull | Some j \<Rightarrow> j) (wv_handle env request))"

definition handle_message :: "ws_env \<Rightarrow> string \<Rightarrow> ws_handler" where
  "handle_message env text =
    (if text = ''pong'' then step id
     else run_seq
       [mark_alive,
        case ws_reply env text of
          None \<Rightarrow> (\<lambda>c. (Inl WsPanic, c))
        | Some r \<Rightarrow> ws_send env (OutJson r)])"

text \<open>What the loop waits for. \<open>EvOut None\<close>: all senders of the peer's channel are gone.\<close>

datatype ws_event = EvText string | EvClose | EvOther | EvError | EvOut "json option" | EvTick

text \<open>The loop over the events that come; it ends with \<open>Some\<close> result, or is still running.\<close>

fun ws_loop :: "ws_env \<Rightarrow> ws_event list \<Rightarrow> ws_conn \<Rightarrow> (ws_error + unit) option \<times> ws_conn" where
  "ws_loop env [] c = (None, c)"
| "ws_loop env (EvText t # es) c =
    (case handle_message env t c of (Inl e, c') \<Rightarrow> (Some (Inl e), c') | (Inr _, c') \<Rightarrow> ws_loop env es c')"
| "ws_loop env (EvClose # es) c = (Some (Inr ()), c)"
| "ws_loop env (EvOther # es) c = ws_loop env es c"
| "ws_loop env (EvError # es) c = ws_loop env es c"
| "ws_loop env (EvOut None # es) c = (Some (Inr ()), c)"
| "ws_loop env (EvOut (Some m) # es) c =
    (case ws_send env (OutJson m) c of (Inl e, c') \<Rightarrow> (Some (Inl e), c') | (Inr _, c') \<Rightarrow> ws_loop env es c')"
| "ws_loop env (EvTick # es) c =
    (case ws_send env OutPing c of (Inl e, c') \<Rightarrow> (Some (Inl e), c') | (Inr _, c') \<Rightarrow> ws_loop env es c')"

text \<open>Accepting a connection: the peer is there while the loop runs. A panic ends the task.\<close>

definition ws_accept :: "ws_env \<Rightarrow> string \<Rightarrow> nat \<Rightarrow> (string, string) hmap \<Rightarrow> ws_event list \<Rightarrow> peers
    \<Rightarrow> (ws_error + unit) option \<times> ws_conn" where
  "ws_accept env socket sender params es P =
    (let p = peer_new socket sender params in
      case ws_loop env es \<lparr>cn_liveness = Some p, cn_sent = [], cn_peers = add_peer p P\<rparr> of
        (None, c) \<Rightarrow> (None, c)
      | (Some (Inl WsPanic), c) \<Rightarrow> (Some (Inl WsPanic), c)
      | (Some r, c) \<Rightarrow> (Some r, c\<lparr>cn_peers := remove_peer socket (cn_peers c)\<rparr>))"

section \<open>Grouping by domain\<close>

definition domain_name :: "(string \<Rightarrow> string option) \<Rightarrow> peer \<Rightarrow> string" where
  "domain_name host p = (case peer_domain host p of None \<Rightarrow> [] | Some x \<Rightarrow> x)"

lemma by_domain_fold:
  "hm_get (fold (\<lambda>p acc. if \<not> pe_alive p then acc
      else (let d = (case peer_domain host p of None \<Rightarrow> [] | Some x \<Rightarrow> x) in
        hm_insert d ((case hm_get acc d of None \<Rightarrow> [] | Some ps \<Rightarrow> ps) @ [p]) acc)) ps acc) d =
    (case filter (\<lambda>p. pe_alive p \<and> domain_name host p = d) ps of
      [] \<Rightarrow> hm_get acc d
    | qs \<Rightarrow> Some ((case hm_get acc d of None \<Rightarrow> [] | Some xs \<Rightarrow> xs) @ qs))"
proof (induction ps arbitrary: acc)
  case (Cons p ps)
  define q where "q = filter (\<lambda>p. pe_alive p \<and> domain_name host p = d) ps"
  have name: "(case peer_domain host p of None \<Rightarrow> [] | Some x \<Rightarrow> x) = domain_name host p"
    by (simp add: domain_name_def)
  show ?case
    by (cases "pe_alive p"; cases "domain_name host p = d"; cases "hm_get acc d"; cases q)
      (simp_all add: Cons.IH name Let_def q_def)
qed simp

text \<open>Grouping the peers by domain gives, for each domain, exactly the alive peers on it, in
  the order of the map, and has no entry for a domain without one; a peer without a domain is
  listed under the empty name.\<close>

theorem by_domain_groups:
  "hm_get (by_domain host P) d =
    (let ps = filter (\<lambda>p. pe_alive p \<and> domain_name host p = d) (hm_values (ps_map P)) in
      if ps = [] then None else Some ps)"
  unfolding by_domain_def by_domain_fold by (simp add: Let_def split: list.split)

section \<open>Broadcasts\<close>

lemma peer_send_gone [simp]: "ps_gone (peer_send m p P) = ps_gone P"
  by (simp add: peer_send_def)



lemma peer_ctx_domain [simp]: "cx_domain (peer_ctx host p) = peer_domain host p"
  by (simp add: peer_ctx_def)



section \<open>One connection\<close>

text \<open>What a connection sends for each event, when nothing fails.\<close>

fun ws_sends :: "ws_env \<Rightarrow> ws_event \<Rightarrow> ws_out list" where
  "ws_sends env (EvText t) = (if t = ''pong'' then [] else case ws_reply env t of None \<Rightarrow> [] | Some r \<Rightarrow> [OutJson r])"
| "ws_sends env (EvOut (Some m)) = [OutJson m]"
| "ws_sends env EvTick = [OutPing]"
| "ws_sends env _ = []"

definition ws_ends :: "ws_event \<Rightarrow> bool" where
  "ws_ends e = (e = EvClose \<or> e = EvOut None)"

definition ws_panics :: "ws_env \<Rightarrow> ws_event \<Rightarrow> bool" where
  "ws_panics env e = (\<exists>t. e = EvText t \<and> t \<noteq> ''pong'' \<and> ws_reply env t = None)"

definition ws_speaks :: "ws_event \<Rightarrow> bool" where
  "ws_speaks e = (\<exists>t. e = EvText t \<and> t \<noteq> ''pong'')"


definition peer_there :: "peer \<Rightarrow> ws_conn \<Rightarrow> bool" where
  "peer_there p c = ((cn_liveness c = None \<or> cn_liveness c = Some p)
    \<and> hm_get (ps_map (cn_peers c)) (pe_socket p) = Some (p\<lparr>pe_alive := cn_liveness c = None\<rparr>))"

definition same_others :: "string \<Rightarrow> peers \<Rightarrow> peers \<Rightarrow> bool" where
  "same_others socket P Q = (\<forall>s. s \<noteq> socket \<longrightarrow> hm_get (ps_map Q) s = hm_get (ps_map P) s)"

lemma mark_alive_there:
  assumes "peer_there p c"
  obtains c' where "mark_alive c = (Inr (), c')" "peer_there p c'" "cn_liveness c' = None" "cn_sent c' = cn_sent c"
    "same_others (pe_socket p) (cn_peers c) (cn_peers c')"
proof (cases "cn_liveness c")
  case None
  with assms that [of c] show ?thesis by (simp add: mark_alive_def same_others_def)
next
  case (Some q)
  with assms have "q = p" and there: "hm_get (ps_map (cn_peers c)) (pe_socket p) = Some (p\<lparr>pe_alive := False\<rparr>)"
    by (simp_all add: peer_there_def)
  with Some show ?thesis
    by (intro that [of "snd (mark_alive c)"])
      (simp_all add: mark_alive_def peer_alive_def peer_there_def ps_event_def same_others_def)
qed

lemma ws_send_there:
  "ws_send env m c = (r, c') \<Longrightarrow> peer_there p c \<Longrightarrow> peer_there p c' \<and> cn_liveness c' = cn_liveness c \<and> cn_peers c' = cn_peers c
    \<and> r \<noteq> Inl WsPanic \<and> (wv_send env (length (cn_sent c)) \<longrightarrow> r = Inr () \<and> cn_sent c' = cn_sent c @ [m])"
  by (auto simp: ws_send_def peer_there_def split: if_splits)

lemma handle_message_there:
  assumes "handle_message env t c = (r, c')" "peer_there p c"
  shows "peer_there p c' \<and> same_others (pe_socket p) (cn_peers c) (cn_peers c')
    \<and> (r = Inl WsPanic \<longleftrightarrow> ws_panics env (EvText t))
    \<and> (cn_liveness c' = None \<longleftrightarrow> cn_liveness c = None \<or> t \<noteq> ''pong'')
    \<and> (wv_send env (length (cn_sent c)) \<longrightarrow> \<not> ws_panics env (EvText t) \<longrightarrow>
        r = Inr () \<and> cn_sent c' = cn_sent c @ ws_sends env (EvText t))"
proof (cases "t = ''pong''")
  case True
  with assms show ?thesis by (auto simp: handle_message_def same_others_def ws_panics_def)
next
  case False
  from mark_alive_there [OF assms(2)] obtain c1 where c1: "mark_alive c = (Inr (), c1)" "peer_there p c1"
    "cn_liveness c1 = None" "cn_sent c1 = cn_sent c" "same_others (pe_socket p) (cn_peers c) (cn_peers c1)" .
  show ?thesis
  proof (cases "ws_reply env t")
    case None
    with assms False c1 show ?thesis by (auto simp: handle_message_def ws_panics_def)
  next
    case (Some j)
    obtain q c2 where s: "ws_send env (OutJson j) c1 = (q, c2)" by fastforce
    have "r = q" "c' = c2" using assms(1) False c1(1) s Some by (auto simp: handle_message_def split: sum.splits)
    with ws_send_there [OF s c1(2)] c1 False Some show ?thesis by (simp add: ws_panics_def)
  qed
qed

lemma ws_loop_there:
  assumes "ws_loop env es c = (res, c')" "peer_there p c"
  shows "peer_there p c' \<and> same_others (pe_socket p) (cn_peers c) (cn_peers c')
    \<and> (res = Some (Inl WsPanic) \<longrightarrow> list_ex (ws_panics env) es)
    \<and> (res = None \<longrightarrow> (cn_liveness c' = None \<longleftrightarrow> cn_liveness c = None \<or> list_ex ws_speaks es))
    \<and> ((\<forall>k. wv_send env k) \<longrightarrow> \<not> list_ex ws_ends es \<longrightarrow> \<not> list_ex (ws_panics env) es \<longrightarrow>
        res = None \<and> cn_sent c' = cn_sent c @ concat (map (ws_sends env) es))"
  using assms
proof (induction env es c rule: ws_loop.induct)
  case (2 env t es c)
  obtain r c1 where h: "handle_message env t c = (r, c1)" by fastforce
  note there = handle_message_there [OF h 2(3)]
  show ?case
  proof (cases r)
    case (Inl e)
    with h 2(2) there show ?thesis by auto
  next
    case (Inr u)
    with h 2(2) have "ws_loop env es c1 = (res, c')" by simp
    from 2(1) [OF h [symmetric] Inr this] there show ?thesis
      by (simp add: same_others_def ws_speaks_def ws_ends_def ws_panics_def)
  qed
next
  case (7 env m es c)
  obtain r c1 where h: "ws_send env (OutJson m) c = (r, c1)" by fastforce
  note there = ws_send_there [OF h 7(3)]
  show ?case
  proof (cases r)
    case (Inl e)
    with h 7(2) there show ?thesis by (auto simp: same_others_def)
  next
    case (Inr u)
    with h 7(2) have "ws_loop env es c1 = (res, c')" by simp
    from 7(1) [OF h [symmetric] Inr this] there show ?thesis
      by (simp add: same_others_def ws_speaks_def ws_ends_def ws_panics_def)
  qed
next
  case (8 env es c)
  obtain r c1 where h: "ws_send env (OutPing) c = (r, c1)" by fastforce
  note there = ws_send_there [OF h 8(3)]
  show ?case
  proof (cases r)
    case (Inl e)
    with h 8(2) there show ?thesis by (auto simp: same_others_def)
  next
    case (Inr u)
    with h 8(2) have "ws_loop env es c1 = (res, c')" by simp
    from 8(1) [OF h [symmetric] Inr this] there show ?thesis
      by (simp add: same_others_def ws_speaks_def ws_ends_def ws_panics_def)
  qed
qed (auto simp: same_others_def ws_speaks_def ws_ends_def ws_panics_def)


text \<open>C32. Serving a connection touches no other peer. While it runs, its peer is listed, and is
  alive exactly if it has sent something other than \<open>pong\<close>; when it ends, the peer is gone, unless
  the RPC handler panicked, which leaves the peer listed for good. As long as the socket works and
  nobody closes or panics, each message but \<open>pong\<close> gets one reply, in order with the events and
  pings.\<close>

theorem connection_lifecycle:
  assumes "ws_accept env socket sender params es P = (res, c)"
  shows "(res = Some (Inl WsPanic) \<longrightarrow> list_ex (ws_panics env) es) \<and> (\<forall>s. s \<noteq> socket \<longrightarrow> hm_get (ps_map (cn_peers c)) s = hm_get (ps_map P) s)
    \<and> (case res of
        None \<Rightarrow> hm_get (ps_map (cn_peers c)) socket = Some ((peer_new socket sender params)\<lparr>pe_alive := list_ex ws_speaks es\<rparr>)
      | Some r \<Rightarrow> hm_get (ps_map (cn_peers c)) socket = None \<longleftrightarrow> r \<noteq> Inl WsPanic)
    \<and> ((\<forall>k. wv_send env k) \<longrightarrow> \<not> list_ex ws_ends es \<longrightarrow> \<not> list_ex (ws_panics env) es \<longrightarrow> res = None \<and> cn_sent c = concat (map (ws_sends env) es))"
proof -
  let ?p = "peer_new socket sender params"
  let ?c = "\<lparr>cn_liveness = Some ?p, cn_sent = [], cn_peers = add_peer ?p P\<rparr>"
  have [simp]: "pe_socket ?p = socket" "\<not> pe_alive ?p" by (simp_all add: peer_new_def)
  have there: "peer_there ?p ?c" "same_others socket P (add_peer ?p P)"
    by (simp_all add: peer_there_def add_peer_def ps_event_def same_others_def peer_new_def)
  obtain q c1 where l: "ws_loop env es ?c = (q, c1)" by fastforce
  from ws_loop_there [OF this there(1)] have c1: "peer_there ?p c1" "same_others socket (add_peer ?p P) (cn_peers c1)"
    "q = Some (Inl WsPanic) \<Longrightarrow> list_ex (ws_panics env) es" "q = None \<Longrightarrow> cn_liveness c1 = None \<longleftrightarrow> list_ex ws_speaks es"
    "(\<forall>k. wv_send env k) \<longrightarrow> \<not> list_ex ws_ends es \<longrightarrow> \<not> list_ex (ws_panics env) es \<longrightarrow> q = None \<and> cn_sent c1 = concat (map (ws_sends env) es)"
    by simp_all
  have eq: "(res, c) = (case q of None \<Rightarrow> (None, c1)
      | Some r \<Rightarrow> (Some r, if r = Inl WsPanic then c1 else c1\<lparr>cn_peers := remove_peer socket (cn_peers c1)\<rparr>))"
    using assms l by (auto simp: ws_accept_def Let_def split: option.splits sum.splits ws_error.splits)
  show ?thesis
  proof (cases q)
    case None
    with eq c1 there show ?thesis by (simp add: peer_there_def same_others_def)
  next
    case (Some r)
    with eq c1 there show ?thesis by (auto simp: peer_there_def same_others_def remove_peer_def ps_event_def)
  qed
qed

definition toy_ws_env :: ws_env where
  "toy_ws_env = \<lparr>wv_parse = (\<lambda>_. Inl EofError), wv_handle = (\<lambda>_. None), wv_send = (\<lambda>_. True)\<rparr>"

definition no_peers :: peers where
  "no_peers = \<lparr>ps_map = [], ps_events = [], ps_out = [], ps_gone = []\<rparr>"

theorem connection_lifecycle_witness:
  "cn_sent (snd (ws_accept toy_ws_env ''s'' 0 [] [EvTick, EvText ''pong'', EvText ''x''] no_peers)) =
    [OutPing, OutJson (json_rpc_error (-32700) ''Parse error'' JNull)]"
proof -
  obtain r c where r: "ws_accept toy_ws_env ''s'' 0 [] [EvTick, EvText ''pong'', EvText ''x''] no_peers = (r, c)" by fastforce
  from connection_lifecycle [OF r] have "cn_sent c = [OutPing, OutJson (json_rpc_error (-32700) ''Parse error'' JNull)]"
    by (simp add: toy_ws_env_def ws_ends_def ws_panics_def ws_reply_def json_rpc_parse_error_def)
  with r show ?thesis by simp
qed



end
