(* ===== verification/Crypto.thy ===== *)
theory Crypto
  imports Text
begin

text \<open>
  Password-protected secrets (\<open>crates/crypto\<close>). The key derivation, the stream cipher, the
  \<open>serde_json\<close> printer and parser and the random bytes come from third parties and are
  arguments, gathered in a record; a string is the text it is.
\<close>

record primitives =
  argon2 :: "string \<Rightarrow> bytes \<Rightarrow> string + bytes"
  encrypt_last :: "bytes \<Rightarrow> bytes \<Rightarrow> bytes \<Rightarrow> string + bytes"
  decrypt_last :: "bytes \<Rightarrow> bytes \<Rightarrow> bytes \<Rightarrow> string + bytes"
  to_json :: "string \<Rightarrow> bytes"
  from_json :: "bytes \<Rightarrow> string + string"

record encrypted_data =
  ed_salt :: bytes
  ed_nonce :: bytes
  ed_ciphertext :: bytes

datatype crypto_error = KeyDerivation string | EncryptionFailed string | InvalidPassword | BadPlaintext string

definition password_to_key :: "primitives \<Rightarrow> string \<Rightarrow> bytes \<Rightarrow> crypto_error + bytes" where
  "password_to_key P password salt = map_sum KeyDerivation id (argon2 P password salt)"

text \<open>\<open>salt\<close> and \<open>nonce\<close> are the bytes the random generator fills in.\<close>

definition encrypt :: "primitives \<Rightarrow> bytes \<Rightarrow> bytes \<Rightarrow> string \<Rightarrow> string \<Rightarrow> crypto_error + encrypted_data" where
  "encrypt P salt nonce data password =
    (case password_to_key P password salt of
      Inl e \<Rightarrow> Inl e
    | Inr key \<Rightarrow>
        (case encrypt_last P (take 32 key) nonce (to_json P data) of
          Inl e \<Rightarrow> Inl (EncryptionFailed e)
        | Inr c \<Rightarrow> Inr \<lparr>ed_salt = salt, ed_nonce = nonce, ed_ciphertext = c\<rparr>))"

definition decrypt :: "primitives \<Rightarrow> encrypted_data \<Rightarrow> string \<Rightarrow> crypto_error + string" where
  "decrypt P data password =
    (case password_to_key P password (ed_salt data) of
      Inl e \<Rightarrow> Inl e
    | Inr key \<Rightarrow>
        (case decrypt_last P (take 32 key) (ed_nonce data) (ed_ciphertext data) of
          Inl _ \<Rightarrow> Inl InvalidPassword
        | Inr plain \<Rightarrow> map_sum BadPlaintext id (from_json P plain)))"

text \<open>
  What is relied on: deriving a key from the same password and salt gives the same key (it is a
  function) of at least the 32 bytes that are used, the cipher opens what it sealed under the same key and nonce, and JSON text
  reads back. That a wrong key is refused is a matter of probability, and is not relied on: where it
  matters, the statement says which attempts the cipher refused.
\<close>

definition cipher_opens :: "primitives \<Rightarrow> bool" where
  "cipher_opens P = (\<forall>k n m c. length k = 32 \<longrightarrow> encrypt_last P k n m = Inr c \<longrightarrow> decrypt_last P k n c = Inr m)"

definition keys_long :: "primitives \<Rightarrow> bool" where
  "keys_long P = (\<forall>pw s k. argon2 P pw s = Inr k \<longrightarrow> 32 \<le> length k)"

definition json_reads_back :: "primitives \<Rightarrow> bool" where
  "json_reads_back P = (\<forall>s. from_json P (to_json P s) = Inr s)"

definition crypto_ok :: "primitives \<Rightarrow> bool" where
  "crypto_ok P = (cipher_opens P \<and> keys_long P \<and> json_reads_back P)"

lemma key_length: "keys_long P \<Longrightarrow> password_to_key P pw s = Inr k \<Longrightarrow> length (take 32 k) = 32"
  by (auto simp: keys_long_def password_to_key_def map_sum_def split: sum.splits)

lemma decrypt_encrypt:
  assumes "crypto_ok P" and "encrypt P salt nonce data password = Inr d"
  shows "decrypt P d password = Inr data"
proof -
  from assms(2) obtain key c where k: "password_to_key P password salt = Inr key"
    and c: "encrypt_last P (take 32 key) nonce (to_json P data) = Inr c"
    and d: "d = \<lparr>ed_salt = salt, ed_nonce = nonce, ed_ciphertext = c\<rparr>"
    by (auto simp: encrypt_def split: sum.splits)
  have "decrypt_last P (take 32 key) nonce c = Inr (to_json P data)"
    using assms(1) c key_length [OF _ k] unfolding crypto_ok_def cipher_opens_def by blast
  with k d assms(1) show ?thesis by (simp add: decrypt_def crypto_ok_def json_reads_back_def)
qed

lemma encrypt_stores:
  assumes "encrypt P salt nonce data password = Inr d"
  shows "ed_salt d = salt" "ed_nonce d = nonce"
  using assms by (auto simp: encrypt_def split: sum.splits)

text \<open>C10. A secret encrypted under a password, with the salt and nonce drawn, is read back under that password.
  Under another password the stored data is opened with the key derived from it and the stored salt, and gives
  something only if the cipher opens the stored ciphertext under that very key and the stored nonce; where the cipher refuses, the
  answer is the invalid-password error, and where no key can be derived, that error.\<close>

theorem secret_roundtrip:
  assumes "crypto_ok P" and "encrypt P salt nonce data password = Inr d"
  shows "decrypt P d password = Inr data
    \<and> (\<forall>password' key. argon2 P password' salt = Inr key \<longrightarrow>
        decrypt P d password' = (case decrypt_last P (take 32 key) nonce (ed_ciphertext d) of
            Inl _ \<Rightarrow> Inl InvalidPassword
          | Inr plain \<Rightarrow> (case from_json P plain of Inl e \<Rightarrow> Inl (BadPlaintext e) | Inr data' \<Rightarrow> Inr data')))
    \<and> (\<forall>password' e. argon2 P password' salt = Inl e \<longrightarrow> decrypt P d password' = Inl (KeyDerivation e))"
proof (intro conjI allI impI)
  note stored = encrypt_stores [OF assms(2)]
  show "decrypt P d password = Inr data" by (rule decrypt_encrypt [OF assms])
  show "decrypt P d password' = (case decrypt_last P (take 32 key) nonce (ed_ciphertext d) of
            Inl _ \<Rightarrow> Inl InvalidPassword
          | Inr plain \<Rightarrow> (case from_json P plain of Inl e \<Rightarrow> Inl (BadPlaintext e) | Inr data' \<Rightarrow> Inr data'))"
    if "argon2 P password' salt = Inr key" for password' key
    using that stored by (auto simp: decrypt_def password_to_key_def split: sum.splits)
  show "decrypt P d password' = Inl (KeyDerivation e)" if "argon2 P password' salt = Inl e" for password' e
    using that stored by (simp add: decrypt_def password_to_key_def)
qed

text \<open>A toy cipher that shows the hypotheses can hold: the key is put before the text.\<close>

definition toy_primitives :: primitives where
  "toy_primitives = \<lparr>
    argon2 = (\<lambda>pw salt. Inr (map byte_of_char pw @ replicate 32 0)),
    encrypt_last = (\<lambda>k n m. Inr (k @ m)),
    decrypt_last = (\<lambda>k n c. if take 32 c = k then Inr (drop 32 c) else Inl ''bad key''),
    to_json = map byte_of_char,
    from_json = (\<lambda>b. Inr (map char_of_byte b))\<rparr>"

lemma toy_ok: "crypto_ok toy_primitives"
  by (auto simp: crypto_ok_def cipher_opens_def keys_long_def json_reads_back_def
      toy_primitives_def comp_def split: if_splits)

theorem secret_roundtrip_witness:
  "\<exists>d. encrypt toy_primitives [] [] ''secret'' ''pw'' = Inr d \<and> decrypt toy_primitives d ''pw'' = Inr ''secret''
    \<and> decrypt toy_primitives d ''wp'' = Inl InvalidPassword"
proof -
  obtain d where d: "encrypt toy_primitives [] [] ''secret'' ''pw'' = Inr d"
    by (simp add: encrypt_def password_to_key_def toy_primitives_def)
  have "ed_ciphertext d = take 32 (map byte_of_char ''pw'' @ replicate 32 0) @ map byte_of_char ''secret''"
    using d by (auto simp: encrypt_def password_to_key_def toy_primitives_def)
  then have "\<exists>e. decrypt_last toy_primitives (take 32 (map byte_of_char ''wp'' @ replicate 32 0)) [] (ed_ciphertext d) = Inl e"
    by (simp add: toy_primitives_def byte_of_char_def)
  moreover have "argon2 toy_primitives ''wp'' [] = Inr (map byte_of_char ''wp'' @ replicate 32 0)" by (simp add: toy_primitives_def)
  ultimately have "decrypt toy_primitives d ''wp'' = Inl InvalidPassword" using secret_roundtrip [OF toy_ok d] by force
  with secret_roundtrip [OF toy_ok d] d show ?thesis by blast
qed

end
