(* ===== verification/Wallet_Kinds.thy ===== *)
theory Wallet_Kinds
  imports Ethui_Types Crypto Secret_Cache
begin

text \<open>
  The six kinds of wallet (\<open>crates/wallets/src/wallets\<close>) and the operations of the
  \<open>WalletControl\<close> trait on them. Deriving keys, reading key files, asking a Ledger and the
  cipher belong to third parties: they are the fields of a \<open>wallet_env\<close>, with what the unlock
  dialog answers. A clone of a wallet shares its cache, so an operation that unlocks a clone also
  returns what it leaves in the cache of the original. A number of type \<open>usize\<close> is a \<open>nat\<close>
  read from 64 bits.
\<close>

section \<open>The outside\<close>

record wallet_env =
  we_derive :: "string \<Rightarrow> string \<Rightarrow> string + address"
  we_path :: "string \<Rightarrow> string option"
  we_ledger :: "string \<Rightarrow> string + address"
  we_keystore :: "string \<Rightarrow> string \<Rightarrow> bytes option"
  we_hex32 :: "string \<Rightarrow> bytes option"
  we_valid_key :: "bytes \<Rightarrow> bool"
  we_key_address :: "bytes \<Rightarrow> address"
  we_show_address :: "address \<Rightarrow> string"
  we_read_address :: "string \<Rightarrow> address option"
  we_prims :: primitives
  we_salt :: bytes
  we_nonce :: bytes
  we_dialog :: dialog_env
  we_expires :: bool
  we_io :: io

datatype wl_error =
    WlUnlock unlock_error
  | WlCacheEmpty
  | WlUnknownKey string
  | WlParams
  | WlDerive string
  | WlLedger string
  | WlCannotSign
  | WlInvalidType string
  | WlDuplicate string
  | WlInvalidIndex nat
  | WlInvalidName string
  | WlCrypto
  | WlKeystore
  | WlKey
  | WlIo
  | WlPanic

text \<open>A signer: local or a Ledger, with its address and the chain it signs for.\<close>

datatype signer = Local address u64 | Ledger address u64

fun signer_address :: "signer \<Rightarrow> address" where
  "signer_address (Local a _) = a"
| "signer_address (Ledger a _) = a"

fun signer_chain_id :: "signer \<Rightarrow> u64" where
  "signer_chain_id (Local _ c) = c"
| "signer_chain_id (Ledger _ c) = c"

fun is_ledger :: "signer \<Rightarrow> bool" where
  "is_ledger (Local _ _) = False"
| "is_ledger (Ledger _ _) = True"

section \<open>Derivation\<close>

definition child_path :: "string \<Rightarrow> nat \<Rightarrow> string" where
  "child_path p i = p @ ''/'' @ show_dec i"

text \<open>The \<open>unwrap\<close> of a path that cannot be derived is a panic.\<close>

fun derive_from :: "wallet_env \<Rightarrow> string \<Rightarrow> string \<Rightarrow> nat list \<Rightarrow> wl_error + (string \<times> address) list" where
  "derive_from env mnemonic p [] = Inr []"
| "derive_from env mnemonic p (i # is) =
    (case we_derive env mnemonic (child_path p i) of
      Inl _ \<Rightarrow> Inl WlPanic
    | Inr a \<Rightarrow> map_sum id (\<lambda>r. (child_path p i, a) # r) (derive_from env mnemonic p is))"

definition derive_addresses :: "wallet_env \<Rightarrow> string \<Rightarrow> string \<Rightarrow> nat \<Rightarrow> wl_error + (string \<times> address) list" where
  "derive_addresses env mnemonic p count = derive_from env mnemonic p [0..<count]"

fun ledger_derive_multiple :: "wallet_env \<Rightarrow> string list \<Rightarrow> wl_error + (string \<times> address) list" where
  "ledger_derive_multiple env [] = Inr []"
| "ledger_derive_multiple env (p # ps) =
    (case we_ledger env p of
      Inl e \<Rightarrow> Inl (WlLedger e)
    | Inr a \<Rightarrow> map_sum id (\<lambda>r. (p, a) # r) (ledger_derive_multiple env ps))"

text \<open>
  Unlocking and reading the cache: between the two the expirer may have cleared it, which
  \<open>we_expires\<close> says. The second component is what the cache holds afterwards.
\<close>

definition unlock_read :: "wallet_env \<Rightarrow> (string \<Rightarrow> bytes option) \<Rightarrow> bytes option \<Rightarrow> (wl_error + bytes) \<times> bytes option" where
  "unlock_read env try_decrypt cache =
    (case unlock_with_dialog (we_dialog env) try_decrypt cache of
      (Inl e, cache') \<Rightarrow> (Inl (WlUnlock e), cache')
    | (Inr _, cache') \<Rightarrow>
        if we_expires env then (Inl WlCacheEmpty, None)
        else (case cache' of None \<Rightarrow> (Inl WlCacheEmpty, None) | Some s \<Rightarrow> (Inr s, cache')))"

section \<open>Reading parameters\<close>

definition json_usize :: "json \<Rightarrow> nat option" where
  "json_usize j = map_option unat (as_u64 j)"

fun json_strings :: "json list \<Rightarrow> string list option" where
  "json_strings [] = Some []"
| "json_strings (j # js) =
    (case as_str j of
      None \<Rightarrow> None
    | Some s \<Rightarrow> map_option (\<lambda>r. s # r) (json_strings js))"

fun json_addresses :: "wallet_env \<Rightarrow> json list \<Rightarrow> address list option" where
  "json_addresses env [] = Some []"
| "json_addresses env (j # js) =
    (case Option.bind (as_str j) (we_read_address env) of
      None \<Rightarrow> None
    | Some a \<Rightarrow> map_option (\<lambda>r. a # r) (json_addresses env js))"

text \<open>A default for a member that is absent, as \<open>#[serde(default)]\<close>.\<close>

definition member_or :: "'a \<Rightarrow> (json \<Rightarrow> 'a option) \<Rightarrow> json option \<Rightarrow> 'a option" where
  "member_or d read j = (case j of None \<Rightarrow> Some d | Some v \<Rightarrow> read v)"

section \<open>The plaintext wallet\<close>

record plaintext_wallet =
  pt_name :: string
  pt_mnemonic :: string
  pt_derivation_path :: string
  pt_count :: nat
  pt_current_path :: string

definition plaintext_default :: plaintext_wallet where
  "plaintext_default = \<lparr>
    pt_name = ''test'',
    pt_mnemonic = ''test test test test test test test test test test test junk'',
    pt_derivation_path = ''m/44'' @ [CHR 0x27] @ ''/60'' @ [CHR 0x27] @ ''/0'' @ [CHR 0x27] @ ''/0'',
    pt_count = 3,
    pt_current_path = child_path (''m/44'' @ [CHR 0x27] @ ''/60'' @ [CHR 0x27] @ ''/0'' @ [CHR 0x27] @ ''/0'') 0\<rparr>"

text \<open>
  Reading one from its parameters: a current path that is absent or does not parse is replaced
  by the first child of the derivation path, which must parse.
\<close>

definition plaintext_try_from :: "wallet_env \<Rightarrow> string \<Rightarrow> string \<Rightarrow> string \<Rightarrow> nat \<Rightarrow> string option \<Rightarrow> wl_error + plaintext_wallet" where
  "plaintext_try_from env name mnemonic path count cur =
    (let given = Option.bind cur (we_path env);
         chosen = (case given of Some p \<Rightarrow> Some p | None \<Rightarrow> we_path env (path @ ''/0'')) in
      case chosen of
        None \<Rightarrow> Inl WlParams
      | Some p \<Rightarrow> Inr \<lparr>pt_name = name, pt_mnemonic = mnemonic, pt_derivation_path = path, pt_count = count, pt_current_path = p\<rparr>)"

definition opt_string :: "json \<Rightarrow> string option option" where
  "opt_string j = (if j = JNull then Some None else map_option Some (as_str j))"

definition plaintext_from_value :: "wallet_env \<Rightarrow> json \<Rightarrow> wl_error + plaintext_wallet" where
  "plaintext_from_value env j =
    (case (as_str (json_get ''name'' j), as_str (json_get ''mnemonic'' j), as_str (json_get ''derivationPath'' j),
           json_usize (json_get ''count'' j), opt_string (json_get ''currentPath'' j)) of
      (Some name, Some mnemonic, Some path, Some count, Some cur) \<Rightarrow>
        plaintext_try_from env name mnemonic path count cur
    | _ \<Rightarrow> Inl WlParams)"

definition pt_build_signer :: "wallet_env \<Rightarrow> plaintext_wallet \<Rightarrow> u64 \<Rightarrow> string \<Rightarrow> wl_error + signer" where
  "pt_build_signer env w chain path = map_sum WlDerive (\<lambda>a. Local a chain) (we_derive env (pt_mnemonic w) path)"

definition pt_current_address :: "wallet_env \<Rightarrow> plaintext_wallet \<Rightarrow> wl_error + address" where
  "pt_current_address env w =
    map_sum (\<lambda>_. WlPanic) signer_address (pt_build_signer env w 1 (pt_current_path w))"

definition pt_set_current_path :: "wallet_env \<Rightarrow> string \<Rightarrow> plaintext_wallet \<Rightarrow> wl_error + plaintext_wallet" where
  "pt_set_current_path env path w =
    (case we_derive env (pt_mnemonic w) path of
      Inl e \<Rightarrow> Inl (WlDerive e)
    | Inr _ \<Rightarrow> Inr (w\<lparr>pt_current_path := path\<rparr>))"

section \<open>The HD wallet\<close>

record hd_wallet =
  hd_name :: string
  hd_derivation_path :: string
  hd_count :: nat
  hd_current :: "string \<times> address"
  hd_addresses :: "(string \<times> address) list"
  hd_ciphertext :: encrypted_data
  hd_cache :: "bytes option"

definition hd_from_params :: "wallet_env \<Rightarrow> string \<Rightarrow> string \<Rightarrow> string \<Rightarrow> string \<Rightarrow> nat \<Rightarrow> wl_error + hd_wallet" where
  "hd_from_params env mnemonic path password name count =
    (case derive_addresses env mnemonic path count of
      Inl e \<Rightarrow> Inl e
    | Inr [] \<Rightarrow> Inl WlPanic
    | Inr (first # rest) \<Rightarrow>
        (case encrypt (we_prims env) (we_salt env) (we_nonce env) mnemonic password of
          Inl _ \<Rightarrow> Inl WlPanic
        | Inr ciphertext \<Rightarrow> Inr \<lparr>
            hd_name = name,
            hd_derivation_path = path,
            hd_count = count,
            hd_current = first,
            hd_addresses = first # rest,
            hd_ciphertext = ciphertext,
            hd_cache = None\<rparr>))"

definition hd_create :: "wallet_env \<Rightarrow> json \<Rightarrow> wl_error + hd_wallet" where
  "hd_create env j =
    (case (as_str (json_get ''mnemonic'' j), as_str (json_get ''derivationPath'' j), as_str (json_get ''password'' j),
           as_str (json_get ''name'' j), json_usize (json_get ''count'' j)) of
      (Some mnemonic, Some path, Some password, Some name, Some count) \<Rightarrow>
        hd_from_params env mnemonic path password name count
    | _ \<Rightarrow> Inl WlParams)"

definition hd_try_decrypt :: "wallet_env \<Rightarrow> encrypted_data \<Rightarrow> string \<Rightarrow> bytes option" where
  "hd_try_decrypt env ciphertext password =
    (case decrypt (we_prims env) ciphertext password of
      Inl _ \<Rightarrow> None
    | Inr mnemonic \<Rightarrow> Some (string_into_secret mnemonic))"

definition hd_unlock :: "wallet_env \<Rightarrow> hd_wallet \<Rightarrow> (wl_error + bytes) \<times> hd_wallet" where
  "hd_unlock env w =
    (case unlock_read env (hd_try_decrypt env (hd_ciphertext w)) (hd_cache w) of
      (r, cache) \<Rightarrow> (r, w\<lparr>hd_cache := cache\<rparr>))"

definition update_derived_addresses :: "wallet_env \<Rightarrow> (hd_wallet, wl_error, unit) handler" where
  "update_derived_addresses env w =
    (case hd_unlock env w of
      (Inl e, w') \<Rightarrow> (Inl e, w')
    | (Inr secret, w') \<Rightarrow>
        (case derive_addresses env (string_from_secret secret) (hd_derivation_path w') (hd_count w') of
          Inl e \<Rightarrow> (Inl e, w')
        | Inr [] \<Rightarrow> (Inl WlPanic, w')
        | Inr (first # rest) \<Rightarrow> (Inr (), w'\<lparr>hd_current := first, hd_addresses := first # rest\<rparr>)))"

definition update_derivation_path :: "wallet_env \<Rightarrow> string \<Rightarrow> (hd_wallet, wl_error, unit) handler" where
  "update_derivation_path env path =
    run_seq [step (\<lambda>w. w\<lparr>hd_derivation_path := path\<rparr>), update_derived_addresses env]"

definition update_count :: "wallet_env \<Rightarrow> nat \<Rightarrow> (hd_wallet, wl_error, unit) handler" where
  "update_count env count =
    run_seq [step (\<lambda>w. w\<lparr>hd_count := count\<rparr>), update_derived_addresses env]"

definition hd_update :: "wallet_env \<Rightarrow> json \<Rightarrow> (hd_wallet, wl_error, unit) handler" where
  "hd_update env params =
    run_seq
      [case as_str (json_get ''name'' params) of None \<Rightarrow> step id | Some n \<Rightarrow> step (\<lambda>w. w\<lparr>hd_name := n\<rparr>),
       case as_str (json_get ''derivationPath'' params) of None \<Rightarrow> step id | Some p \<Rightarrow> update_derivation_path env p,
       case as_u64 (json_get ''count'' params) of None \<Rightarrow> step id | Some c \<Rightarrow> update_count env (unat c)]"

definition hd_set_current_path :: "string \<Rightarrow> hd_wallet \<Rightarrow> wl_error + hd_wallet" where
  "hd_set_current_path path w =
    (case List.find (\<lambda>(p, _). p = path) (hd_addresses w) of
      None \<Rightarrow> Inl (WlUnknownKey path)
    | Some e \<Rightarrow> Inr (w\<lparr>hd_current := e\<rparr>))"

definition lookup_path :: "(string \<times> address) list \<Rightarrow> string \<Rightarrow> wl_error + address" where
  "lookup_path addrs path = ok_or (WlUnknownKey path) (map_option snd (List.find (\<lambda>(p, _). p = path) addrs))"

definition hd_build_signer :: "wallet_env \<Rightarrow> u64 \<Rightarrow> string \<Rightarrow> hd_wallet \<Rightarrow> (wl_error + signer) \<times> hd_wallet" where
  "hd_build_signer env chain path w =
    (if \<not> list_ex (\<lambda>(p, _). p = path) (hd_addresses w) then (Inl (WlUnknownKey path), w)
     else
       (case hd_unlock env w of
         (Inl e, w') \<Rightarrow> (Inl e, w')
       | (Inr secret, w') \<Rightarrow>
           (map_sum WlDerive (\<lambda>a. Local a chain) (we_derive env (string_from_secret secret) path), w')))"

section \<open>The impersonator\<close>

record impersonator =
  im_name :: string
  im_addresses :: "address list"
  im_current :: nat

definition impersonator_from_value :: "wallet_env \<Rightarrow> json \<Rightarrow> wl_error + impersonator" where
  "impersonator_from_value env j =
    (case (as_str (json_get ''name'' j),
           Option.bind (as_array (json_get ''addresses'' j)) (json_addresses env),
           member_or 0 json_usize (json_member ''current'' j)) of
      (Some name, Some addrs, Some cur) \<Rightarrow> Inr \<lparr>im_name = name, im_addresses = addrs, im_current = cur\<rparr>
    | _ \<Rightarrow> Inl WlParams)"

definition im_update :: "wallet_env \<Rightarrow> json \<Rightarrow> (impersonator, wl_error, unit) handler" where
  "im_update env params =
    run_seq
      [case as_str (json_get ''name'' params) of None \<Rightarrow> step id | Some n \<Rightarrow> step (\<lambda>w. w\<lparr>im_name := n\<rparr>),
       \<lambda>w. (if json_is_null (json_get ''addresses'' params) then (Inr (), w)
            else case Option.bind (as_array (json_get ''addresses'' params)) (json_addresses env) of
              None \<Rightarrow> (Inl WlParams, w)
            | Some addrs \<Rightarrow> (Inr (), w\<lparr>im_addresses := addrs\<rparr>)),
       case as_u64 (json_get ''current'' params) of None \<Rightarrow> step id | Some c \<Rightarrow> step (\<lambda>w. w\<lparr>im_current := unat c\<rparr>)]"

text \<open>Indexing out of range is a panic.\<close>

definition im_current_address :: "impersonator \<Rightarrow> wl_error + address" where
  "im_current_address w =
    (if im_current w < length (im_addresses w) then Inr (im_addresses w ! im_current w) else Inl WlPanic)"

definition im_set_current_path :: "string \<Rightarrow> impersonator \<Rightarrow> wl_error + impersonator" where
  "im_set_current_path path w =
    (case from_str_radix path 10 of
      None \<Rightarrow> Inl WlParams
    | Some n \<Rightarrow> Inr (w\<lparr>im_current := unat n\<rparr>))"

definition im_all_addresses :: "impersonator \<Rightarrow> (string \<times> address) list" where
  "im_all_addresses w = map (\<lambda>(i, a). (show_dec i, a)) (zip [0..<length (im_addresses w)] (im_addresses w))"

definition im_get_address :: "string \<Rightarrow> impersonator \<Rightarrow> wl_error + address" where
  "im_get_address path w =
    (case from_str_radix path 10 of
      None \<Rightarrow> Inl WlParams
    | Some n \<Rightarrow> if unat n < length (im_addresses w) then Inr (im_addresses w ! unat n) else Inl WlPanic)"

section \<open>The Ledger wallet\<close>

record ledger_wallet =
  lg_name :: string
  lg_addresses :: "(string \<times> address) list"
  lg_current :: nat

definition lg_create :: "wallet_env \<Rightarrow> json \<Rightarrow> wl_error + ledger_wallet" where
  "lg_create env j =
    (case (as_str (json_get ''name'' j), Option.bind (as_array (json_get ''paths'' j)) json_strings) of
      (Some name, Some paths) \<Rightarrow>
        map_sum id (\<lambda>addrs. \<lparr>lg_name = name, lg_addresses = addrs, lg_current = 0\<rparr>) (ledger_derive_multiple env paths)
    | _ \<Rightarrow> Inl WlParams)"

definition lg_update :: "wallet_env \<Rightarrow> json \<Rightarrow> (ledger_wallet, wl_error, unit) handler" where
  "lg_update env params =
    run_seq
      [case as_str (json_get ''name'' params) of None \<Rightarrow> step id | Some n \<Rightarrow> step (\<lambda>w. w\<lparr>lg_name := n\<rparr>),
       \<lambda>w. (case as_array (json_get ''paths'' params) of
             None \<Rightarrow> (Inr (), w)
           | Some js \<Rightarrow>
               (case json_strings js of
                 None \<Rightarrow> (Inl WlParams, w)
               | Some paths \<Rightarrow>
                   (case ledger_derive_multiple env paths of
                     Inl e \<Rightarrow> (Inl e, w)
                   | Inr addrs \<Rightarrow> (Inr (), w\<lparr>lg_addresses := addrs\<rparr>)))),
       step (\<lambda>w. if length (lg_addresses w) \<le> lg_current w then w\<lparr>lg_current := 0\<rparr> else w)]"

definition lg_current_entry :: "ledger_wallet \<Rightarrow> wl_error + (string \<times> address)" where
  "lg_current_entry w =
    (if lg_current w < length (lg_addresses w) then Inr (lg_addresses w ! lg_current w) else Inl WlPanic)"

definition lg_set_current_path :: "string \<Rightarrow> ledger_wallet \<Rightarrow> wl_error + ledger_wallet" where
  "lg_set_current_path path w =
    (case position (\<lambda>(p, _). p = path) (lg_addresses w) of
      None \<Rightarrow> Inl (WlUnknownKey path)
    | Some i \<Rightarrow> Inr (w\<lparr>lg_current := i\<rparr>))"

text \<open>The device is asked for the address of the path when it connects.\<close>

definition lg_build_signer :: "wallet_env \<Rightarrow> u64 \<Rightarrow> string \<Rightarrow> ledger_wallet \<Rightarrow> wl_error + signer" where
  "lg_build_signer env chain path w = map_sum WlLedger (\<lambda>a. Ledger a chain) (we_ledger env path)"

section \<open>The JSON keystore wallet\<close>

record keystore_wallet =
  jk_name :: string
  jk_path :: string
  jk_address :: address
  jk_cache :: "bytes option"

definition jk_create :: "wallet_env \<Rightarrow> json \<Rightarrow> wl_error + keystore_wallet" where
  "jk_create env j =
    (case (as_str (json_get ''name'' j), as_str (json_get ''file'' j), as_str (json_get ''password'' j)) of
      (Some name, Some path, Some password) \<Rightarrow>
        (case we_keystore env path password of
          None \<Rightarrow> Inl WlKeystore
        | Some key \<Rightarrow> Inr \<lparr>jk_name = name, jk_path = path, jk_address = we_key_address env key, jk_cache = None\<rparr>)
    | _ \<Rightarrow> Inl WlParams)"

definition jk_unlock :: "wallet_env \<Rightarrow> keystore_wallet \<Rightarrow> (wl_error + bytes) \<times> keystore_wallet" where
  "jk_unlock env w =
    (case unlock_read env (we_keystore env (jk_path w)) (jk_cache w) of
      (r, cache) \<Rightarrow> (r, w\<lparr>jk_cache := cache\<rparr>))"

text \<open>A secret of a wrong length or an invalid key is a panic.\<close>

definition signer_from_bytes :: "wallet_env \<Rightarrow> u64 \<Rightarrow> bytes \<Rightarrow> wl_error + signer" where
  "signer_from_bytes env chain key =
    (if length key = 32 \<and> we_valid_key env key then Inr (Local (we_key_address env key) chain) else Inl WlPanic)"

definition jk_build_signer :: "wallet_env \<Rightarrow> u64 \<Rightarrow> keystore_wallet \<Rightarrow> (wl_error + signer) \<times> keystore_wallet" where
  "jk_build_signer env chain w =
    (case jk_unlock env w of
      (Inl e, w') \<Rightarrow> (Inl e, w')
    | (Inr secret, w') \<Rightarrow> (signer_from_bytes env chain secret, w'))"

text \<open>Wallets saved before they had an address take it from the key file, else the zero address.\<close>

definition legacy_file_address :: "wallet_env \<Rightarrow> json option \<Rightarrow> address option" where
  "legacy_file_address env contents =
    (case contents of
      None \<Rightarrow> None
    | Some j \<Rightarrow> Option.bind (as_str (json_get ''address'' j)) (we_read_address env))"

definition jk_deserialize :: "wallet_env \<Rightarrow> (string \<Rightarrow> json option) \<Rightarrow> string \<Rightarrow> string \<Rightarrow> address option \<Rightarrow> keystore_wallet" where
  "jk_deserialize env files name path stored =
    \<lparr>jk_name = name, jk_path = path,
     jk_address = (case stored of
         Some a \<Rightarrow> a
       | None \<Rightarrow> (case legacy_file_address env (files path) of Some a \<Rightarrow> a | None \<Rightarrow> 0)),
     jk_cache = None\<rparr>"

section \<open>The private key wallet\<close>

record private_key_wallet =
  pk_name :: string
  pk_address :: address
  pk_ciphertext :: encrypted_data
  pk_cache :: "bytes option"

definition private_key_from_str :: "wallet_env \<Rightarrow> string \<Rightarrow> bytes option" where
  "private_key_from_str env s =
    (case we_hex32 env s of None \<Rightarrow> None | Some b \<Rightarrow> if we_valid_key env b then Some b else None)"

definition pk_from_params :: "wallet_env \<Rightarrow> string \<Rightarrow> string \<Rightarrow> string \<Rightarrow> wl_error + private_key_wallet" where
  "pk_from_params env private_key password name =
    (let key = (case strip_prefix ''0x'' private_key of Some k \<Rightarrow> k | None \<Rightarrow> private_key) in
      case private_key_from_str env key of
        None \<Rightarrow> Inl WlKey
      | Some b \<Rightarrow>
          (case encrypt (we_prims env) (we_salt env) (we_nonce env) key password of
            Inl _ \<Rightarrow> Inl WlCrypto
          | Inr ciphertext \<Rightarrow> Inr \<lparr>pk_name = name, pk_address = we_key_address env b,
              pk_ciphertext = ciphertext, pk_cache = None\<rparr>))"

definition pk_create :: "wallet_env \<Rightarrow> json \<Rightarrow> wl_error + private_key_wallet" where
  "pk_create env j =
    (case (as_str (json_get ''privateKey'' j), as_str (json_get ''password'' j), as_str (json_get ''name'' j)) of
      (Some key, Some password, Some name) \<Rightarrow> pk_from_params env key password name
    | _ \<Rightarrow> Inl WlParams)"

definition pk_unlock :: "wallet_env \<Rightarrow> private_key_wallet \<Rightarrow> (wl_error + bytes) \<times> private_key_wallet" where
  "pk_unlock env w =
    (case unlock_read env (hd_try_decrypt env (pk_ciphertext w)) (pk_cache w) of
      (r, cache) \<Rightarrow> (r, w\<lparr>pk_cache := cache\<rparr>))"

definition signer_from_text :: "wallet_env \<Rightarrow> u64 \<Rightarrow> bytes \<Rightarrow> wl_error + signer" where
  "signer_from_text env chain secret =
    (case private_key_from_str env (string_from_secret secret) of
      None \<Rightarrow> Inl WlPanic
    | Some b \<Rightarrow> Inr (Local (we_key_address env b) chain))"

definition pk_build_signer :: "wallet_env \<Rightarrow> u64 \<Rightarrow> private_key_wallet \<Rightarrow> (wl_error + signer) \<times> private_key_wallet" where
  "pk_build_signer env chain w =
    (case pk_unlock env w of
      (Inl e, w') \<Rightarrow> (Inl e, w')
    | (Inr secret, w') \<Rightarrow> (signer_from_text env chain secret, w'))"

section \<open>Wallets\<close>

datatype wallet =
    Plaintext plaintext_wallet
  | JsonKeystore keystore_wallet
  | HDWallet hd_wallet
  | Impersonator impersonator
  | LedgerW ledger_wallet
  | PrivateKey private_key_wallet

fun wallet_type :: "wallet \<Rightarrow> string" where
  "wallet_type (Plaintext _) = ''Plaintext''"
| "wallet_type (JsonKeystore _) = ''JsonKeystore''"
| "wallet_type (HDWallet _) = ''HDWallet''"
| "wallet_type (Impersonator _) = ''Impersonator''"
| "wallet_type (LedgerW _) = ''Ledger''"
| "wallet_type (PrivateKey _) = ''PrivateKey''"

definition wallet_create :: "wallet_env \<Rightarrow> json \<Rightarrow> wl_error + wallet" where
  "wallet_create env params =
    (let t = (case as_str (json_get ''type'' params) of None \<Rightarrow> [] | Some t \<Rightarrow> t) in
      if t = ''plaintext'' then map_sum id Plaintext (plaintext_from_value env params)
      else if t = ''jsonKeystore'' then map_sum id JsonKeystore (jk_create env params)
      else if t = ''HDWallet'' then map_sum id HDWallet (hd_create env params)
      else if t = ''impersonator'' then map_sum id Impersonator (impersonator_from_value env params)
      else if t = ''ledger'' then map_sum id LedgerW (lg_create env params)
      else if t = ''privateKey'' then map_sum id PrivateKey (pk_create env params)
      else Inl (WlInvalidType t))"

fun wallet_name :: "wallet \<Rightarrow> string" where
  "wallet_name (Plaintext w) = pt_name w"
| "wallet_name (JsonKeystore w) = jk_name w"
| "wallet_name (HDWallet w) = hd_name w"
| "wallet_name (Impersonator w) = im_name w"
| "wallet_name (LedgerW w) = lg_name w"
| "wallet_name (PrivateKey w) = pk_name w"

fun current_address :: "wallet_env \<Rightarrow> wallet \<Rightarrow> wl_error + address" where
  "current_address env (Plaintext w) = pt_current_address env w"
| "current_address env (JsonKeystore w) = Inr (jk_address w)"
| "current_address env (HDWallet w) = Inr (snd (hd_current w))"
| "current_address env (Impersonator w) = im_current_address w"
| "current_address env (LedgerW w) = map_sum id snd (lg_current_entry w)"
| "current_address env (PrivateKey w) = Inr (pk_address w)"

fun current_path :: "wallet_env \<Rightarrow> wallet \<Rightarrow> wl_error + string" where
  "current_path env (Plaintext w) = Inr (pt_current_path w)"
| "current_path env (JsonKeystore w) = Inr (jk_path w)"
| "current_path env (HDWallet w) = Inr (fst (hd_current w))"
| "current_path env (Impersonator w) = Inr (show_dec (im_current w))"
| "current_path env (LedgerW w) = map_sum id fst (lg_current_entry w)"
| "current_path env (PrivateKey w) = Inr (we_show_address env (pk_address w))"

fun wallet_set_current_path :: "wallet_env \<Rightarrow> string \<Rightarrow> wallet \<Rightarrow> wl_error + wallet" where
  "wallet_set_current_path env path (Plaintext w) = map_sum id Plaintext (pt_set_current_path env path w)"
| "wallet_set_current_path env path (JsonKeystore w) = Inr (JsonKeystore w)"
| "wallet_set_current_path env path (HDWallet w) = map_sum id HDWallet (hd_set_current_path path w)"
| "wallet_set_current_path env path (Impersonator w) = map_sum id Impersonator (im_set_current_path path w)"
| "wallet_set_current_path env path (LedgerW w) = map_sum id LedgerW (lg_set_current_path path w)"
| "wallet_set_current_path env path (PrivateKey w) = Inr (PrivateKey w)"

fun all_addresses :: "wallet_env \<Rightarrow> wallet \<Rightarrow> wl_error + (string \<times> address) list" where
  "all_addresses env (Plaintext w) = derive_addresses env (pt_mnemonic w) (pt_derivation_path w) (pt_count w)"
| "all_addresses env (JsonKeystore w) = Inr [(''default'', jk_address w)]"
| "all_addresses env (HDWallet w) = Inr (hd_addresses w)"
| "all_addresses env (Impersonator w) = Inr (im_all_addresses w)"
| "all_addresses env (LedgerW w) = Inr (lg_addresses w)"
| "all_addresses env (PrivateKey w) = Inr [(we_show_address env (pk_address w), pk_address w)]"

fun get_address :: "wallet_env \<Rightarrow> string \<Rightarrow> wallet \<Rightarrow> wl_error + address" where
  "get_address env path (Plaintext w) = map_sum id signer_address (pt_build_signer env w 1 path)"
| "get_address env path (JsonKeystore w) = Inr (jk_address w)"
| "get_address env path (HDWallet w) = lookup_path (hd_addresses w) path"
| "get_address env path (Impersonator w) = im_get_address path w"
| "get_address env path (LedgerW w) = lookup_path (lg_addresses w) path"
| "get_address env path (PrivateKey w) = Inr (pk_address w)"

text \<open>An update returns the new wallet, and the old one with what it leaves in the shared cache.\<close>

definition updated :: "('w \<Rightarrow> wallet) \<Rightarrow> ('w \<Rightarrow> wallet) \<Rightarrow> (wl_error + unit) \<times> 'w \<Rightarrow> (wl_error + wallet) \<times> wallet" where
  "updated wrap old r = (case r of (Inl e, w) \<Rightarrow> (Inl e, old w) | (Inr _, w) \<Rightarrow> (Inr (wrap w), old w))"

definition rename :: "json \<Rightarrow> (string \<Rightarrow> 'w \<Rightarrow> 'w) \<Rightarrow> 'w \<Rightarrow> 'w" where
  "rename params upd w = (case as_str (json_get ''name'' params) of None \<Rightarrow> w | Some n \<Rightarrow> upd n w)"

fun wallet_update :: "wallet_env \<Rightarrow> json \<Rightarrow> wallet \<Rightarrow> (wl_error + wallet) \<times> wallet" where
  "wallet_update env params (Plaintext w) =
    (map_sum id Plaintext (plaintext_from_value env params), Plaintext w)"
| "wallet_update env params (JsonKeystore w) =
    (Inr (JsonKeystore (rename params (\<lambda>n w. w\<lparr>jk_name := n\<rparr>) w)), JsonKeystore w)"
| "wallet_update env params (HDWallet w) =
    updated HDWallet (\<lambda>w'. HDWallet (w\<lparr>hd_cache := hd_cache w'\<rparr>)) (hd_update env params w)"
| "wallet_update env params (Impersonator w) =
    updated Impersonator (\<lambda>_. Impersonator w) (im_update env params w)"
| "wallet_update env params (LedgerW w) =
    updated LedgerW (\<lambda>_. LedgerW w) (lg_update env params w)"
| "wallet_update env params (PrivateKey w) =
    (Inr (PrivateKey (rename params (\<lambda>n w. w\<lparr>pk_name := n\<rparr>) w)), PrivateKey w)"

fun build_signer :: "wallet_env \<Rightarrow> u64 \<Rightarrow> string \<Rightarrow> wallet \<Rightarrow> (wl_error + signer) \<times> wallet" where
  "build_signer env chain path (Plaintext w) = (pt_build_signer env w chain path, Plaintext w)"
| "build_signer env chain path (JsonKeystore w) = map_prod id JsonKeystore (jk_build_signer env chain w)"
| "build_signer env chain path (HDWallet w) = map_prod id HDWallet (hd_build_signer env chain path w)"
| "build_signer env chain path (Impersonator w) = (Inl WlCannotSign, Impersonator w)"
| "build_signer env chain path (LedgerW w) = (lg_build_signer env chain path w, LedgerW w)"
| "build_signer env chain path (PrivateKey w) = map_prod id PrivateKey (pk_build_signer env chain w)"

text \<open>The default method \<open>find\<close>: the first path with the address.\<close>

definition wallet_find :: "wallet_env \<Rightarrow> address \<Rightarrow> wallet \<Rightarrow> wl_error + string option" where
  "wallet_find env a w =
    map_sum id (\<lambda>addrs. map_option fst (List.find (\<lambda>(_, b). b = a) addrs)) (all_addresses env w)"

fun wallet_is_dev :: "wallet \<Rightarrow> bool" where
  "wallet_is_dev (Plaintext _) = True"
| "wallet_is_dev (Impersonator _) = True"
| "wallet_is_dev _ = False"

section \<open>Signing with the address that was asked for\<close>

text \<open>
  What every secret a wallet ever holds satisfies: it comes from its cache or from what it
  decrypts with a password that the user types.
\<close>

definition typed :: "wallet_env \<Rightarrow> string \<Rightarrow> bool" where
  "typed env pw = (\<exists>k j. dl_recv (we_dialog env) k = Some (DlgData j) \<and> as_str (json_get ''password'' j) = Some pw)"

lemma unlock_read_secret:
  assumes "unlock_read env f cache = (r, cache')"
    and "\<And>s. cache = Some s \<Longrightarrow> P s" and "\<And>pw s. typed env pw \<Longrightarrow> f pw = Some s \<Longrightarrow> P s"
  shows "(\<forall>s. r = Inr s \<longrightarrow> P s) \<and> (\<forall>s. cache' = Some s \<longrightarrow> P s)"
proof -
  obtain q c1 where u: "unlock_with_dialog (we_dialog env) f cache = (q, c1)" by fastforce
  have opened: "P s" if "unlock_attempts (we_dialog env) f 0 3 = Inr s" for s
    using unlock_attempts_Inr [OF that] assms(3) unfolding typed_def by blast
  have c1: "P s" if "c1 = Some s" for s
    using u that assms(2) opened
    by (auto simp: unlock_with_dialog_def split: option.splits sum.splits if_splits)
  show ?thesis
    using assms(1) u c1 by (auto simp: unlock_read_def split: sum.splits if_splits option.splits)
qed

text \<open>
  A wallet is consistent when its addresses are those of the key it holds, of the device or of the key file: the invariant that
  updating and signing keep, in surroundings where no password that is typed opens the stored secret as another one.
\<close>

definition reads_only :: "wallet_env \<Rightarrow> encrypted_data \<Rightarrow> string \<Rightarrow> bool" where
  "reads_only env d m = (\<forall>pw m'. typed env pw \<longrightarrow> decrypt (we_prims env) d pw = Inr m' \<longrightarrow> m' = m)"

definition caches_only :: "bytes option \<Rightarrow> string \<Rightarrow> bool" where
  "caches_only c m = (\<forall>s. c = Some s \<longrightarrow> string_from_secret s = m)"

definition hd_ok :: "wallet_env \<Rightarrow> hd_wallet \<Rightarrow> string \<Rightarrow> bool" where
  "hd_ok env w m = (reads_only env (hd_ciphertext w) m \<and> caches_only (hd_cache w) m
    \<and> (\<forall>(p, a) \<in> set (hd_addresses w). we_derive env m p = Inr a) \<and> hd_current w \<in> set (hd_addresses w))"

definition pk_ok :: "wallet_env \<Rightarrow> private_key_wallet \<Rightarrow> string \<Rightarrow> bool" where
  "pk_ok env w k = (reads_only env (pk_ciphertext w) k \<and> caches_only (pk_cache w) k
    \<and> (\<exists>b. private_key_from_str env k = Some b \<and> we_key_address env b = pk_address w))"

fun wallet_ok :: "wallet_env \<Rightarrow> wallet \<Rightarrow> bool" where
  "wallet_ok env (HDWallet w) = (\<exists>m. hd_ok env w m)"
| "wallet_ok env (PrivateKey w) = (\<exists>k. pk_ok env w k)"
| "wallet_ok env (JsonKeystore w) =
    ((\<forall>pw k. typed env pw \<longrightarrow> we_keystore env (jk_path w) pw = Some k \<longrightarrow> we_key_address env k = jk_address w)
     \<and> (\<forall>k. jk_cache w = Some k \<longrightarrow> we_key_address env k = jk_address w))"
| "wallet_ok env (LedgerW w) = (\<forall>(p, a) \<in> set (lg_addresses w). we_ledger env p = Inr a)"
| "wallet_ok env _ = True"

lemma derive_from_set:
  "derive_from env m p is = Inr addrs \<Longrightarrow>
    map fst addrs = map (child_path p) is \<and> (\<forall>(q, a) \<in> set addrs. we_derive env m q = Inr a)"
  by (induction "is" arbitrary: addrs) (auto simp: map_sum_def split: sum.splits)

lemma derive_addresses_set:
  assumes "derive_addresses env m p n = Inr addrs"
  shows "map fst addrs = map (child_path p) [0..<n]" "\<forall>(q, a) \<in> set addrs. we_derive env m q = Inr a"
  using derive_from_set [of env m p "[0..<n]" addrs] assms by (simp_all add: derive_addresses_def)

lemma ledger_derive_set:
  "ledger_derive_multiple env ps = Inr addrs \<Longrightarrow> \<forall>(p, a) \<in> set addrs. we_ledger env p = Inr a"
  by (induction ps arbitrary: addrs) (auto simp: map_sum_def split: sum.splits)

lemma hd_try_decrypt_only:
  "reads_only env d m \<Longrightarrow> typed env pw \<Longrightarrow> hd_try_decrypt env d pw = Some s \<Longrightarrow> string_from_secret s = m"
  by (auto simp: hd_try_decrypt_def reads_only_def split: sum.splits)

lemma hd_unlock_ok:
  assumes "hd_ok env w m" and "hd_unlock env w = (r, w')"
  shows "hd_ok env w' m" and "r = Inr s \<Longrightarrow> string_from_secret s = m"
    and "hd_addresses w' = hd_addresses w" "hd_derivation_path w' = hd_derivation_path w" "hd_count w' = hd_count w"
    and "w' = w\<lparr>hd_cache := hd_cache w'\<rparr>"
proof -
  obtain c where u: "unlock_read env (hd_try_decrypt env (hd_ciphertext w)) (hd_cache w) = (r, c)"
    and w': "w' = w\<lparr>hd_cache := c\<rparr>"
    using assms(2) by (auto simp: hd_unlock_def split: prod.splits)
  have "(\<forall>s. r = Inr s \<longrightarrow> string_from_secret s = m) \<and> (\<forall>s. c = Some s \<longrightarrow> string_from_secret s = m)"
    using assms(1) by (intro unlock_read_secret [OF u])
      (auto simp: hd_ok_def caches_only_def intro: hd_try_decrypt_only)
  then show "hd_ok env w' m" "r = Inr s \<Longrightarrow> string_from_secret s = m"
    using assms(1) by (auto simp: w' hd_ok_def caches_only_def)
qed (use assms(2) in \<open>auto simp: hd_unlock_def split: prod.splits\<close>)

lemma update_derived_ok:
  assumes "hd_ok env w m"
  shows "hd_ok env (snd (update_derived_addresses env w)) m"
proof -
  obtain r w' where u: "hd_unlock env w = (r, w')" by fastforce
  note ok = hd_unlock_ok [OF assms u]
  show ?thesis
  proof (cases r)
    case (Inl e)
    with ok(1) show ?thesis by (simp add: update_derived_addresses_def u)
  next
    case (Inr s)
    then have s: "string_from_secret s = m" by (rule ok(2))
    show ?thesis
    proof (cases "derive_addresses env m (hd_derivation_path w') (hd_count w')")
      case (Inl e)
      with ok(1) s \<open>r = Inr s\<close> show ?thesis by (simp add: update_derived_addresses_def u)
    next
      case (Inr addrs)
      then show ?thesis
        using ok(1) s \<open>r = Inr s\<close> derive_addresses_set(2) [OF Inr]
        by (cases addrs) (auto simp: update_derived_addresses_def u hd_ok_def)
    qed
  qed
qed

lemma hd_ok_frame [simp]:
  "hd_ok env (w\<lparr>hd_name := n\<rparr>) m = hd_ok env w m"
  "hd_ok env (w\<lparr>hd_derivation_path := p\<rparr>) m = hd_ok env w m"
  "hd_ok env (w\<lparr>hd_count := c\<rparr>) m = hd_ok env w m"
  by (simp_all add: hd_ok_def)

lemma hd_update_ok: "hd_ok env w m \<Longrightarrow> hd_ok env (snd (hd_update env params w)) m"
proof (rule keepsD [of "\<lambda>w. hd_ok env w m"])
  have derived: "keeps (\<lambda>w. hd_ok env w m) (update_derived_addresses env)"
    by (simp add: keeps_def update_derived_ok)
  have path: "keeps (\<lambda>w. hd_ok env w m) (update_derivation_path env p)" for p
    unfolding update_derivation_path_def by (auto intro!: keeps_intros derived)
  have count: "keeps (\<lambda>w. hd_ok env w m) (update_count env c)" for c
    unfolding update_count_def by (auto intro!: keeps_intros derived)
  show "keeps (\<lambda>w. hd_ok env w m) (hd_update env params)"
    unfolding hd_update_def
    by (auto intro!: keeps_intros path count  split: option.split)
qed

lemma lg_update_ok:
  "wallet_ok env (LedgerW w) \<Longrightarrow> wallet_ok env (LedgerW (snd (lg_update env params w)))"
proof (rule keepsD [of "\<lambda>w. wallet_ok env (LedgerW w)"])
  show "keeps (\<lambda>w. wallet_ok env (LedgerW w)) (lg_update env params)"
    unfolding lg_update_def
    by (rule keeps_run_seq)
       (auto simp: keeps_def dest: ledger_derive_set split: option.splits sum.splits)
qed

lemma map_sum_Inr: "map_sum f g x = Inr y \<longleftrightarrow> (\<exists>z. x = Inr z \<and> y = g z)"
  by (cases x) auto

lemma updated_result:
  "updated f g r = (Inr v, old) \<longleftrightarrow> fst r = Inr () \<and> v = f (snd r) \<and> old = g (snd r)"
  by (cases r) (auto simp: updated_def split: sum.splits)

lemma snd_updated: "snd (updated f g r) = g (snd r)"
  by (cases r) (auto simp: updated_def split: sum.splits)

lemma pk_ok_frame [simp]: "pk_ok env (p\<lparr>pk_name := n\<rparr>) = pk_ok env p"
  by (simp add: pk_ok_def fun_eq_iff)

lemma wallet_update_ok:
  assumes "wallet_ok env w" and "wallet_update env params w = (r, old)"
  shows "wallet_ok env old" and "r = Inr v \<Longrightarrow> wallet_ok env v"
proof -
  have both: "wallet_ok env old \<and> (\<forall>v. r = Inr v \<longrightarrow> wallet_ok env v)"
  proof (cases w)
    case (HDWallet h)
    with assms(1) obtain m where m: "hd_ok env h m" by auto
    note ok = hd_update_ok [OF m, of params]
    then have "hd_ok env (h\<lparr>hd_cache := hd_cache (snd (hd_update env params h))\<rparr>) m"
      using m by (simp add: hd_ok_def)
    then show ?thesis
      using assms(2) HDWallet ok by (cases "hd_update env params h") (auto simp: updated_def split: sum.splits)
  next
    case (LedgerW l)
    then show ?thesis
      using assms lg_update_ok [of env l params]
      by (cases "lg_update env params l") (auto simp: updated_def simp del: wallet_ok.simps(4) split: sum.splits)
  next
    case (PrivateKey p)
    with assms show ?thesis by (auto simp: rename_def split: option.splits)
  next
    case (JsonKeystore k)
    with assms show ?thesis by (auto simp: rename_def split: option.splits)
  next
    case (Impersonator i)
    with assms show ?thesis
      by (cases "im_update env params i") (auto simp: updated_def split: sum.splits)
  next
    case (Plaintext p)
    with assms show ?thesis by (auto simp: map_sum_Inr)
  qed
  then show "wallet_ok env old" "r = Inr v \<Longrightarrow> wallet_ok env v" by blast+
qed

lemma found_entry:
  assumes "wallet_find env a w = Inr (Some path)"
  obtains addrs where "all_addresses env w = Inr addrs" "(path, a) \<in> set addrs"
proof -
  obtain addrs where addrs: "all_addresses env w = Inr addrs"
    using assms by (cases "all_addresses env w") (simp_all add: wallet_find_def)
  let ?found = "List.find (\<lambda>(_, b). b = a) addrs"
  have "map_option fst ?found = Some path"
    using assms addrs by (simp add: wallet_find_def)
  then obtain e where e: "?found = Some e" "fst e = path" by (cases ?found) simp_all
  from find_Some_set [OF e(1)] e(2) addrs that show thesis by (cases e) auto
qed

lemma sign_found:
  assumes "wallet_ok env w" and "wallet_find env a w = Inr (Some path)"
    and "build_signer env chain path w = (Inr s, w')"
  shows "signer_address s = a \<and> signer_chain_id s = chain \<and> wallet_ok env w'"
proof -
  obtain addrs where addrs: "all_addresses env w = Inr addrs" "(path, a) \<in> set addrs"
    using found_entry [OF assms(2)] .
  show ?thesis
  proof (cases w)
    case (Plaintext p)
    with addrs have "we_derive env (pt_mnemonic p) path = Inr a"
      using derive_addresses_set(2) by fastforce
    with Plaintext assms(3) show ?thesis by (auto simp: pt_build_signer_def)
  next
    case (HDWallet h)
    with assms(1) obtain m where m: "hd_ok env h m" by auto
    with addrs HDWallet have a: "we_derive env m path = Inr a" by (auto simp: hd_ok_def)
    obtain r h' where u: "hd_unlock env h = (r, h')" by fastforce
    note ok = hd_unlock_ok [OF m u]
    from assms(3) HDWallet u a ok show ?thesis
      by (cases r) (auto simp: hd_build_signer_def split: if_splits)
  next
    case (Impersonator i)
    with assms(3) show ?thesis by simp
  next
    case (LedgerW l)
    with assms(1) addrs have "we_ledger env path = Inr a" by auto
    with LedgerW assms(1,3) show ?thesis by (auto simp: lg_build_signer_def)
  next
    case (JsonKeystore k)
    obtain r c where u: "unlock_read env (we_keystore env (jk_path k)) (jk_cache k) = (r, c)" by fastforce
    have "(\<forall>s. r = Inr s \<longrightarrow> we_key_address env s = jk_address k) \<and> (\<forall>s. c = Some s \<longrightarrow> we_key_address env s = jk_address k)"
      using assms(1) JsonKeystore by (intro unlock_read_secret [OF u]) auto
    with assms JsonKeystore u addrs show ?thesis
      by (cases r) (auto simp: jk_build_signer_def jk_unlock_def signer_from_bytes_def split: if_splits)
  next
    case (PrivateKey p)
    with assms(1) obtain k where k: "pk_ok env p k" by auto
    obtain r c where u: "unlock_read env (hd_try_decrypt env (pk_ciphertext p)) (pk_cache p) = (r, c)" by fastforce
    have secret: "(\<forall>s. r = Inr s \<longrightarrow> string_from_secret s = k) \<and> (\<forall>s. c = Some s \<longrightarrow> string_from_secret s = k)"
      using k by (intro unlock_read_secret [OF u]) (auto simp: pk_ok_def caches_only_def intro: hd_try_decrypt_only)
    then have "wallet_ok env (PrivateKey (p\<lparr>pk_cache := c\<rparr>))" using k by (auto simp: pk_ok_def caches_only_def intro!: exI [of _ k])
    moreover from assms(3) PrivateKey u obtain sec where "r = Inr sec" "signer_from_text env chain sec = Inr s"
      and w': "w' = PrivateKey (p\<lparr>pk_cache := c\<rparr>)"
      by (cases r) (auto simp: pk_build_signer_def pk_unlock_def)
    ultimately show ?thesis
      using secret k addrs PrivateKey
      by (auto simp: signer_from_text_def pk_ok_def simp del: wallet_ok.simps split: option.splits)
  qed
qed

text \<open>A wallet after a sequence of updates, each with its own environment; a failed one leaves the old wallet.\<close>

fun updates :: "(wallet_env \<times> json) list \<Rightarrow> wallet \<Rightarrow> wallet" where
  "updates [] w = w"
| "updates ((env, params) # us) w =
    (case wallet_update env params w of
      (Inl _, old) \<Rightarrow> updates us old
    | (Inr v, _) \<Rightarrow> updates us v)"

text \<open>
  Two environments with the same libraries (derivation, key parsing, the cipher); they may differ in what the user
  types, in the device that is plugged in, in the key files, in the random bytes and in the disk.
\<close>

definition same_library :: "wallet_env \<Rightarrow> wallet_env \<Rightarrow> bool" where
  "same_library env env' = (we_derive env' = we_derive env \<and> we_hex32 env' = we_hex32 env \<and> we_valid_key env' = we_valid_key env
    \<and> we_key_address env' = we_key_address env \<and> we_prims env' = we_prims env)"

text \<open>The secret behind a wallet that stores one: its mnemonic, or the text of its key.\<close>

fun holds :: "string \<Rightarrow> wallet_env \<Rightarrow> wallet \<Rightarrow> bool" where
  "holds m env (HDWallet w) = hd_ok env w m"
| "holds m env (PrivateKey w) = pk_ok env w m"
| "holds m env _ = True"

fun stored_ciphertext :: "wallet \<Rightarrow> encrypted_data option" where
  "stored_ciphertext (HDWallet w) = Some (hd_ciphertext w)"
| "stored_ciphertext (PrivateKey w) = Some (pk_ciphertext w)"
| "stored_ciphertext _ = None"

lemma holds_elsewhere:
  assumes "holds m env w" "same_library env env'" "\<And>d. stored_ciphertext w = Some d \<Longrightarrow> reads_only env' d m"
  shows "holds m env' w"
proof -
  have "private_key_from_str env' k = private_key_from_str env k" for k
    using assms(2) by (simp add: same_library_def private_key_from_str_def split: option.split)
  with assms show ?thesis by (cases w) (simp_all add: hd_ok_def pk_ok_def same_library_def)
qed

lemma hd_update_ciphertext: "hd_ciphertext (snd (hd_update env params w)) = hd_ciphertext w"
proof -
  have unlock: "hd_ciphertext (snd (hd_unlock env v)) = hd_ciphertext v" for v
    by (simp add: hd_unlock_def split: prod.split)
  have derived: "keeps (\<lambda>v. hd_ciphertext v = hd_ciphertext w) (update_derived_addresses env)"
    unfolding keeps_def
  proof (intro allI impI)
    fix v :: hd_wallet assume "hd_ciphertext v = hd_ciphertext w"
    moreover obtain r v' where u: "hd_unlock env v = (r, v')" by fastforce
    ultimately have "hd_ciphertext v' = hd_ciphertext w" using unlock [of v] by simp
    with u show "hd_ciphertext (snd (update_derived_addresses env v)) = hd_ciphertext w"
      by (auto simp: update_derived_addresses_def split: sum.splits list.splits)
  qed
  have "keeps (\<lambda>v. hd_ciphertext v = hd_ciphertext w) (hd_update env params)"
    unfolding hd_update_def update_derivation_path_def update_count_def
    by (auto intro!: keeps_intros derived split: option.split)
  then show ?thesis by (simp add: keeps_def)
qed

lemma wallet_update_holds:
  assumes "holds m env w" and "wallet_update env params w = (r, old)"
  shows "holds m env old \<and> stored_ciphertext old = stored_ciphertext w"
    and "r = Inr v \<Longrightarrow> holds m env v \<and> stored_ciphertext v = stored_ciphertext w"
proof -
  have both: "holds m env old \<and> stored_ciphertext old = stored_ciphertext w
      \<and> (\<forall>v. r = Inr v \<longrightarrow> holds m env v \<and> stored_ciphertext v = stored_ciphertext w)"
  proof (cases w)
    case (HDWallet h)
    with assms(1) have m: "hd_ok env h m" by simp
    note ok = hd_update_ok [OF m, of params]
    then have "hd_ok env (h\<lparr>hd_cache := hd_cache (snd (hd_update env params h))\<rparr>) m"
      using m by (simp add: hd_ok_def)
    then show ?thesis
      using assms(2) HDWallet ok hd_update_ciphertext [of env params h]
      by (cases "hd_update env params h") (auto simp: updated_def split: sum.splits)
  next
    case (LedgerW l)
    then show ?thesis
      using assms by (cases "lg_update env params l") (auto simp: updated_def split: sum.splits)
  next
    case (Impersonator i)
    with assms show ?thesis
      by (cases "im_update env params i") (auto simp: updated_def split: sum.splits)
  qed (use assms in \<open>auto simp: rename_def map_sum_Inr split: option.splits\<close>)
  then show "holds m env old \<and> stored_ciphertext old = stored_ciphertext w"
    "r = Inr v \<Longrightarrow> holds m env v \<and> stored_ciphertext v = stored_ciphertext w" by blast+
qed

lemma updates_hold:
  assumes "holds m env w" "\<forall>u \<in> set us. same_library env (fst u)"
    and "\<And>d u. stored_ciphertext w = Some d \<Longrightarrow> u \<in> set us \<Longrightarrow> reads_only (fst u) d m"
    and "\<And>d. stored_ciphertext w = Some d \<Longrightarrow> reads_only env d m"
  shows "holds m env (updates us w) \<and> stored_ciphertext (updates us w) = stored_ciphertext w"
  using assms
proof (induction us arbitrary: w)
  case (Cons u us)
  obtain env' params where u: "u = (env', params)" by (cases u)
  obtain r old where up: "wallet_update env' params w = (r, old)" by fastforce
  have lib: "same_library env env'" "same_library env' env" using Cons.prems(2) u by (simp_all add: same_library_def)
  have "reads_only env' d m" if "stored_ciphertext w = Some d" for d
    using Cons.prems(3) [OF that, of u] u by simp
  then have "holds m env' w" using holds_elsewhere [OF Cons.prems(1) lib(1)] by blast
  note kept = wallet_update_holds [OF this up]
  have returns: "holds m env x" if "holds m env' x" "stored_ciphertext x = stored_ciphertext w" for x
    using holds_elsewhere [OF that(1) lib(2)] that(2) Cons.prems(4) by auto
  have step: "holds m env (updates us x) \<and> stored_ciphertext (updates us x) = stored_ciphertext w"
    if "holds m env' x \<and> stored_ciphertext x = stored_ciphertext w" for x
    using Cons.IH [of x] returns [of x] that Cons.prems(2-4) by simp
  show ?case
  proof (cases r)
    case (Inl e)
    with step [OF kept(1)] u up show ?thesis by simp
  next
    case (Inr v)
    with step [OF kept(2)] u up show ?thesis by simp
  qed
qed simp

text \<open>
  A password that is typed later is the one the wallet was created with, or one that is refused when it is tried.
\<close>

definition password_fits :: "wallet_env \<Rightarrow> json \<Rightarrow> wallet \<Rightarrow> string \<Rightarrow> bool" where
  "password_fits env params w pw = (as_str (json_get ''password'' params) = Some pw
    \<or> (\<forall>d. stored_ciphertext w = Some d \<longrightarrow> hd_try_decrypt env d pw = None))"

lemma encrypt_reads_only:
  assumes "crypto_ok (we_prims env0)" "encrypt (we_prims env0) salt nonce m pw = Inr d" "same_library env0 env"
    and "\<And>pw'. typed env pw' \<Longrightarrow> pw' = pw \<or> hd_try_decrypt env0 d pw' = None"
  shows "reads_only env d m"
  unfolding reads_only_def
proof (intro allI impI)
  fix pw' m'
  assume "typed env pw'" and dec: "decrypt (we_prims env) d pw' = Inr m'"
  moreover have "we_prims env = we_prims env0" using assms(3) by (simp add: same_library_def)
  ultimately have "pw' = pw" using assms(4) [of pw'] by (auto simp: hd_try_decrypt_def)
  with dec \<open>we_prims env = we_prims env0\<close> decrypt_encrypt [OF assms(1,2)] show "m' = m" by simp
qed

text \<open>What a created wallet holds, in any surroundings with the same libraries in which the passwords fit.\<close>

lemma hd_create_holds:
  assumes "crypto_ok (we_prims env0)" and "hd_create env0 params = Inr w"
  obtains m where "\<And>env. same_library env0 env \<Longrightarrow> (\<And>pw. typed env pw \<Longrightarrow> password_fits env0 params (HDWallet w) pw) \<Longrightarrow> hd_ok env w m"
proof -
  from assms(2) obtain m path pw name count where h: "hd_from_params env0 m path pw name count = Inr w"
    and pw: "as_str (json_get ''password'' params) = Some pw"
    by (auto simp: hd_create_def split: option.splits)
  from h obtain first rest d where addrs: "derive_addresses env0 m path count = Inr (first # rest)"
    and d: "encrypt (we_prims env0) (we_salt env0) (we_nonce env0) m pw = Inr d"
    and w: "w = \<lparr>hd_name = name, hd_derivation_path = path, hd_count = count, hd_current = first,
      hd_addresses = first # rest, hd_ciphertext = d, hd_cache = None\<rparr>"
    by (auto simp: hd_from_params_def split: sum.splits list.splits)
  have "hd_ok env w m" if lib: "same_library env0 env" and fits: "\<And>pw. typed env pw \<Longrightarrow> password_fits env0 params (HDWallet w) pw" for env
  proof -
    have "pw' = pw \<or> hd_try_decrypt env0 d pw' = None" if "typed env pw'" for pw'
      using fits [OF that] pw by (auto simp: password_fits_def w)
    then have "reads_only env d m" by (rule encrypt_reads_only [OF assms(1) d lib])
    with derive_addresses_set(2) [OF addrs] lib show ?thesis
      by (simp add: w hd_ok_def caches_only_def same_library_def)
  qed
  then show thesis by (rule that)
qed

lemma pk_create_holds:
  assumes "crypto_ok (we_prims env0)" and "pk_create env0 params = Inr w"
  obtains k where "\<And>env. same_library env0 env \<Longrightarrow> (\<And>pw. typed env pw \<Longrightarrow> password_fits env0 params (PrivateKey w) pw) \<Longrightarrow> pk_ok env w k"
proof -
  from assms(2) obtain raw pw name where h: "pk_from_params env0 raw pw name = Inr w"
    and pw: "as_str (json_get ''password'' params) = Some pw"
    by (auto simp: pk_create_def split: option.splits)
  from h obtain key b d where b: "private_key_from_str env0 key = Some b"
    and d: "encrypt (we_prims env0) (we_salt env0) (we_nonce env0) key pw = Inr d"
    and w: "w = \<lparr>pk_name = name, pk_address = we_key_address env0 b, pk_ciphertext = d, pk_cache = None\<rparr>"
    by (auto simp: pk_from_params_def Let_def split: option.splits sum.splits)
  have "pk_ok env w key" if lib: "same_library env0 env" and fits: "\<And>pw. typed env pw \<Longrightarrow> password_fits env0 params (PrivateKey w) pw" for env
  proof -
    have "pw' = pw \<or> hd_try_decrypt env0 d pw' = None" if "typed env pw'" for pw'
      using fits [OF that] pw by (auto simp: password_fits_def w)
    then have "reads_only env d key" by (rule encrypt_reads_only [OF assms(1) d lib])
    moreover have "private_key_from_str env key = Some b"
      using lib b by (auto simp: same_library_def private_key_from_str_def split: option.splits)
    ultimately show ?thesis using lib by (simp add: w pk_ok_def caches_only_def same_library_def)
  qed
  then show thesis by (rule that)
qed

lemma wallet_create_holds:
  assumes "crypto_ok (we_prims env0)" and "wallet_create env0 params = Inr w0"
  obtains m where "\<And>env. same_library env0 env \<Longrightarrow> (\<And>pw. typed env pw \<Longrightarrow> password_fits env0 params w0 pw) \<Longrightarrow> holds m env w0"
proof (cases w0)
  case (HDWallet h)
  with assms(2) have "hd_create env0 params = Inr h" by (auto simp: wallet_create_def Let_def map_sum_Inr split: if_splits)
  from hd_create_holds [OF assms(1) this] HDWallet that show ?thesis by (metis holds.simps(1))
next
  case (PrivateKey p)
  with assms(2) have "pk_create env0 params = Inr p" by (auto simp: wallet_create_def Let_def map_sum_Inr split: if_splits)
  from pk_create_holds [OF assms(1) this] PrivateKey that show ?thesis by (metis holds.simps(2))
qed (use that in simp_all)

lemma created_wallet_holds:
  assumes "crypto_ok (we_prims env0)" and "wallet_create env0 params = Inr w0"
    and "\<forall>e \<in> insert env (fst ` set us). same_library env0 e \<and> (\<forall>pw. typed e pw \<longrightarrow> password_fits env0 params w0 pw)"
  obtains m where "holds m env (updates us w0)"
proof -
  obtain m where m: "\<And>e. same_library env0 e \<Longrightarrow> (\<And>pw. typed e pw \<Longrightarrow> password_fits env0 params w0 pw) \<Longrightarrow> holds m e w0"
    using wallet_create_holds [OF assms(1,2)] by blast
  have here: "holds m env w0" using m assms(3) by simp
  have lib: "\<forall>u \<in> set us. same_library env (fst u)" using assms(3) by (auto simp: same_library_def)
  have reads: "reads_only e d m" if "holds m e w0" "stored_ciphertext w0 = Some d" for e d
    using that by (cases w0) (auto simp: hd_ok_def pk_ok_def)
  have "holds m (fst u) w0" if "u \<in> set us" for u using m assms(3) that by simp
  with updates_hold [OF here lib] reads here that show thesis by blast
qed

lemma jk_signs:
  assumes "jk_build_signer env chain k = (Inr s, k')"
  shows "\<exists>key. (jk_cache k = Some key \<or> (\<exists>pw. typed env pw \<and> we_keystore env (jk_path k) pw = Some key))
    \<and> s = Local (we_key_address env key) chain"
proof -
  obtain r c where u: "unlock_read env (we_keystore env (jk_path k)) (jk_cache k) = (r, c)" by fastforce
  let ?P = "\<lambda>key. jk_cache k = Some key \<or> (\<exists>pw. typed env pw \<and> we_keystore env (jk_path k) pw = Some key)"
  have "(\<forall>key. r = Inr key \<longrightarrow> ?P key) \<and> (\<forall>key. c = Some key \<longrightarrow> ?P key)"
    by (intro unlock_read_secret [OF u]) auto
  with assms u show ?thesis
    by (cases r) (auto simp: jk_build_signer_def jk_unlock_def signer_from_bytes_def split: if_splits)
qed

text \<open>C6. A wallet created from parameters and updated any number of times signs for the address that was asked for: when
  the address is found under a path and a signer for that path is built, the signer is for that chain, and a
  plaintext, HD or private key wallet signs with that very address, whatever devices and key files there are. A Ledger wallet signs with the
  address that the device plugged in now has under the path, and a key file wallet with the key it holds in
  its cache or the one the file gives now for a password that is typed: the address asked for, as long as the device and the file are
  still the ones they were. An impersonator never signs. The libraries are the same all along (derivation, parsing of keys, the cipher, which opens what
  it sealed), and every password typed is the one given at creation or is refused.\<close>

theorem signs_with_found_address:
  assumes "crypto_ok (we_prims env0)" and "wallet_create env0 params = Inr w0"
    and "\<forall>e \<in> insert env (fst ` set us). same_library env0 e \<and> (\<forall>pw. typed e pw \<longrightarrow> password_fits env0 params w0 pw)"
    and "wallet_find env a (updates us w0) = Inr (Some path)"
    and "build_signer env chain path (updates us w0) = (Inr s, w')"
  shows "signer_chain_id s = chain \<and> (case updates us w0 of
      LedgerW _ \<Rightarrow> we_ledger env path = Inr (signer_address s)
    | JsonKeystore k \<Rightarrow> jk_address k = a \<and> (\<exists>key. signer_address s = we_key_address env key \<and> (jk_cache k = Some key
        \<or> (\<exists>pw. typed env pw \<and> we_keystore env (jk_path k) pw = Some key)))
    | Impersonator _ \<Rightarrow> False
    | _ \<Rightarrow> signer_address s = a)"
proof -
  obtain m where m: "holds m env (updates us w0)" using created_wallet_holds [OF assms(1-3)] .
  have soft: "signer_address s = a \<and> signer_chain_id s = chain" if "wallet_ok env (updates us w0)"
    using sign_found [OF that assms(4,5)] by blast
  show ?thesis
  proof (cases "updates us w0")
    case (JsonKeystore k)
    with assms(4) have "jk_address k = a" by (auto simp: wallet_find_def split: if_splits)
    moreover from assms(5) JsonKeystore obtain k' where "jk_build_signer env chain k = (Inr s, k')"
      by (cases "jk_build_signer env chain k") auto
    from jk_signs [OF this] show ?thesis using JsonKeystore calculation by auto
  next
    case (LedgerW l)
    from assms(5) have "lg_build_signer env chain path l = Inr s" by (simp add: LedgerW)
    then show ?thesis unfolding LedgerW by (auto simp: lg_build_signer_def map_sum_Inr)
  next
    case (Impersonator i)
    with assms(5) show ?thesis by simp
  qed (use m soft in auto)
qed

definition toy_env :: wallet_env where
  "toy_env = \<lparr>
    we_derive = (\<lambda>m p. Inr (of_nat (length m + 100 * length p))),
    we_path = Some,
    we_ledger = (\<lambda>p. Inl ''no device''),
    we_keystore = (\<lambda>p pw. None),
    we_hex32 = (\<lambda>s. None),
    we_valid_key = (\<lambda>b. True),
    we_key_address = (\<lambda>b. 0),
    we_show_address = (\<lambda>a. show_hex (unat a)),
    we_read_address = (\<lambda>s. None),
    we_prims = toy_primitives,
    we_salt = [],
    we_nonce = [],
    we_dialog = \<lparr>dl_open = True, dl_recv = (\<lambda>_. Some (DlgData (JObj [(''password'', JStr ''pw'')]))), dl_send = (\<lambda>_. True)\<rparr>,
    we_expires = False,
    we_io = IoOk\<rparr>"

definition hd_params :: json where
  "hd_params = JObj [(''type'', JStr ''HDWallet''), (''mnemonic'', JStr ''test''), (''derivationPath'', JStr ''m''),
     (''password'', JStr ''pw''), (''name'', JStr ''hd''), (''count'', JInt 1)]"

definition toy_hd :: hd_wallet where
  "toy_hd = \<lparr>hd_name = ''hd'', hd_derivation_path = ''m'', hd_count = 1, hd_current = (''m/0'', 304),
     hd_addresses = [(''m/0'', 304)],
     hd_ciphertext = \<lparr>ed_salt = [], ed_nonce = [],
       ed_ciphertext = take 32 (map byte_of_char ''pw'' @ replicate 32 0) @ map byte_of_char ''test''\<rparr>,
     hd_cache = None\<rparr>"

lemma toy_derive: "derive_addresses toy_env ''test'' ''m'' 1 = Inr [(''m/0'', 304)]"
  by (simp add: derive_addresses_def toy_env_def child_path_def show_dec_def show_radix.simps digit_char_def)

lemma toy_created: "wallet_create toy_env hd_params = Inr (HDWallet toy_hd)"
proof -
  have "json_usize (JInt 1) = Some 1" by (simp add: json_usize_def)
  moreover have "hd_from_params toy_env ''test'' ''m'' ''pw'' ''hd'' 1 = Inr toy_hd"
    unfolding hd_from_params_def toy_derive
    by (simp add: encrypt_def password_to_key_def toy_env_def toy_primitives_def toy_hd_def)
  ultimately show ?thesis by (simp add: wallet_create_def hd_create_def hd_params_def)
qed

theorem signs_with_found_address_witness:
  "\<exists>s w'. wallet_create toy_env hd_params = Inr (HDWallet toy_hd)
    \<and> build_signer toy_env 1 ''m/0'' (updates [(toy_env, JObj [(''name'', JStr ''x'')])] (HDWallet toy_hd)) = (Inr s, w')
    \<and> signer_address s = 304 \<and> signer_chain_id s = 1"
proof -
  let ?us = "[(toy_env, JObj [(''name'', JStr ''x'')])]"
  have w: "updates ?us (HDWallet toy_hd) = HDWallet (toy_hd\<lparr>hd_name := ''x''\<rparr>)"
    by (simp add: updated_def hd_update_def)
  have find: "wallet_find toy_env 304 (updates ?us (HDWallet toy_hd)) = Inr (Some ''m/0'')"
    unfolding w by (simp add: wallet_find_def toy_hd_def)
  have "decrypt toy_primitives (hd_ciphertext toy_hd) ''pw'' = Inr ''test''"
    by (simp add: decrypt_def password_to_key_def toy_primitives_def toy_hd_def comp_def)
  then obtain s w' where sign: "build_signer toy_env 1 ''m/0'' (updates ?us (HDWallet toy_hd)) = (Inr s, w')"
    unfolding w
    by (simp add: hd_build_signer_def hd_unlock_def unlock_read_def unlock_with_dialog_def hd_try_decrypt_def
        toy_env_def toy_hd_def numeral_3_eq_3)
  have fits: "\<forall>e \<in> insert toy_env (fst ` set ?us). same_library toy_env e
      \<and> (\<forall>pw. typed e pw \<longrightarrow> password_fits toy_env hd_params (HDWallet toy_hd) pw)"
    by (auto simp: same_library_def typed_def toy_env_def password_fits_def hd_params_def)
  have "crypto_ok (we_prims toy_env)" using toy_ok by (simp add: toy_env_def)
  from signs_with_found_address [OF this toy_created fits find sign] have "signer_address s = 304 \<and> signer_chain_id s = 1"
    unfolding w by simp
  with sign toy_created show ?thesis by blast
qed

text \<open>A Ledger wallet signs for another address when another device is plugged in.\<close>

lemma other_device_signs:
  assumes "we_ledger env ''m/0'' = Inr b"
  shows "build_signer env chain ''m/0'' (LedgerW \<lparr>lg_name = n, lg_addresses = [(''m/0'', a)], lg_current = 0\<rparr>)
      = (Inr (Ledger b chain), LedgerW \<lparr>lg_name = n, lg_addresses = [(''m/0'', a)], lg_current = 0\<rparr>)"
    "wallet_find env a (LedgerW \<lparr>lg_name = n, lg_addresses = [(''m/0'', a)], lg_current = 0\<rparr>) = Inr (Some ''m/0'')"
  using assms by (simp_all add: lg_build_signer_def wallet_find_def)

section \<open>Updating an HD wallet\<close>

definition hd_derived :: "wallet_env \<Rightarrow> string \<Rightarrow> hd_wallet \<Rightarrow> bool" where
  "hd_derived env m w = (derive_addresses env m (hd_derivation_path w) (hd_count w) = Inr (hd_addresses w)
    \<and> hd_addresses w \<noteq> [] \<and> hd_current w = hd (hd_addresses w))"

lemma update_derived_derives:
  assumes "hd_ok env w m" and "update_derived_addresses env w = (Inr (), w')"
  shows "hd_derived env m w' \<and> hd_ok env w' m \<and> hd_derivation_path w' = hd_derivation_path w \<and> hd_count w' = hd_count w"
proof -
  obtain r w1 where u: "hd_unlock env w = (r, w1)" by fastforce
  note ok = hd_unlock_ok [OF assms(1) u]
  have "hd_ok env w' m" using update_derived_ok [OF assms(1)] assms(2) by (metis snd_conv)
  moreover obtain s where r: "r = Inr s"
    using assms(2) u by (cases r) (simp_all add: update_derived_addresses_def)
  moreover have "string_from_secret s = m" using ok(2) r by blast
  ultimately show ?thesis
    using assms(2) u ok(3-5)
    by (auto simp: update_derived_addresses_def hd_derived_def split: sum.splits list.splits)
qed

text \<open>The statements of an update after the name, each of which may derive the addresses anew.\<close>

definition path_step :: "wallet_env \<Rightarrow> json \<Rightarrow> (hd_wallet, wl_error, unit) handler" where
  "path_step env params = (case as_str (json_get ''derivationPath'' params) of
     None \<Rightarrow> step id | Some p \<Rightarrow> update_derivation_path env p)"

definition count_step :: "wallet_env \<Rightarrow> json \<Rightarrow> (hd_wallet, wl_error, unit) handler" where
  "count_step env params = (case as_u64 (json_get ''count'' params) of
     None \<Rightarrow> step id | Some c \<Rightarrow> update_count env (unat c))"

lemma hd_update_steps:
  "hd_update env params w = run_seq [path_step env params, count_step env params]
    (case as_str (json_get ''name'' params) of None \<Rightarrow> w | Some n \<Rightarrow> w\<lparr>hd_name := n\<rparr>)"
  by (simp add: hd_update_def path_step_def count_step_def split: option.split)

lemma path_step_derives:
  assumes "hd_ok env w m" and "path_step env params w = (Inr (), w1)"
  shows "hd_ok env w1 m \<and> hd_count w1 = hd_count w
    \<and> (case as_str (json_get ''derivationPath'' params) of
        None \<Rightarrow> w1 = w | Some p \<Rightarrow> hd_derived env m w1 \<and> hd_derivation_path w1 = p)"
proof (cases "as_str (json_get ''derivationPath'' params)")
  case None
  with assms show ?thesis by (simp add: path_step_def)
next
  case (Some p)
  with assms(2) have "update_derived_addresses env (w\<lparr>hd_derivation_path := p\<rparr>) = (Inr (), w1)"
    by (simp add: path_step_def update_derivation_path_def split: prod.splits sum.splits)
  from update_derived_derives [OF _ this, of m] assms(1) Some show ?thesis by simp
qed

lemma count_step_derives:
  assumes "hd_ok env w m" and "count_step env params w = (Inr (), w')"
  shows "hd_derivation_path w' = hd_derivation_path w
    \<and> (case as_u64 (json_get ''count'' params) of
        None \<Rightarrow> w' = w | Some n \<Rightarrow> hd_derived env m w' \<and> hd_count w' = unat n)"
proof (cases "as_u64 (json_get ''count'' params)")
  case None
  with assms show ?thesis by (simp add: count_step_def)
next
  case (Some n)
  with assms(2) have "update_derived_addresses env (w\<lparr>hd_count := unat n\<rparr>) = (Inr (), w')"
    by (simp add: count_step_def update_count_def split: prod.splits sum.splits)
  from update_derived_derives [OF _ this, of m] assms(1) Some show ?thesis by simp
qed

text \<open>An update of an HD wallet that gives a derivation path or a count and succeeds
  leaves it with exactly the first \<open>count\<close> children of its path under its mnemonic, the first of
  them current; an update that fails leaves the stored wallet as it was (but for its cache).\<close>

theorem hd_update_derives:
  assumes "hd_ok env w m"
    and "as_str (json_get ''derivationPath'' params) \<noteq> None \<or> as_u64 (json_get ''count'' params) \<noteq> None"
    and "wallet_update env params (HDWallet w) = (r, old)"
  shows "case r of
      Inr v \<Rightarrow> \<exists>w'. v = HDWallet w' \<and> hd_derived env m w'
        \<and> map fst (hd_addresses w') = map (child_path (hd_derivation_path w')) [0..<hd_count w']
        \<and> hd_derivation_path w' = (case as_str (json_get ''derivationPath'' params) of None \<Rightarrow> hd_derivation_path w | Some p \<Rightarrow> p)
        \<and> hd_count w' = (case as_u64 (json_get ''count'' params) of None \<Rightarrow> hd_count w | Some c \<Rightarrow> unat c)
    | Inl e \<Rightarrow> \<exists>c. old = HDWallet (w\<lparr>hd_cache := c\<rparr>)"
proof (cases r)
  case (Inl e)
  then show ?thesis using assms(3) by (auto simp: updated_def split: sum.splits prod.splits)
next
  case (Inr v)
  then obtain w' where w': "hd_update env params w = (Inr (), w')" and v: "v = HDWallet w'"
    using assms(3) by (auto simp: updated_def split: sum.splits prod.splits)
  define w0 where "w0 = (case as_str (json_get ''name'' params) of None \<Rightarrow> w | Some n \<Rightarrow> w\<lparr>hd_name := n\<rparr>)"
  have w0: "hd_ok env w0 m" "hd_derivation_path w0 = hd_derivation_path w" "hd_count w0 = hd_count w"
    using assms(1) by (simp_all add: w0_def split: option.split)
  from w' have "run_seq [path_step env params, count_step env params] w0 = (Inr (), w')"
    by (simp add: hd_update_steps w0_def)
  then obtain w1 where p: "path_step env params w0 = (Inr (), w1)" and c: "count_step env params w1 = (Inr (), w')"
    by (auto split: sum.splits prod.splits)
  note path = path_step_derives [OF w0(1) p]
  note count = count_step_derives [OF conjunct1 [OF path] c]
  have derived: "hd_derived env m w'"
    using assms(2) path count by (cases "as_u64 (json_get ''count'' params)") (auto split: option.splits)
  have "hd_derivation_path w' = (case as_str (json_get ''derivationPath'' params) of None \<Rightarrow> hd_derivation_path w | Some p \<Rightarrow> p)"
    using path count w0 by (simp split: option.splits)
  moreover have "hd_count w' = (case as_u64 (json_get ''count'' params) of None \<Rightarrow> hd_count w | Some c \<Rightarrow> unat c)"
    using path count w0 by (simp split: option.splits)
  moreover have "map fst (hd_addresses w') = map (child_path (hd_derivation_path w')) [0..<hd_count w']"
    using derived derive_addresses_set(1) unfolding hd_derived_def by blast
  ultimately show ?thesis using Inr v derived by simp
qed

theorem hd_update_derives_witness:
  "\<exists>w'. fst (wallet_update toy_env (JObj [(''count'', JInt 2)]) (HDWallet toy_hd)) = Inr (HDWallet w')
    \<and> map fst (hd_addresses w') = [''m/0'', ''m/1'']"
proof -
  have "reads_only toy_env (hd_ciphertext toy_hd) ''test''"
    by (auto simp: reads_only_def decrypt_def password_to_key_def toy_env_def toy_primitives_def toy_hd_def
        comp_def split: if_splits)
  then have ok: "hd_ok toy_env toy_hd ''test''"
    by (simp add: hd_ok_def toy_hd_def caches_only_def) (simp add: toy_env_def)
  obtain r old where up: "wallet_update toy_env (JObj [(''count'', JInt 2)]) (HDWallet toy_hd) = (r, old)" by fastforce
  have dec: "decrypt toy_primitives (hd_ciphertext toy_hd) ''pw'' = Inr ''test''"
    by (simp add: decrypt_def password_to_key_def toy_primitives_def toy_hd_def comp_def)
  have "\<exists>v. r = Inr v"
    using up dec
    by (auto simp: hd_update_def update_count_def update_derived_addresses_def hd_unlock_def unlock_read_def
        unlock_with_dialog_def hd_try_decrypt_def toy_env_def toy_hd_def numeral_3_eq_3 updated_def
        derive_addresses_def upt_rec)
  then obtain v where r: "r = Inr v" ..
  from hd_update_derives [OF ok _ up] r up show ?thesis
    by (auto simp: child_path_def show_dec_def show_radix.simps digit_char_def upt_rec toy_hd_def)
qed

end
