(* ===== verification/Wallets.thy ===== *)
theory Wallets
  imports Wallet_Kinds Components
begin

text \<open>
  The list of wallets (\<open>crates/wallets/src/lib.rs\<close>): the wallets, the index of the current one, the
  file and what is broadcast. It stands behind a lock that a panic does not poison, so an operation
  that panics leaves the changes it had made, as one that fails does. What is sent from a spawned
  task is kept apart from what is sent in order.
\<close>

section \<open>State\<close>

record wallets_state =
  ws_wallets :: "wallet list"
  ws_current :: nat
  ws_file :: "(wallet list \<times> nat) disk_file"
  ws_sent :: "sent list"
  ws_spawned :: "internal_msg list"

type_synonym wallets_handler = "(wallets_state, wl_error, unit) handler"

text \<open>What is written of a wallet: everything but its cache.\<close>

fun strip_cache :: "wallet \<Rightarrow> wallet" where
  "strip_cache (HDWallet w) = HDWallet (w\<lparr>hd_cache := None\<rparr>)"
| "strip_cache (JsonKeystore w) = JsonKeystore (w\<lparr>jk_cache := None\<rparr>)"
| "strip_cache (PrivateKey w) = PrivateKey (w\<lparr>pk_cache := None\<rparr>)"
| "strip_cache w = w"

definition ws_persisted :: "wallets_state \<Rightarrow> wallet list \<times> nat" where
  "ws_persisted s = (map strip_cache (ws_wallets s), ws_current s)"

definition ws_send :: "sent \<Rightarrow> wallets_state \<Rightarrow> wallets_state" where
  "ws_send m s = s\<lparr>ws_sent := ws_sent s @ [m]\<rparr>"

section \<open>Operations\<close>

definition get_current_wallet :: "wallets_state \<Rightarrow> wl_error + wallet" where
  "get_current_wallet s =
    (if ws_current s < length (ws_wallets s) then Inr (ws_wallets s ! ws_current s) else Inl WlPanic)"

definition get_current_address :: "wallet_env \<Rightarrow> wallets_state \<Rightarrow> wl_error + address" where
  "get_current_address env s =
    (case get_current_wallet s of Inl e \<Rightarrow> Inl e | Inr w \<Rightarrow> current_address env w)"

definition get_wallet :: "string \<Rightarrow> wallets_state \<Rightarrow> wallet option" where
  "get_wallet name s = List.find (\<lambda>w. wallet_name w = name) (ws_wallets s)"

fun find_in :: "wallet_env \<Rightarrow> address \<Rightarrow> wallet list \<Rightarrow> wl_error + (wallet \<times> string) option" where
  "find_in env a [] = Inr None"
| "find_in env a (w # ws) =
    (case wallet_find env a w of
      Inl e \<Rightarrow> Inl e
    | Inr (Some path) \<Rightarrow> Inr (Some (w, path))
    | Inr None \<Rightarrow> find_in env a ws)"

definition wallets_find :: "wallet_env \<Rightarrow> address \<Rightarrow> wallets_state \<Rightarrow> wl_error + (wallet \<times> string) option" where
  "wallets_find env a s = find_in env a (ws_wallets s)"

fun collect_addresses :: "wallet_env \<Rightarrow> wallet list \<Rightarrow> wl_error + (string \<times> address) list" where
  "collect_addresses env [] = Inr []"
| "collect_addresses env (w # ws) =
    (case all_addresses env w of
      Inl e \<Rightarrow> Inl e
    | Inr addrs \<Rightarrow> map_sum id (\<lambda>r. addrs @ r) (collect_addresses env ws))"

definition get_all_addresses :: "wallet_env \<Rightarrow> wallets_state \<Rightarrow> wl_error + (string \<times> address) list" where
  "get_all_addresses env s = collect_addresses env (ws_wallets s)"

definition get_wallet_addresses :: "wallet_env \<Rightarrow> string \<Rightarrow> wallets_state \<Rightarrow> wl_error + (string \<times> address) list" where
  "get_wallet_addresses env name s =
    (case get_wallet name s of None \<Rightarrow> Inl WlPanic | Some w \<Rightarrow> all_addresses env w)"

definition ws_save :: "io \<Rightarrow> wallets_handler" where
  "ws_save i s =
    (case write_file i (ws_persisted s) (ws_file s) of
      (ok, f) \<Rightarrow> (if ok then Inr () else Inl WlIo, s\<lparr>ws_file := f\<rparr>))"

definition ensure_current :: "wallets_state \<Rightarrow> wallets_state" where
  "ensure_current s =
    (let s1 = (if ws_wallets s = [] then s\<lparr>ws_wallets := [Plaintext plaintext_default]\<rparr> else s) in
      if length (ws_wallets s1) \<le> ws_current s1 then s1\<lparr>ws_current := 0\<rparr> else s1)"

definition notify_peers :: "wallet_env \<Rightarrow> wallets_handler" where
  "notify_peers env s =
    (case get_current_address env s of
      Inl e \<Rightarrow> (Inl e, s)
    | Inr a \<Rightarrow> (Inr (), ws_send (Bus (AccountsChanged [a])) s))"

definition on_wallet_changed :: "wallet_env \<Rightarrow> wallets_handler" where
  "on_wallet_changed env s =
    (case get_current_address env s of
      Inl e \<Rightarrow> (Inl e, s)
    | Inr a \<Rightarrow>
        run_seq
          [notify_peers env,
           step (ws_send (Notify WalletsChanged)),
           step (ws_send (Bus (CurrentAddressChanged a)))] s)"

definition set_wallet :: "nat \<Rightarrow> wallet \<Rightarrow> wallets_state \<Rightarrow> wallets_state" where
  "set_wallet i w s = s\<lparr>ws_wallets := (ws_wallets s)[i := w]\<rparr>"

definition ws_set_current_path :: "wallet_env \<Rightarrow> string \<Rightarrow> wallets_handler" where
  "ws_set_current_path env key s =
    (case get_current_wallet s of
      Inl e \<Rightarrow> (Inl e, s)
    | Inr w \<Rightarrow>
        (case wallet_set_current_path env key w of
          Inl e \<Rightarrow> (Inl e, s)
        | Inr w' \<Rightarrow>
            run_seq
              [step (set_wallet (ws_current s) w'), on_wallet_changed env, ws_save (we_io env)] s))"

definition set_current_wallet :: "wallet_env \<Rightarrow> nat \<Rightarrow> wallets_handler" where
  "set_current_wallet env i s =
    (if length (ws_wallets s) \<le> i then (Inl (WlInvalidIndex i), s)
     else
       run_seq
         [step (\<lambda>s. s\<lparr>ws_current := i\<rparr>),
          on_wallet_changed env,
          step (\<lambda>s. ws_send (Bus (WalletConnected (wallet_type (ws_wallets s ! i)))) s),
          ws_save (we_io env)] s)"

definition ensure_no_duplicates_of :: "string \<Rightarrow> wallets_handler" where
  "ensure_no_duplicates_of name s =
    (if list_ex (\<lambda>w. wallet_name w = name) (ws_wallets s) then (Inl (WlDuplicate name), s) else (Inr (), s))"

definition ws_create :: "wallet_env \<Rightarrow> json \<Rightarrow> wallets_handler" where
  "ws_create env params s =
    (case wallet_create env params of
      Inl e \<Rightarrow> (Inl e, s)
    | Inr w \<Rightarrow>
        (case all_addresses env w of
          Inl e \<Rightarrow> (Inl e, s)
        | Inr addrs \<Rightarrow>
            run_seq
              [ensure_no_duplicates_of (wallet_name w),
               step (\<lambda>s. s\<lparr>ws_wallets := ws_wallets s @ [w]\<rparr>),
               on_wallet_changed env,
               ws_save (we_io env),
               step (ws_send (Bus WalletCreated)),
               step (\<lambda>s. fold (\<lambda>(_, a). ws_send (Bus (AddressAdded a))) addrs s)] s))"

text \<open>The messages of the task an update spawns: the addresses it adds, then those it drops.\<close>

definition address_changes :: "(string \<times> address) list \<Rightarrow> (string \<times> address) list \<Rightarrow> internal_msg list" where
  "address_changes before after =
    map (\<lambda>(_, a). AddressAdded a) (filter (\<lambda>e. e \<notin> set before) (remdups after))
    @ map (\<lambda>(_, a). AddressRemoved a) (filter (\<lambda>e. e \<notin> set after) (remdups before))"

definition ws_update :: "wallet_env \<Rightarrow> string \<Rightarrow> json \<Rightarrow> wallets_handler" where
  "ws_update env name params s =
    (case position (\<lambda>w. wallet_name w = name) (ws_wallets s) of
      None \<Rightarrow> (Inl (WlInvalidName name), s)
    | Some i \<Rightarrow>
        (case all_addresses env (ws_wallets s ! i) of
          Inl e \<Rightarrow> (Inl e, s)
        | Inr before \<Rightarrow>
            (case wallet_update env params (ws_wallets s ! i) of
              (Inl e, old) \<Rightarrow> (Inl e, set_wallet i old s)
            | (Inr w, _) \<Rightarrow>
                (case all_addresses env w of
                  Inl e \<Rightarrow> (Inl e, set_wallet i w s)
                | Inr after \<Rightarrow>
                    run_seq
                      [step (set_wallet i w),
                       step (\<lambda>s. s\<lparr>ws_spawned := ws_spawned s @ address_changes before after\<rparr>),
                       step ensure_current,
                       notify_peers env,
                       on_wallet_changed env,
                       ws_save (we_io env)] s))))"

definition ws_remove :: "wallet_env \<Rightarrow> string \<Rightarrow> wallets_handler" where
  "ws_remove env name s =
    (case position (\<lambda>w. wallet_name w = name) (ws_wallets s) of
      None \<Rightarrow> (Inr (), s)
    | Some i \<Rightarrow>
        (let removed = ws_wallets s ! i; s1 = s\<lparr>ws_wallets := remove_nth i (ws_wallets s)\<rparr> in
          case all_addresses env removed of
            Inl e \<Rightarrow> (Inl e, s1)
          | Inr addrs \<Rightarrow>
              run_seq
                [step (\<lambda>s. fold (\<lambda>(_, a). ws_send (Bus (AddressRemoved a))) addrs s),
                 step ensure_current,
                 on_wallet_changed env,
                 ws_save (we_io env)] s1))"

text \<open>Starting: what the file holds, or no wallet; a panic there is \<open>Inl\<close>.\<close>

definition init_broadcast :: "wallet_env \<Rightarrow> wallets_handler" where
  "init_broadcast env s =
    (case get_all_addresses env s of
      Inl e \<Rightarrow> (Inl e, s)
    | Inr addrs \<Rightarrow>
        (case get_current_address env s of
          Inl e \<Rightarrow> (Inl e, s)
        | Inr a \<Rightarrow>
            (Inr (), ws_send (Bus (CurrentAddressChanged a))
              (fold (\<lambda>(_, a). ws_send (Bus (AddressAdded a))) addrs s))))"

definition wallets_init :: "wallet_env \<Rightarrow> (wallet list \<times> nat) option \<Rightarrow> (wallet list \<times> nat) disk_file
    \<Rightarrow> wl_error + wallets_state" where
  "wallets_init env loaded disk =
    (case (case loaded of Some p \<Rightarrow> p | None \<Rightarrow> ([], 0)) of
      (ws, cur) \<Rightarrow>
        (let s = ensure_current \<lparr>ws_wallets = ws, ws_current = cur, ws_file = disk, ws_sent = [], ws_spawned = []\<rparr> in
          case init_broadcast env s of
            (Inl e, _) \<Rightarrow> Inl e
          | (Inr _, s') \<Rightarrow> Inr s'))"

section \<open>Messages\<close>

datatype wallets_op =
    WsSetPath string
  | WsSetCurrent nat
  | WsCreate json
  | WsUpdate string json
  | WsRemove string

fun ws_handle :: "wallet_env \<times> wallets_op \<Rightarrow> wallets_handler" where
  "ws_handle (env, WsSetPath key) = ws_set_current_path env key"
| "ws_handle (env, WsSetCurrent i) = set_current_wallet env i"
| "ws_handle (env, WsCreate params) = ws_create env params"
| "ws_handle (env, WsUpdate name params) = ws_update env name params"
| "ws_handle (env, WsRemove name) = ws_remove env name"

section \<open>Invariants\<close>

definition ws_inv :: "wallets_state \<Rightarrow> bool" where
  "ws_inv s = (ws_current s < length (ws_wallets s))"

definition ws_names :: "wallets_state \<Rightarrow> string list" where
  "ws_names s = map wallet_name (ws_wallets s)"

text \<open>The wallets and the index are left alone by what only sends, saves or reads.\<close>

definition same_wallets :: "wallets_state \<Rightarrow> wallets_state \<Rightarrow> bool" where
  "same_wallets s0 s = (ws_wallets s = ws_wallets s0 \<and> ws_current s = ws_current s0)"

lemma same_wallets_refl [simp]: "same_wallets s s"
  by (simp add: same_wallets_def)

lemma ws_send_simps [simp]:
  "ws_wallets (ws_send m s) = ws_wallets s" "ws_current (ws_send m s) = ws_current s"
  "ws_file (ws_send m s) = ws_file s"
  by (simp_all add: ws_send_def)

lemma fold_ws_send [simp]:
  "ws_wallets (fold (\<lambda>(_, a). ws_send (f a)) xs s) = ws_wallets s"
  "ws_current (fold (\<lambda>(_, a). ws_send (f a)) xs s) = ws_current s"
  by (induction xs arbitrary: s) (simp_all add: case_prod_beta)

lemma keeps_ws_save [keeps_intros]: "keeps (same_wallets s0) (ws_save i)"
  by (cases i) (simp_all add: keeps_def ws_save_def same_wallets_def)

lemma keeps_notify [keeps_intros]: "keeps (same_wallets s0) (notify_peers env)"
  by (auto simp: keeps_def notify_peers_def same_wallets_def split: sum.split)

lemma keeps_on_wallet_changed [keeps_intros]: "keeps (same_wallets s0) (on_wallet_changed env)"
proof -
  have "keeps (same_wallets s0) (run_seq [notify_peers env, step (ws_send (Notify WalletsChanged)),
      step (ws_send (Bus (CurrentAddressChanged a)))])" for a
    by (auto intro!: keeps_intros simp: same_wallets_def)
  then show ?thesis by (auto simp: keeps_def on_wallet_changed_def split: sum.split)
qed

lemma run_same_wallets:
  assumes "\<forall>h \<in> set hs. keeps (same_wallets s) h"
  shows "ws_wallets (snd (run_seq hs s)) = ws_wallets s" "ws_current (snd (run_seq hs s)) = ws_current s"
  using keepsD [OF keeps_run_seq [OF assms] same_wallets_refl] by (simp_all add: same_wallets_def)

lemma ws_inv_ensure: "ws_inv (ensure_current s)"
  by (auto simp: ws_inv_def ensure_current_def Let_def)

lemma set_wallet_simps [simp]:
  "ws_wallets (set_wallet i w s) = (ws_wallets s)[i := w]" "ws_current (set_wallet i w s) = ws_current s"
  by (simp_all add: set_wallet_def)

text \<open>What each operation does to the wallets and the index.\<close>

lemma ws_set_current_path_wallets:
  "ws_current (snd (ws_set_current_path env key s)) = ws_current s
   \<and> (ws_wallets (snd (ws_set_current_path env key s)) = ws_wallets s
      \<or> (\<exists>w w'. get_current_wallet s = Inr w \<and> wallet_set_current_path env key w = Inr w'
          \<and> ws_wallets (snd (ws_set_current_path env key s)) = (ws_wallets s)[ws_current s := w']))"
proof (cases "get_current_wallet s")
  case (Inr w)
  show ?thesis
  proof (cases "wallet_set_current_path env key w")
    case (Inr w')
    let ?s1 = "set_wallet (ws_current s) w' s"
    have "ws_set_current_path env key s = run_seq [on_wallet_changed env, ws_save (we_io env)] ?s1"
      using \<open>get_current_wallet s = Inr w\<close> Inr by (simp add: ws_set_current_path_def)
    moreover note run_same_wallets [of "[on_wallet_changed env, ws_save (we_io env)]" ?s1]
    ultimately show ?thesis using \<open>get_current_wallet s = Inr w\<close> Inr by (simp add: keeps_intros)
  qed (simp add: ws_set_current_path_def Inr)
qed (simp add: ws_set_current_path_def)

lemma set_current_wallet_wallets:
  "ws_wallets (snd (set_current_wallet env i s)) = ws_wallets s
   \<and> ws_current (snd (set_current_wallet env i s)) = (if i < length (ws_wallets s) then i else ws_current s)"
proof (cases "i < length (ws_wallets s)")
  case True
  let ?hs = "[on_wallet_changed env, step (\<lambda>s. ws_send (Bus (WalletConnected (wallet_type (ws_wallets s ! i)))) s), ws_save (we_io env)]"
  have "set_current_wallet env i s = run_seq ?hs (s\<lparr>ws_current := i\<rparr>)"
    using True by (simp add: set_current_wallet_def)
  moreover have "\<forall>h \<in> set ?hs. keeps (same_wallets (s\<lparr>ws_current := i\<rparr>)) h"
    by (auto intro!: keeps_intros simp: same_wallets_def)
  ultimately show ?thesis using run_same_wallets [of ?hs "s\<lparr>ws_current := i\<rparr>"] True by simp
qed (simp add: set_current_wallet_def)

lemma ws_create_wallets:
  "ws_current (snd (ws_create env params s)) = ws_current s
   \<and> (ws_wallets (snd (ws_create env params s)) = ws_wallets s
      \<or> (\<exists>w. wallet_create env params = Inr w \<and> wallet_name w \<notin> set (ws_names s)
          \<and> ws_wallets (snd (ws_create env params s)) = ws_wallets s @ [w]))"
proof (cases "wallet_create env params")
  case (Inr w)
  show ?thesis
  proof (cases "all_addresses env w")
    case (Inr addrs)
    let ?hs = "[on_wallet_changed env, ws_save (we_io env), step (ws_send (Bus WalletCreated)),
               step (\<lambda>s. fold (\<lambda>(_, a). ws_send (Bus (AddressAdded a))) addrs s)]"
    let ?s1 = "s\<lparr>ws_wallets := ws_wallets s @ [w]\<rparr>"
    have keep: "\<forall>h \<in> set ?hs. keeps (same_wallets ?s1) h"
      by (auto intro!: keeps_intros simp: same_wallets_def)
    show ?thesis
    proof (cases "wallet_name w \<in> set (ws_names s)")
      case True
      then have "list_ex (\<lambda>v. wallet_name v = wallet_name w) (ws_wallets s)"
        by (auto simp: ws_names_def list_ex_iff)
      then show ?thesis
        using \<open>wallet_create env params = Inr w\<close> Inr by (simp add: ws_create_def ensure_no_duplicates_of_def)
    next
      case False
      then have "\<not> list_ex (\<lambda>v. wallet_name v = wallet_name w) (ws_wallets s)"
        unfolding ws_names_def list_ex_iff set_map by (metis image_eqI)
      then have "ws_create env params s = run_seq ?hs ?s1"
        using \<open>wallet_create env params = Inr w\<close> Inr by (simp add: ws_create_def ensure_no_duplicates_of_def)
      then show ?thesis
        using run_same_wallets [OF keep] False \<open>wallet_create env params = Inr w\<close> by simp
    qed
  qed (simp add: ws_create_def Inr)
qed (simp add: ws_create_def)

lemma ensure_current_simps:
  "ws_wallets (ensure_current s) = (if ws_wallets s = [] then [Plaintext plaintext_default] else ws_wallets s)"
  "ws_current (ensure_current s) = (if ws_current s < length (ws_wallets s) then ws_current s else 0)"
  by (auto simp: ensure_current_def Let_def)

lemma ensure_current_inv: "ws_inv s \<Longrightarrow> ensure_current s = s"
  by (auto simp: ws_inv_def ensure_current_def)

lemma ws_update_wallets:
  assumes "ws_inv s"
  shows "ws_current (snd (ws_update env name params s)) = ws_current s
   \<and> (ws_wallets (snd (ws_update env name params s)) = ws_wallets s
      \<or> (\<exists>i r old v. position (\<lambda>w. wallet_name w = name) (ws_wallets s) = Some i
          \<and> wallet_update env params (ws_wallets s ! i) = (r, old) \<and> (r = Inr v \<or> (is_ok r = False \<and> v = old))
          \<and> ws_wallets (snd (ws_update env name params s)) = (ws_wallets s)[i := v]))"
proof (cases "position (\<lambda>w. wallet_name w = name) (ws_wallets s)")
  case (Some i)
  obtain r old where up: "wallet_update env params (ws_wallets s ! i) = (r, old)" by fastforce
  show ?thesis
  proof (cases "all_addresses env (ws_wallets s ! i)")
    case (Inr before)
    show ?thesis
    proof (cases r)
      case (Inl e)
      then show ?thesis
        using Some up \<open>all_addresses env (ws_wallets s ! i) = Inr before\<close> by (simp add: ws_update_def)
    next
      case (Inr w)
      show ?thesis
      proof (cases "all_addresses env w")
        case (Inl e)
        then show ?thesis
          using Some up \<open>r = Inr w\<close> \<open>all_addresses env (ws_wallets s ! i) = Inr before\<close> by (simp add: ws_update_def)
      next
        case (Inr after)
        let ?hs = "[notify_peers env, on_wallet_changed env, ws_save (we_io env)]"
        let ?s1 = "(set_wallet i w s)\<lparr>ws_spawned := ws_spawned s @ address_changes before after\<rparr>"
        have "ws_inv ?s1" using assms by (simp add: ws_inv_def)
        then have "ws_update env name params s = run_seq ?hs ?s1"
          using Some up Inr \<open>r = Inr w\<close> \<open>all_addresses env (ws_wallets s ! i) = Inr before\<close>
          by (simp add: ws_update_def ensure_current_inv set_wallet_def)
        then show ?thesis
          using run_same_wallets [of ?hs ?s1] Some up \<open>r = Inr w\<close> by (simp add: keeps_intros)
      qed
    qed
  qed (simp add: ws_update_def Some)
qed (simp add: ws_update_def)

text \<open>
  A removal takes the wallet out of the list before it asks for its addresses; where they cannot be derived (a
  plaintext wallet whose mnemonic or path is not valid) that is a panic, and the index is not looked at any more.
\<close>

fun removal_derives :: "wallet_env \<times> wallets_op \<Rightarrow> wallets_state \<Rightarrow> bool" where
  "removal_derives (env, WsRemove name) s =
    (case position (\<lambda>w. wallet_name w = name) (ws_wallets s) of
      None \<Rightarrow> True
    | Some i \<Rightarrow> is_ok (all_addresses env (ws_wallets s ! i)))"
| "removal_derives _ s = True"

lemma ws_remove_wallets:
  assumes "removal_derives (env, WsRemove name) s"
  shows "case position (\<lambda>w. wallet_name w = name) (ws_wallets s) of
      None \<Rightarrow> ws_remove env name s = (Inr (), s)
    | Some i \<Rightarrow> (let s1 = ensure_current (s\<lparr>ws_wallets := remove_nth i (ws_wallets s)\<rparr>); s' = snd (ws_remove env name s) in
        ws_wallets s' = ws_wallets s1 \<and> ws_current s' = ws_current s1)"
proof (cases "position (\<lambda>w. wallet_name w = name) (ws_wallets s)")
  case (Some i)
  let ?s1 = "s\<lparr>ws_wallets := remove_nth i (ws_wallets s)\<rparr>"
  obtain addrs where addrs: "all_addresses env (ws_wallets s ! i) = Inr addrs"
    using assms Some by (auto simp: is_ok_iff)
  let ?s2 = "fold (\<lambda>(_, a). ws_send (Bus (AddressRemoved a))) addrs ?s1"
  let ?hs = "[on_wallet_changed env, ws_save (we_io env)]"
  have "ws_remove env name s = run_seq ?hs (ensure_current ?s2)"
    using Some addrs by (simp add: ws_remove_def)
  moreover note run_same_wallets [of ?hs "ensure_current ?s2"]
  ultimately show ?thesis using Some by (simp add: keeps_intros ensure_current_simps Let_def)
qed (simp add: ws_remove_def)

lemma all_addresses_panics: "all_addresses env w = Inl e \<Longrightarrow> e = WlPanic"
proof -
  have "derive_from env m p is = Inl e \<Longrightarrow> e = WlPanic" for m p "is"
    by (induction "is") (auto simp: map_sum_def split: sum.splits)
  then show "all_addresses env w = Inl e \<Longrightarrow> e = WlPanic"
    by (cases w) (auto simp: derive_addresses_def)
qed

lemma no_panic_derives:
  assumes "fst (ws_remove env name s) \<noteq> Inl WlPanic"
  shows "removal_derives (env, WsRemove name) s"
proof (cases "position (\<lambda>w. wallet_name w = name) (ws_wallets s)")
  case (Some i)
  then have "is_ok (all_addresses env (ws_wallets s ! i))"
    using assms all_addresses_panics [of env "ws_wallets s ! i"]
    by (cases "all_addresses env (ws_wallets s ! i)") (auto simp: ws_remove_def Let_def)
  with Some show ?thesis by simp
qed simp

lemma ws_inv_handle:
  assumes "ws_inv s" and "removal_derives m s"
  shows "ws_inv (snd (ws_handle m s))"
proof -
  obtain env p where m: "m = (env, p)" by (cases m)
  show ?thesis
  proof (cases p)
    case (WsSetPath key)
    with assms(1) ws_set_current_path_wallets [of env key s] m show ?thesis by (auto simp: ws_inv_def)
  next
    case (WsSetCurrent i)
    with assms(1) set_current_wallet_wallets [of env i s] m show ?thesis by (auto simp: ws_inv_def)
  next
    case (WsCreate params)
    with assms(1) ws_create_wallets [of env params s] m show ?thesis by (auto simp: ws_inv_def)
  next
    case (WsUpdate name params)
    with assms(1) ws_update_wallets [OF assms(1), of env name params] m show ?thesis by (auto simp: ws_inv_def)
  next
    case (WsRemove name)
    with assms(2) m have "removal_derives (env, WsRemove name) s" by simp
    from ws_remove_wallets [OF this] show ?thesis
      using assms(1) m WsRemove
        ws_inv_ensure [of "s\<lparr>ws_wallets := remove_nth (the (position (\<lambda>w. wallet_name w = name) (ws_wallets s))) (ws_wallets s)\<rparr>"]
      by (cases "position (\<lambda>w. wallet_name w = name) (ws_wallets s)") (simp_all add: ws_inv_def Let_def)
  qed
qed

interpretation ws: watched_component ws_handle removal_derives ws_inv
  by unfold_locales (rule ws_inv_handle)

section \<open>What the operations promise\<close>

lemma wallets_init_cases:
  assumes "wallets_init env loaded disk = Inr s"
  shows "ws_inv s" "loaded = None \<Longrightarrow> ws_wallets s = [Plaintext plaintext_default]"
proof -
  obtain ws cur where l: "(case loaded of Some p \<Rightarrow> p | None \<Rightarrow> ([], 0)) = (ws, cur)" by fastforce
  define s0 where "s0 = ensure_current \<lparr>ws_wallets = ws, ws_current = cur, ws_file = disk, ws_sent = [], ws_spawned = []\<rparr>"
  from assms have "init_broadcast env s0 = (Inr (), s)"
    by (auto simp: wallets_init_def l Let_def s0_def split: sum.splits prod.splits)
  then have same: "ws_wallets s = ws_wallets s0" "ws_current s = ws_current s0"
    by (auto simp: init_broadcast_def split: sum.splits)
  then show "ws_inv s" using ws_inv_ensure by (simp add: ws_inv_def s0_def)
  show "loaded = None \<Longrightarrow> ws_wallets s = [Plaintext plaintext_default]"
    using l same by (simp add: s0_def ensure_current_simps)
qed

text \<open>C34. Whatever the app starts from and whatever operations follow, succeeding, failing or
  panicking, the index of the current wallet is in range; the one exception is a removal that panics because the
  addresses of the removed wallet cannot be derived.\<close>

theorem current_wallet_in_range:
  assumes "wallets_init env loaded disk = Inr s"
    and "run_calm removal_derives ws_handle ms s"
  shows "\<exists>w. get_current_wallet (run_msgs ws_handle ms s) = Inr w"
  using ws.inv_run [OF wallets_init_cases(1) [OF assms(1)] assms(2)] by (simp add: ws_inv_def get_current_wallet_def)

definition toy_wallets :: wallets_state where
  "toy_wallets = \<lparr>ws_wallets = [Plaintext plaintext_default, HDWallet toy_hd, HDWallet (toy_hd\<lparr>hd_name := ''c''\<rparr>)],
     ws_current = 1, ws_file = Absent, ws_sent = [], ws_spawned = []\<rparr>"

theorem current_wallet_in_range_witness:
  "\<exists>s w. wallets_init toy_env (Some ([HDWallet toy_hd], 7)) Absent = Inr s
    \<and> get_current_wallet (run_msgs ws_handle [(toy_env, WsSetCurrent 3), (toy_env, WsRemove ''hd'')] s) = Inr w"
proof -
  obtain s where s: "wallets_init toy_env (Some ([HDWallet toy_hd], 7)) Absent = Inr s"
    by (simp add: wallets_init_def ensure_current_def init_broadcast_def get_all_addresses_def
        get_current_address_def get_current_wallet_def Let_def)
  then have len: "length (ws_wallets s) = 1"
    by (auto simp: wallets_init_def ensure_current_def init_broadcast_def Let_def split: sum.splits)
  from s have ws: "ws_wallets s = [HDWallet toy_hd]"
    by (auto simp: wallets_init_def ensure_current_def init_broadcast_def Let_def split: sum.splits)
  have "run_calm removal_derives ws_handle [(toy_env, WsSetCurrent 3), (toy_env, WsRemove ''hd'')] s"
    by (simp add: set_current_wallet_def len ws)
  from current_wallet_in_range [OF s this] s show ?thesis by blast
qed

text \<open>The exception: an update with a mnemonic that derives nothing panics and leaves the wallet in the list;
  removing it panics too, and the index is past the end of the list.\<close>

definition underivable :: wallet where
  "underivable = Plaintext (plaintext_default\<lparr>pt_name := ''b''\<rparr>)"

lemma removal_panics_out_of_range:
  assumes "\<And>m p. we_derive env m p = Inl e"
  shows "get_current_wallet (snd (ws_remove env ''b''
    \<lparr>ws_wallets = [HDWallet toy_hd, underivable], ws_current = 1, ws_file = Absent, ws_sent = [], ws_spawned = []\<rparr>)) = Inl WlPanic"
proof -
  have "position (\<lambda>w. wallet_name w = ''b'') [HDWallet toy_hd, underivable] = Some 1"
    by (simp add: underivable_def toy_hd_def)
  then show ?thesis
    by (simp add: ws_remove_def underivable_def plaintext_default_def derive_addresses_def upt_rec assms get_current_wallet_def
        remove_nth_def)
qed

definition renames_onto :: "wallets_op \<Rightarrow> wallets_state \<Rightarrow> bool" where
  "renames_onto p s =
    (case p of
      WsUpdate name params \<Rightarrow>
        (case as_str (json_get ''name'' params) of
          None \<Rightarrow> False
        | Some n \<Rightarrow> n \<noteq> name \<and> n \<in> set (ws_names s))
    | _ \<Rightarrow> False)"

lemma distinct_list_update:
  "distinct xs \<Longrightarrow> i < length xs \<Longrightarrow> y = xs ! i \<or> y \<notin> set xs \<Longrightarrow> distinct (xs[i := y])"
  by (auto simp: distinct_list_update)

lemma set_path_name: "wallet_set_current_path env key w = Inr w' \<Longrightarrow> wallet_name w' = wallet_name w"
  by (cases w)
     (auto simp: map_sum_Inr pt_set_current_path_def hd_set_current_path_def im_set_current_path_def
      lg_set_current_path_def split: sum.splits option.splits)

definition new_name :: "json \<Rightarrow> string \<Rightarrow> string" where
  "new_name params name = (case as_str (json_get ''name'' params) of None \<Rightarrow> name | Some n \<Rightarrow> n)"

lemma hd_update_name:
  "hd_name (snd (hd_update env params w)) = new_name params (hd_name w)"
proof -
  define w0 where "w0 = (case as_str (json_get ''name'' params) of None \<Rightarrow> w | Some n \<Rightarrow> w\<lparr>hd_name := n\<rparr>)"
  let ?P = "\<lambda>w. hd_name w = new_name params (hd_name w0)"
  have unlock: "hd_name (snd (hd_unlock env v)) = hd_name v" for v
    by (simp add: hd_unlock_def split: prod.split)
  have derived: "keeps ?P (update_derived_addresses env)"
  proof -
    have "hd_name (snd (update_derived_addresses env v)) = hd_name v" for v
      using unlock [of v]
      by (auto simp: update_derived_addresses_def split: prod.splits sum.splits list.splits)
    then show ?thesis by (simp add: keeps_def)
  qed
  define rest where "rest = run_seq
      [case as_str (json_get ''derivationPath'' params) of None \<Rightarrow> step id | Some p \<Rightarrow> update_derivation_path env p,
       case as_u64 (json_get ''count'' params) of None \<Rightarrow> step id | Some c \<Rightarrow> update_count env (unat c)]"
  have "keeps ?P rest"
    unfolding rest_def
    by (auto intro!: keeps_intros derived simp: update_derivation_path_def update_count_def split: option.split)
  from keepsD [OF this] have "hd_name (snd (rest w0)) = new_name params (hd_name w0)"
    by (simp add: w0_def new_name_def split: option.split)
  moreover have "hd_update env params w = rest w0"
    by (simp add: hd_update_def w0_def rest_def split: option.split)
  ultimately show ?thesis by (simp add: w0_def new_name_def split: option.splits)
qed

lemma update_name:
  assumes "wallet_update env params w = (Inr v, old)" and "wallet_name w = name"
  shows "wallet_name v = new_name params name"
proof (cases w)
  case (HDWallet h)
  with assms show ?thesis by (auto simp: updated_result hd_update_name)
next
  case (Plaintext p)
  with assms show ?thesis
    by (auto simp: map_sum_Inr plaintext_from_value_def plaintext_try_from_def new_name_def Let_def split: option.splits)
qed (use assms in \<open>auto simp: updated_def rename_def new_name_def im_update_def lg_update_def
    split: option.splits if_splits sum.splits prod.splits\<close>)

lemma update_old_name: "wallet_update env params w = (r, old) \<Longrightarrow> wallet_name old = wallet_name w"
  by (cases w) (auto simp: updated_def split: prod.splits sum.splits)

lemma names_list_update: "map wallet_name (ws[i := v]) = (map wallet_name ws)[i := wallet_name v]"
  by (rule map_update)

lemma names_update_distinct:
  assumes "ws_inv s" and "distinct (ws_names s)" and "\<not> renames_onto (WsUpdate name params) s"
  shows "distinct (ws_names (snd (ws_update env name params s)))"
proof -
  consider "ws_wallets (snd (ws_update env name params s)) = ws_wallets s"
    | i r old v where "position (\<lambda>w. wallet_name w = name) (ws_wallets s) = Some i"
      "wallet_update env params (ws_wallets s ! i) = (r, old)" "r = Inr v \<or> (is_ok r = False \<and> v = old)"
      "ws_wallets (snd (ws_update env name params s)) = (ws_wallets s)[i := v]"
    using ws_update_wallets [OF assms(1), of env name params] by blast
  then show ?thesis
  proof cases
    case 1
    with assms(2) show ?thesis by (simp add: ws_names_def)
  next
    case 2
    from position_Some [OF 2(1)] have i: "i < length (ws_wallets s)" "wallet_name (ws_wallets s ! i) = name" by auto
    have "wallet_name v = name \<or> wallet_name v = new_name params name"
      using 2(2,3) update_name [of env params "ws_wallets s ! i" v old name] update_old_name [OF 2(2)] i(2) by auto
    moreover have "new_name params name = name \<or> new_name params name \<notin> set (ws_names s)"
      using assms(3) by (auto simp: renames_onto_def new_name_def split: option.splits)
    ultimately have "wallet_name v = ws_names s ! i \<or> wallet_name v \<notin> set (ws_names s)"
      using i by (auto simp: ws_names_def)
    then show ?thesis
      using distinct_list_update [OF assms(2), of i "wallet_name v"] i(1)
      by (simp add: ws_names_def 2(4) names_list_update)
  qed
qed

lemma distinct_remove_nth: "distinct xs \<Longrightarrow> distinct (remove_nth i xs)"
  unfolding remove_nth_def by (simp add: set_take_disj_set_drop_if_distinct)

text \<open>Names of wallets stay distinct through every operation that does not panic,
  except an update that gives a wallet the name of another one.\<close>

theorem wallet_names_distinct:
  assumes "ws_inv s" and "distinct (ws_names s)" and "fst (ws_handle (env, p) s) \<noteq> Inl WlPanic"
    and "\<not> renames_onto p s"
  shows "distinct (ws_names (snd (ws_handle (env, p) s)))"
proof (cases p)
  case (WsSetPath key)
  then show ?thesis
    using ws_set_current_path_wallets [of env key s] assms(1,2)
      distinct_list_update [OF assms(2), of "ws_current s"] set_path_name
    by (auto simp: ws_names_def names_list_update ws_inv_def get_current_wallet_def split: if_splits)
next
  case (WsSetCurrent i)
  then show ?thesis using set_current_wallet_wallets [of env i s] assms(2) by (simp add: ws_names_def)
next
  case (WsCreate params)
  then show ?thesis using ws_create_wallets [of env params s] assms(2) by (auto simp: ws_names_def)
next
  case (WsUpdate name params)
  then show ?thesis using names_update_distinct [OF assms(1,2)] assms(4) by simp
next
  case (WsRemove name)
  then have r: "fst (ws_remove env name s) \<noteq> Inl WlPanic" using assms(3) by simp
  show ?thesis
  proof (cases "position (\<lambda>w. wallet_name w = name) (ws_wallets s)")
    case None
    then show ?thesis
      using ws_remove_wallets [OF no_panic_derives [OF r]] WsRemove assms(2) by (simp add: ws_names_def)
  next
    case (Some i)
    then have "ws_wallets (snd (ws_remove env name s)) =
        ws_wallets (ensure_current (s\<lparr>ws_wallets := remove_nth i (ws_wallets s)\<rparr>))"
      using ws_remove_wallets [OF no_panic_derives [OF r]] by (simp add: Let_def)
    moreover have "map wallet_name (remove_nth i (ws_wallets s)) = remove_nth i (ws_names s)"
      by (simp add: remove_nth_def ws_names_def take_map drop_map)
    ultimately show ?thesis
      using WsRemove distinct_remove_nth [OF assms(2), of i] by (simp add: ws_names_def ensure_current_simps)
  qed
qed

theorem wallet_names_distinct_witness:
  "distinct (ws_names (snd (ws_handle (toy_env, WsRemove ''hd'') toy_wallets)))"
proof -
  have "fst (ws_handle (toy_env, WsRemove ''hd'') toy_wallets) \<noteq> Inl WlPanic"
    by (simp add: toy_wallets_def ws_remove_def toy_hd_def plaintext_default_def remove_nth_def ensure_current_def
        on_wallet_changed_def notify_peers_def get_current_address_def get_current_wallet_def ws_save_def
        ws_send_def toy_env_def)
  moreover have "ws_inv toy_wallets" "distinct (ws_names toy_wallets)"
    by (simp_all add: toy_wallets_def ws_inv_def ws_names_def plaintext_default_def toy_hd_def)
  ultimately show ?thesis
    using wallet_names_distinct [of toy_wallets toy_env "WsRemove ''hd''"] by (simp add: renames_onto_def)
qed

lemma get_current_address_cong:
  "ws_wallets t = ws_wallets s \<Longrightarrow> ws_current t = ws_current s \<Longrightarrow> get_current_address env t = get_current_address env s"
  by (simp add: get_current_address_def get_current_wallet_def)

lemma changed_saved_no_panic:
  assumes "get_current_address env s = Inr a"
  shows "fst (run_seq [on_wallet_changed env, ws_save i] s) \<noteq> Inl WlPanic"
proof -
  obtain s' where "on_wallet_changed env s = (Inr (), s')"
    using assms by (simp add: on_wallet_changed_def notify_peers_def)
  then show ?thesis by (cases i) (simp_all add: ws_save_def)
qed

text \<open>Removing a wallet that stands after the current one leaves the current wallet in
  place; but the index is not moved when the removed wallet stands before it, so the wallet after
  the current one silently becomes current.\<close>

theorem remove_shifts_current:
  assumes "ws_inv s" and "position (\<lambda>w. wallet_name w = name) (ws_wallets s) = Some i"
    and "fst (ws_remove env name s) \<noteq> Inl WlPanic"
  shows "(ws_current s < i \<longrightarrow> get_current_wallet (snd (ws_remove env name s)) = get_current_wallet s)
    \<and> (i < ws_current s \<longrightarrow> ws_current s + 1 < length (ws_wallets s) \<longrightarrow>
        get_current_wallet (snd (ws_remove env name s)) = Inr (ws_wallets s ! (ws_current s + 1)))"
proof -
  let ?s1 = "ensure_current (s\<lparr>ws_wallets := remove_nth i (ws_wallets s)\<rparr>)"
  have s': "ws_wallets (snd (ws_remove env name s)) = ws_wallets ?s1"
    "ws_current (snd (ws_remove env name s)) = ws_current ?s1"
    using ws_remove_wallets [OF no_panic_derives [OF assms(3)]] assms(2) by (simp_all add: Let_def)
  have i: "i < length (ws_wallets s)" using position_Some [OF assms(2)] by simp
  have cur: "ws_current s < length (ws_wallets s)" using assms(1) by (simp add: ws_inv_def)
  have keep: "get_current_wallet (snd (ws_remove env name s)) = Inr (remove_nth i (ws_wallets s) ! ws_current s)"
    if "ws_current s < length (ws_wallets s) - 1"
  proof -
    have "remove_nth i (ws_wallets s) \<noteq> []" using that i by (metis length_greater_0_conv length_remove_nth less_nat_zero_code gr_zeroI)
    then show ?thesis using that i by (simp add: get_current_wallet_def s' ensure_current_simps)
  qed
  show ?thesis
    using keep i cur by (auto simp: nth_remove_nth get_current_wallet_def)
qed

theorem remove_shifts_current_witness:
  "get_current_wallet toy_wallets = Inr (HDWallet toy_hd)
   \<and> get_current_wallet (snd (ws_remove toy_env ''test'' toy_wallets)) = Inr (HDWallet (toy_hd\<lparr>hd_name := ''c''\<rparr>))"
proof -
  have pos: "position (\<lambda>w. wallet_name w = ''test'') (ws_wallets toy_wallets) = Some 0"
    by (simp add: toy_wallets_def plaintext_default_def)
  have "we_derive toy_env m q = Inr (of_nat (length m + 100 * length q))" for m q
    by (simp add: toy_env_def)
  then have "\<exists>r. derive_from toy_env m p is = Inr r" for m p "is"
    by (induction "is") auto
  then obtain addrs where addrs: "all_addresses toy_env (Plaintext plaintext_default) = Inr addrs"
    unfolding all_addresses.simps derive_addresses_def by blast
  have "fst (ws_remove toy_env ''test'' toy_wallets) \<noteq> Inl WlPanic"
  proof -
    let ?s1 = "toy_wallets\<lparr>ws_wallets := remove_nth 0 (ws_wallets toy_wallets)\<rparr>"
    let ?s2 = "ensure_current (fold (\<lambda>(_, a). ws_send (Bus (AddressRemoved a))) addrs ?s1)"
    have "ws_remove toy_env ''test'' toy_wallets = run_seq [on_wallet_changed toy_env, ws_save (we_io toy_env)] ?s2"
      using pos addrs by (simp add: ws_remove_def) (simp add: toy_wallets_def)
    moreover have "get_current_address toy_env ?s2 = Inr 304"
      by (simp add: get_current_address_def get_current_wallet_def ensure_current_simps toy_wallets_def remove_nth_def toy_hd_def)
    ultimately show ?thesis using changed_saved_no_panic by metis
  qed
  moreover have "ws_inv toy_wallets" by (simp add: toy_wallets_def ws_inv_def)
  ultimately show ?thesis
    using remove_shifts_current [of toy_wallets "''test''" 0 toy_env] pos
    by (simp add: toy_wallets_def get_current_wallet_def)
qed

lemma wallet_find_cases:
  assumes "all_addresses env w = Inr addrs"
  shows "wallet_find env a w = Inr None \<longleftrightarrow> a \<notin> snd ` set addrs"
    and "wallet_find env a w = Inr (Some p) \<Longrightarrow> (p, a) \<in> set addrs"
proof -
  show "wallet_find env a w = Inr None \<longleftrightarrow> a \<notin> snd ` set addrs"
    by (simp add: wallet_find_def assms find_None_set case_prod_beta image_iff) blast
  show "wallet_find env a w = Inr (Some p) \<Longrightarrow> (p, a) \<in> set addrs"
    using found_entry [of env a w p] assms by (metis sum.inject(2))
qed

lemma find_in_spec:
  assumes "\<forall>w \<in> set ws. all_addresses env w = Inr (addrs w)"
  shows "(find_in env a ws = Inr None \<longleftrightarrow> (\<forall>w \<in> set ws. a \<notin> snd ` set (addrs w)))
    \<and> (\<forall>w p. find_in env a ws = Inr (Some (w, p)) \<longrightarrow>
        (\<exists>us vs. ws = us @ w # vs \<and> (p, a) \<in> set (addrs w) \<and> (\<forall>u \<in> set us. a \<notin> snd ` set (addrs u))))"
  using assms
proof (induction ws)
  case (Cons v ws)
  then have v: "all_addresses env v = Inr (addrs v)" by simp
  note IH = Cons.IH [OF ballI [OF bspec [OF Cons.prems]], OF list.set_intros(2)]
  obtain q where find: "wallet_find env a v = Inr q" using v by (simp add: wallet_find_def)
  show ?case
  proof (cases q)
    case None
    then have no: "a \<notin> snd ` set (addrs v)" using wallet_find_cases(1) [OF v] find by simp
    show ?thesis
    proof
      show "(find_in env a (v # ws) = Inr None) = (\<forall>w\<in>set (v # ws). a \<notin> snd ` set (addrs w))"
        using IH None find no by simp
      show "\<forall>w p. find_in env a (v # ws) = Inr (Some (w, p)) \<longrightarrow>
          (\<exists>us vs. v # ws = us @ w # vs \<and> (p, a) \<in> set (addrs w) \<and> (\<forall>u \<in> set us. a \<notin> snd ` set (addrs u)))"
      proof (intro allI impI)
        fix w p assume "find_in env a (v # ws) = Inr (Some (w, p))"
        then obtain us vs where "ws = us @ w # vs" "(p, a) \<in> set (addrs w)" "\<forall>u \<in> set us. a \<notin> snd ` set (addrs u)"
          using IH None find by auto
        with no show "\<exists>us vs. v # ws = us @ w # vs \<and> (p, a) \<in> set (addrs w) \<and> (\<forall>u \<in> set us. a \<notin> snd ` set (addrs u))"
          by (intro exI [of _ "v # us"] exI [of _ vs]) auto
      qed
    qed
  next
    case (Some p)
    then have "(p, a) \<in> set (addrs v)" using wallet_find_cases(2) [OF v] find by simp
    then show ?thesis using Some find by force
  qed
qed simp

text \<open>Looking an address up over all wallets gives the first wallet that has it, under
  a path of that wallet, and finds nothing exactly when no wallet has it.\<close>

theorem find_first_wallet:
  assumes "\<forall>w \<in> set (ws_wallets s). all_addresses env w = Inr (addrs w)"
  shows "(wallets_find env a s = Inr None \<longleftrightarrow> (\<forall>w \<in> set (ws_wallets s). a \<notin> snd ` set (addrs w)))
    \<and> (\<forall>w p. wallets_find env a s = Inr (Some (w, p)) \<longrightarrow>
        (\<exists>us vs. ws_wallets s = us @ w # vs \<and> (p, a) \<in> set (addrs w) \<and> (\<forall>u \<in> set us. a \<notin> snd ` set (addrs u))))"
  unfolding wallets_find_def by (rule find_in_spec [OF assms])

theorem find_first_wallet_witness:
  "wallets_find toy_env 5 (toy_wallets\<lparr>ws_wallets := [HDWallet toy_hd]\<rparr>) = Inr None"
  using find_first_wallet [of "toy_wallets\<lparr>ws_wallets := [HDWallet toy_hd]\<rparr>" toy_env "\<lambda>_. [(''m/0'', 304)]" 5]
  by (simp add: toy_hd_def)

end
