(* ===== verification/Rpc.thy ===== *)
theory Rpc
  imports Connections Wallets Settings
begin

text \<open>
  The JSON-RPC handler of a connection (\<open>crates/rpc/src/lib.rs\<close>, \<open>error.rs\<close>, \<open>params.rs\<close>): its
  methods, how parameters are read, how errors become JSON-RPC errors, and the methods that answer
  from the context. What the parts of the program it calls hold is a \<open>rpc_world\<close>; what lies
  outside is the fields of a \<open>rpc_env\<close>.
\<close>

section \<open>Errors\<close>

datatype error_code =
    CodeParse | CodeInvalidRequest | CodeMethodNotFound | CodeInvalidParams | CodeInternal | CodeServer int

fun code_number :: "error_code \<Rightarrow> int" where
  "code_number CodeParse = -32700"
| "code_number CodeInvalidRequest = -32600"
| "code_number CodeMethodNotFound = -32601"
| "code_number CodeInvalidParams = -32602"
| "code_number CodeInternal = -32603"
| "code_number (CodeServer n) = n"

record jsonrpc_error =
  je_code :: error_code
  je_message :: string
  je_data :: "json option"

text \<open>\<open>RpcPanic\<close> is a panic of the task.\<close>

datatype rpc_error =
    TxDialogRejected
  | SignatureRejected
  | WalletNameNotFound string
  | WalletNotFound address
  | SignerBuild string
  | CannotParseUrl string
  | SignerError string
  | Transport string
  | Ethui string
  | JsonRpc jsonrpc_error
  | UnrecognizedChainId u32
  | Serde string
  | RpcIO string
  | CannotSimulate
  | RpcStatus int
  | ParseError
  | UserRejectedDialog
  | TokenInvalid
  | SymbolMissing
  | SymbolInvalid
  | DecimalsInvalid
  | NetworkInvalid
  | TypeInvalid string
  | ErcTypeInvalid string string
  | ErcWrongOwner
  | ErcInvalid
  | InvalidParams
  | RpcPanic string

text \<open>\<open>contains\<close> of a string.\<close>

fun contains_str :: "string \<Rightarrow> string \<Rightarrow> bool" where
  "contains_str p [] = (p = [])"
| "contains_str p (c # cs) = (starts_with p (c # cs) \<or> contains_str p cs)"

definition rpc_error_code :: "rpc_error \<Rightarrow> error_code" where
  "rpc_error_code e =
    (case e of
      TxDialogRejected \<Rightarrow> CodeServer 4001
    | SignatureRejected \<Rightarrow> CodeServer 4001
    | UserRejectedDialog \<Rightarrow> CodeServer 4001
    | ParseError \<Rightarrow> CodeParse
    | TypeInvalid _ \<Rightarrow> CodeInvalidParams
    | ErcTypeInvalid _ _ \<Rightarrow> CodeInvalidParams
    | ErcInvalid \<Rightarrow> CodeInvalidParams
    | ErcWrongOwner \<Rightarrow> CodeInvalidParams
    | DecimalsInvalid \<Rightarrow> CodeInvalidParams
    | TokenInvalid \<Rightarrow> CodeInvalidParams
    | SymbolMissing \<Rightarrow> CodeInvalidParams
    | SymbolInvalid \<Rightarrow> CodeInvalidParams
    | WalletNotFound _ \<Rightarrow> CodeServer 4100
    | NetworkInvalid \<Rightarrow> CodeServer 4901
    | Ethui m \<Rightarrow> (if contains_str ''invalid chain id'' (map lower_char m) then CodeServer 4902 else CodeInternal)
    | _ \<Rightarrow> CodeInternal)"

text \<open>The texts of the errors; \<open>show\<close> writes an address.\<close>

definition rpc_error_text :: "(address \<Rightarrow> string) \<Rightarrow> rpc_error \<Rightarrow> string" where
  "rpc_error_text show e =
    (case e of
      TxDialogRejected \<Rightarrow> ''Transaction rejected''
    | SignatureRejected \<Rightarrow> ''Signature rejected''
    | WalletNameNotFound n \<Rightarrow> ''Unknown wallet name: '' @ n
    | WalletNotFound a \<Rightarrow> ''Unknown wallet: '' @ show a
    | SignerBuild m \<Rightarrow> ''Error building signer: '' @ m
    | CannotParseUrl u \<Rightarrow> ''failed to parse URL '' @ u
    | SignerError m \<Rightarrow> m
    | Transport m \<Rightarrow> m
    | Ethui m \<Rightarrow> ''Ethui error: '' @ m
    | JsonRpc j \<Rightarrow> je_message j
    | UnrecognizedChainId c \<Rightarrow> ''Unrecognized chainID '' @ show_dec (unat c)
        @ ''. Try adding the chain using wallet_addEthereumChain first.''
    | Serde m \<Rightarrow> ''serialization error: '' @ m
    | RpcIO m \<Rightarrow> m
    | CannotSimulate \<Rightarrow> ''cannot simulate transaction''
    | RpcStatus n \<Rightarrow> ''RPC error: '' @ (if n < 0 then ''-'' else []) @ show_dec (nat \<bar>n\<bar>)
    | ParseError \<Rightarrow> ''Parse error''
    | UserRejectedDialog \<Rightarrow> ''The user rejected the request''
    | TokenInvalid \<Rightarrow> ''Invalid token''
    | SymbolMissing \<Rightarrow> ''Invalid token: '' @ [CHR 0x27] @ ''symbol'' @ [CHR 0x27] @ '' is needed''
    | SymbolInvalid \<Rightarrow> ''Invalid symbol : longer than 11 characters''
    | DecimalsInvalid \<Rightarrow> ''Invalid decimals : must be 0 <= 36''
    | NetworkInvalid \<Rightarrow> ''The Provider is not connected to the requested chain''
    | TypeInvalid t \<Rightarrow> ''Asset type '' @ t @ '' not supported''
    | ErcTypeInvalid t u \<Rightarrow> ''Added asset type '' @ t @ '' does not match existing token type '' @ u
    | ErcWrongOwner \<Rightarrow> ''Suggested asset is not owned by the selected account''
    | ErcInvalid \<Rightarrow> ''Unable to verify ownership. Possibly because the standard is not supported or the user'' @ [CHR 0x27]
        @ ''s currently selected network does not match the chain of the asset in question.''
    | InvalidParams \<Rightarrow> ''Invalid params for JSON-RPC method''
    | RpcPanic m \<Rightarrow> m)"


definition into_jsonrpc :: "(address \<Rightarrow> string) \<Rightarrow> rpc_error \<Rightarrow> jsonrpc_error" where
  "into_jsonrpc show e = \<lparr>je_code = rpc_error_code e, je_message = rpc_error_text show e, je_data = None\<rparr>"

text \<open>What a node answers with an error: a JSON-RPC error of its own, or a failure to answer.\<close>

datatype transport_error = ErrorResp int string "json option" | TransportFailed string

fun alloy_to_jsonrpc_error :: "transport_error \<Rightarrow> jsonrpc_error" where
  "alloy_to_jsonrpc_error (ErrorResp code message data) =
    \<lparr>je_code = CodeServer code, je_message = message, je_data = data\<rparr>"
| "alloy_to_jsonrpc_error (TransportFailed _) =
    \<lparr>je_code = CodeInternal, je_message = ''Internal error'', je_data = None\<rparr>"

section \<open>Parameters\<close>

text \<open>The parameters as a value: an array, an object, or \<open>Null\<close>. \<open>None\<close> is a panic.\<close>

definition extract_single_param :: "json \<Rightarrow> json option" where
  "extract_single_param params =
    (case params of
      JArr [] \<Rightarrow> None
    | JArr (x # _) \<Rightarrow> Some x
    | _ \<Rightarrow> Some params)"

definition invalid_params :: "string \<Rightarrow> jsonrpc_error" where
  "invalid_params m = \<lparr>je_code = CodeInvalidParams, je_message = m, je_data = None\<rparr>"

text \<open>\<open>params.parse()?\<close>: a derived deserializer gives a value or the text of an error.\<close>

definition parse_params :: "(json \<Rightarrow> string + 'a) \<Rightarrow> json \<Rightarrow> rpc_error + 'a" where
  "parse_params de params = map_sum (\<lambda>m. JsonRpc (invalid_params m)) id (de params)"

text \<open>The parameters of \<open>wallet_switchEthereumChain\<close>: the first of a list of chain ids in hexadecimal.\<close>

definition switch_chain_params :: "(json \<Rightarrow> string + string list) \<Rightarrow> json \<Rightarrow> rpc_error + string" where
  "switch_chain_params de params =
    (case parse_params de params of
      Inl e \<Rightarrow> Inl e
    | Inr [] \<Rightarrow> Inl InvalidParams
    | Inr (p # _) \<Rightarrow> Inr p)"

definition switch_chain_id :: "string \<Rightarrow> rpc_error + u64" where
  "switch_chain_id s =
    (case strip_prefix ''0x'' s of
      None \<Rightarrow> Inl InvalidParams
    | Some h \<Rightarrow> ok_or InvalidParams (from_str_radix h 16))"

section \<open>The world and the environment\<close>

text \<open>What a request does outside the program's own state, in order.\<close>

datatype rpc_effect =
    DialogOpened string json
  | DialogTold string string "json option"
  | MadeSignature signer json
  | Impersonated url address
  | TxSubmitted u64
  | SentTransaction url "signer option" json

record rpc_world =
  rw_conn :: world
  rw_wallets :: wallets_state
  rw_settings :: settings_actor
  rw_effects :: "rpc_effect list"

text \<open>
  Nodes, dialogs (by their kind; a request opens each kind at most once), derived deserializers,
  signatures, the clock, and the texts of errors from outside.
\<close>

record rpc_env =
  re_wallet :: wallet_env
  re_probe :: probe
  re_io :: io
  re_io_text :: string
  re_raw :: "network \<Rightarrow> string \<Rightarrow> json \<Rightarrow> transport_error + json"
  re_dialog :: "string \<Rightarrow> dialog_env"
  re_show :: "address \<Rightarrow> string"
  re_read :: "string \<Rightarrow> address option"
  re_switch :: "json \<Rightarrow> string + string list"
  re_permissions :: "json \<Rightarrow> string + permission_request"
  re_now :: string
  re_version :: string
  re_wallet_text :: "wl_error \<Rightarrow> string"
  re_sign :: "signer \<Rightarrow> json \<Rightarrow> string + string"
  re_message :: "string \<Rightarrow> bool"
  re_typed_data :: "string \<Rightarrow> string + json"
  re_opt_strings :: "json \<Rightarrow> string + string option list"

type_synonym 'a rpc_handler = "rpc_world \<Rightarrow> (rpc_error + 'a) \<times> rpc_world"

definition rw_effect :: "rpc_effect \<Rightarrow> rpc_world \<Rightarrow> rpc_world" where
  "rw_effect e w = w\<lparr>rw_effects := rw_effects w @ [e]\<rparr>"

definition from_conn :: "rpc_env \<Rightarrow> conn_error \<Rightarrow> rpc_error" where
  "from_conn env e =
    (case e of
      ConnIo \<Rightarrow> Ethui (re_io_text env)
    | InvalidChainId c \<Rightarrow> Ethui (''Invalid chain ID '' @ show_dec (unat c))
    | ConnPanic m \<Rightarrow> RpcPanic m)"

definition rpc_network :: "rpc_env \<Rightarrow> ctx \<Rightarrow> rpc_world \<Rightarrow> rpc_error + network" where
  "rpc_network env c w = map_sum (from_conn env) id (ctx_network c (rw_conn w))"

text \<open>The current wallet's address; its failures are panics.\<close>

definition rpc_current_wallet :: "rpc_world \<Rightarrow> rpc_error + wallet" where
  "rpc_current_wallet w = map_sum (\<lambda>_. RpcPanic ''current wallet'') id (get_current_wallet (rw_wallets w))"

definition rpc_current_address :: "rpc_env \<Rightarrow> rpc_world \<Rightarrow> rpc_error + address" where
  "rpc_current_address env w =
    map_sum (\<lambda>_. RpcPanic ''current address'') id (get_current_address (re_wallet env) (rw_wallets w))"

definition address_json :: "rpc_env \<Rightarrow> address \<Rightarrow> json" where
  "address_json env a = JStr (re_show env a)"

section \<open>Methods that answer from the state\<close>

definition rpc_accounts :: "rpc_env \<Rightarrow> json rpc_handler" where
  "rpc_accounts env w = (map_sum id (\<lambda>a. JArr [address_json env a]) (rpc_current_address env w), w)"

definition rpc_chain_id :: "rpc_env \<Rightarrow> ctx \<Rightarrow> json rpc_handler" where
  "rpc_chain_id env c w = (map_sum id (\<lambda>n. JStr (chain_id_hex n)) (rpc_network env c w), w)"

definition network_and_address :: "rpc_env \<Rightarrow> ctx \<Rightarrow> (network \<Rightarrow> address \<Rightarrow> json) \<Rightarrow> json rpc_handler" where
  "network_and_address env c f w =
    (case rpc_network env c w of
      Inl e \<Rightarrow> (Inl e, w)
    | Inr n \<Rightarrow> (map_sum id (f n) (rpc_current_address env w), w))"

definition metamask_provider_state :: "rpc_env \<Rightarrow> ctx \<Rightarrow> json rpc_handler" where
  "metamask_provider_state env c = network_and_address env c (\<lambda>n a. JObj
    [(''isUnlocked'', JBool True), (''chainId'', JStr (chain_id_hex n)),
     (''networkVersion'', JStr (show_dec (unat (chain_id n)))), (''accounts'', JArr [address_json env a])])"

definition ethui_provider_state :: "rpc_env \<Rightarrow> ctx \<Rightarrow> json rpc_handler" where
  "ethui_provider_state env c = network_and_address env c (\<lambda>n a. JObj
    [(''ethui'', JObj [(''version'', JStr (re_version env))]),
     (''network'', JObj [(''chainId'', JStr (chain_id_hex n))]), (''accounts'', JArr [address_json env a])])"

definition requested_json :: "requested_permission list \<Rightarrow> json" where
  "requested_json rs = JArr (map (\<lambda>r. JObj
    [(''parent_capability'', JStr (rp_parent_capability r)), (''date'', JStr (rp_date r))]) rs)"

definition permissions_json :: "permission list \<Rightarrow> json" where
  "permissions_json ps = JArr (map (\<lambda>p. JObj
    [(''invoker'', JStr (invoker p)), (''parent_capability'', JStr (parent_capability p)),
     (''caveats'', JArr (map (\<lambda>c. JObj [(''type'', JStr (cav_type c)), (''value'', cav_value c)]) (caveats p)))]) ps)"

text \<open>The context is the caller's own copy; what is changed in it goes away with the call.\<close>

definition rpc_request_permissions :: "rpc_env \<Rightarrow> json \<Rightarrow> ctx \<Rightarrow> (rpc_error + json) \<times> ctx" where
  "rpc_request_permissions env params c =
    (case parse_params (re_permissions env) params of
      Inl e \<Rightarrow> (Inl e, c)
    | Inr r \<Rightarrow> map_prod (Inr \<circ> requested_json) id (request_permissions (re_now env) r c))"

definition rpc_revoke_permissions :: "rpc_env \<Rightarrow> json \<Rightarrow> ctx \<Rightarrow> (rpc_error + json) \<times> ctx" where
  "rpc_revoke_permissions env params c =
    (case parse_params (re_permissions env) params of
      Inl e \<Rightarrow> (Inl e, c)
    | Inr r \<Rightarrow> map_prod (Inr \<circ> requested_json) id (revoke_permissions (re_now env) r c))"

definition rpc_get_permissions :: "ctx \<Rightarrow> json" where
  "rpc_get_permissions c = permissions_json (get_permissions c)"

definition rpc_switch_chain :: "rpc_env \<Rightarrow> json \<Rightarrow> ctx \<Rightarrow> json rpc_handler" where
  "rpc_switch_chain env params c w =
    (case switch_chain_params (re_switch env) params of
      Inl e \<Rightarrow> (Inl e, w)
    | Inr p \<Rightarrow>
        (case switch_chain_id p of
          Inl e \<Rightarrow> (Inl e, w)
        | Inr new \<Rightarrow>
            (case ctx_switch_chain (re_io env) new c (rw_conn w) of
              (r, conn) \<Rightarrow> (map_sum (from_conn env) (\<lambda>_. JNull) r, w\<lparr>rw_conn := conn\<rparr>))))"

definition rpc_unimplemented :: "json rpc_handler" where
  "rpc_unimplemented w =
    (Inl (JsonRpc \<lparr>je_code = CodeInternal, je_message = ''Internal error'', je_data = None\<rparr>), w)"

text \<open>Requests the node answers: a panic on the way to the node, or what the node says.\<close>

definition provider_handler :: "rpc_env \<Rightarrow> string \<Rightarrow> json \<Rightarrow> ctx \<Rightarrow> rpc_world \<Rightarrow> rpc_error + (jsonrpc_error + json)" where
  "provider_handler env name params c w =
    map_sum id (\<lambda>n. map_sum alloy_to_jsonrpc_error id (re_raw env n name params)) (rpc_network env c w)"

end
