(* ===== verification/Rpc_Sign.thy ===== *)
theory Rpc_Sign
  imports Rpc
begin

text \<open>
  Signing messages and typed data (\<open>crates/rpc/src/methods/sign_message.rs\<close>): with the current
  wallet, on the connection's network, after the user accepts, or at once on a development network
  with a development wallet in fast mode.
\<close>

datatype sign_data = SignRaw string | SignTyped json

fun sign_data_json :: "sign_data \<Rightarrow> json" where
  "sign_data_json (SignRaw m) = JObj [(''raw'', JStr m)]"
| "sign_data_json (SignTyped d) = JObj [(''typed'', d)]"

text \<open>
  The wallet is a clone; its secret cache is shared with the wallet it was cloned from, at
  \<open>sm_index\<close>.
\<close>

record sign_message =
  sm_wallet :: wallet
  sm_index :: nat
  sm_path :: string
  sm_network :: network
  sm_data :: sign_data

definition wallet_and_network :: "rpc_env \<Rightarrow> ctx \<Rightarrow> sign_data \<Rightarrow> rpc_world \<Rightarrow> rpc_error + sign_message" where
  "wallet_and_network env c d w =
    (case rpc_current_wallet w of
      Inl e \<Rightarrow> Inl e
    | Inr x \<Rightarrow>
        (case current_path (re_wallet env) x of
          Inl e \<Rightarrow> Inl (RpcPanic ''current path'')
        | Inr p \<Rightarrow>
            map_sum id (\<lambda>n. \<lparr>sm_wallet = x, sm_index = ws_current (rw_wallets w), sm_path = p, sm_network = n, sm_data = d\<rparr>)
              (rpc_network env c w)))"

text \<open>The \<open>i\<close>-th of the optional strings, when it is there and is not null.\<close>

definition opt_at :: "nat \<Rightarrow> string option list \<Rightarrow> string option" where
  "opt_at i xs = (if i < length xs then xs ! i else None)"

definition eth_sign_build :: "rpc_env \<Rightarrow> json \<Rightarrow> ctx \<Rightarrow> rpc_world \<Rightarrow> rpc_error + sign_message" where
  "eth_sign_build env params c w =
    (case parse_params (re_opt_strings env) params of
      Inl e \<Rightarrow> Inl e
    | Inr xs \<Rightarrow>
        (case opt_at 0 xs of
          None \<Rightarrow> Inl ParseError
        | Some m \<Rightarrow>
            (case Option.bind (opt_at 1 xs) (re_read env) of
              None \<Rightarrow> Inl ParseError
            | Some _ \<Rightarrow> wallet_and_network env c (SignRaw m) w)))"

definition eth_sign_typed_build :: "rpc_env \<Rightarrow> json \<Rightarrow> ctx \<Rightarrow> rpc_world \<Rightarrow> rpc_error + sign_message" where
  "eth_sign_typed_build env params c w =
    (case parse_params (re_opt_strings env) params of
      Inl e \<Rightarrow> Inl e
    | Inr xs \<Rightarrow>
        (case opt_at 1 xs of
          None \<Rightarrow> Inl ParseError
        | Some t \<Rightarrow>
            (case re_typed_data env t of
              Inl e \<Rightarrow> Inl (Serde e)
            | Inr d \<Rightarrow> wallet_and_network env c (SignTyped d) w)))"

definition sign_dialog :: "rpc_env \<Rightarrow> sign_message \<Rightarrow> unit rpc_handler" where
  "sign_dialog env m w =
    (if \<not> dl_open (re_dialog env ''msg-sign'') then (Inl (Ethui ''dialog''), w)
     else
       (let w1 = rw_effect (DialogOpened ''msg-sign'' (sign_data_json (sm_data m))) w in
         case dl_recv (re_dialog env ''msg-sign'') 0 of
           Some (DlgData j) \<Rightarrow> (if as_str j = Some ''accept'' then Inr () else Inl TxDialogRejected, w1)
         | _ \<Rightarrow> (Inl TxDialogRejected, w1)))"

definition set_wallet_at :: "nat \<Rightarrow> wallet \<Rightarrow> rpc_world \<Rightarrow> rpc_world" where
  "set_wallet_at i x w = w\<lparr>rw_wallets := (rw_wallets w)\<lparr>ws_wallets := (ws_wallets (rw_wallets w))[i := x]\<rparr>\<rparr>"

definition sign_with :: "rpc_env \<Rightarrow> sign_message \<Rightarrow> string rpc_handler" where
  "sign_with env m w =
    (case build_signer (re_wallet env) (chain_id (sm_network m)) (sm_path m) (sm_wallet m) of
      (r, x) \<Rightarrow>
        (let w1 = set_wallet_at (sm_index m) x w in
          case r of
            Inl e \<Rightarrow> (Inl (SignerBuild (re_wallet_text env e)), w1)
          | Inr s \<Rightarrow>
              if (case sm_data m of SignRaw t \<Rightarrow> \<not> re_message env t | _ \<Rightarrow> False) then (Inl (RpcPanic ''message''), w1)
              else
                (case re_sign env s (sign_data_json (sm_data m)) of
                  Inl e \<Rightarrow> (Inl (SignerError e), w1)
                | Inr sig \<Rightarrow> (Inr sig, rw_effect (MadeSignature s (sign_data_json (sm_data m))) w1))))"

definition sign_finish :: "rpc_env \<Rightarrow> sign_message \<Rightarrow> string rpc_handler" where
  "sign_finish env m w =
    (case is_dev (re_probe env) (sm_network m) of
      Inl e \<Rightarrow> (Inl (Ethui e), w)
    | Inr dev \<Rightarrow>
        if dev \<and> wallet_is_dev (sm_wallet m) \<and> fast_mode (get_all (rw_settings w)) then sign_with env m w
        else
          (case sign_dialog env m w of
            (Inl e, w1) \<Rightarrow> (Inl e, w1)
          | (Inr _, w1) \<Rightarrow> sign_with env m w1))"

definition run_sign :: "rpc_env \<Rightarrow> rpc_error + sign_message \<Rightarrow> json rpc_handler" where
  "run_sign env built w =
    (case built of
      Inl e \<Rightarrow> (Inl e, w)
    | Inr m \<Rightarrow> map_prod (map_sum id (\<lambda>sig. JStr (''0x'' @ sig))) id (sign_finish env m w))"

definition eth_sign :: "rpc_env \<Rightarrow> json \<Rightarrow> ctx \<Rightarrow> json rpc_handler" where
  "eth_sign env params c w = run_sign env (eth_sign_build env params c w) w"

definition eth_sign_typed_data :: "rpc_env \<Rightarrow> json \<Rightarrow> ctx \<Rightarrow> json rpc_handler" where
  "eth_sign_typed_data env params c w = run_sign env (eth_sign_typed_build env params c w) w"

section \<open>Signatures\<close>

definition accepted :: "rpc_env \<Rightarrow> string \<Rightarrow> bool" where
  "accepted env preset =
    (dl_open (re_dialog env preset) \<and> (\<exists>j. dl_recv (re_dialog env preset) 0 = Some (DlgData j) \<and> as_str j = Some ''accept''))"

text \<open>A signature of a request is by the current wallet on the connection's network, and approved.\<close>

definition approved_signing :: "rpc_env \<Rightarrow> ctx \<Rightarrow> rpc_world \<Rightarrow> signer \<Rightarrow> bool" where
  "approved_signing env c w s = (\<exists>x p n x'.
    rpc_current_wallet w = Inr x \<and> current_path (re_wallet env) x = Inr p \<and> rpc_network env c w = Inr n
    \<and> build_signer (re_wallet env) (chain_id n) p x = (Inr s, x')
    \<and> (accepted env ''msg-sign''
       \<or> is_dev (re_probe env) n = Inr True \<and> wallet_is_dev x \<and> fast_mode (get_all (rw_settings w))))"

lemma sign_dialog_effects:
  assumes "sign_dialog env m w = (r, w')"
  obtains ds where "rw_effects w' = rw_effects w @ ds" "set ds \<subseteq> {DialogOpened ''msg-sign'' (sign_data_json (sm_data m))}"
    "r = Inr () \<longleftrightarrow> accepted env ''msg-sign''"
proof -
  have "\<exists>ds. rw_effects w' = rw_effects w @ ds \<and> set ds \<subseteq> {DialogOpened ''msg-sign'' (sign_data_json (sm_data m))}"
    using assms by (auto simp: sign_dialog_def Let_def rw_effect_def split: if_splits option.splits dialog_msg.splits)
  moreover have "r = Inr () \<longleftrightarrow> accepted env ''msg-sign''"
    using assms by (auto simp: sign_dialog_def accepted_def Let_def split: if_splits option.splits dialog_msg.splits)
  ultimately show thesis using that by blast
qed

text \<open>At most one signature, by the signer of the message's wallet.\<close>

definition signs_once :: "rpc_env \<Rightarrow> sign_message \<Rightarrow> rpc_effect list \<Rightarrow> bool" where
  "signs_once env m sigs = (sigs = [] \<or> (\<exists>s x'. sigs = [MadeSignature s (sign_data_json (sm_data m))]
    \<and> build_signer (re_wallet env) (chain_id (sm_network m)) (sm_path m) (sm_wallet m) = (Inr s, x')))"

lemma sign_with_effects:
  assumes "sign_with env m w = (r, w')"
  obtains sigs where "rw_effects w' = rw_effects w @ sigs" "is_ok r \<longleftrightarrow> sigs \<noteq> []" "signs_once env m sigs"
proof -
  have "\<exists>sigs. rw_effects w' = rw_effects w @ sigs \<and> (is_ok r \<longleftrightarrow> sigs \<noteq> []) \<and> signs_once env m sigs"
    using assms
    by (auto simp: sign_with_def signs_once_def Let_def set_wallet_at_def rw_effect_def split: prod.splits sum.splits if_splits)
  then show thesis using that by blast
qed

lemma sign_finish_effects:
  assumes "sign_finish env m w = (r, w')"
  obtains ds sigs where "rw_effects w' = rw_effects w @ ds @ sigs"
    "set ds \<subseteq> {DialogOpened ''msg-sign'' (sign_data_json (sm_data m))}"
    "is_ok r \<longleftrightarrow> sigs \<noteq> []" "signs_once env m sigs"
    "sigs \<noteq> [] \<longrightarrow> accepted env ''msg-sign'' \<or> is_dev (re_probe env) (sm_network m) = Inr True
      \<and> wallet_is_dev (sm_wallet m) \<and> fast_mode (get_all (rw_settings w))"
proof (cases "is_dev (re_probe env) (sm_network m)")
  case (Inl e)
  with assms that [of "[]" "[]"] show ?thesis by (auto simp: sign_finish_def signs_once_def)
next
  case (Inr dev)
  show ?thesis
  proof (cases "dev \<and> wallet_is_dev (sm_wallet m) \<and> fast_mode (get_all (rw_settings w))")
    case True
    with assms Inr have "sign_with env m w = (r, w')" by (simp add: sign_finish_def)
    then obtain sigs where "rw_effects w' = rw_effects w @ sigs" "is_ok r \<longleftrightarrow> sigs \<noteq> []" "signs_once env m sigs"
      by (rule sign_with_effects)
    with that [of "[]" sigs] True Inr show ?thesis by simp
  next
    case False
    obtain q w1 where d: "sign_dialog env m w = (q, w1)" by fastforce
    then obtain ds where ds: "rw_effects w1 = rw_effects w @ ds"
      "set ds \<subseteq> {DialogOpened ''msg-sign'' (sign_data_json (sm_data m))}" "q = Inr () \<longleftrightarrow> accepted env ''msg-sign''"
      by (rule sign_dialog_effects)
    show ?thesis
    proof (cases q)
      case (Inl e)
      with assms Inr False d have "r = Inl e" "w' = w1" by (auto simp: sign_finish_def)
      with that [of ds "[]"] ds show ?thesis by (simp add: signs_once_def)
    next
      case ok: (Inr u)
      with assms Inr False d have "sign_with env m w1 = (r, w')" by (auto simp: sign_finish_def)
      then obtain sigs where "rw_effects w' = rw_effects w1 @ sigs" "is_ok r \<longleftrightarrow> sigs \<noteq> []" "signs_once env m sigs"
        by (rule sign_with_effects)
      with that [of ds sigs] ds ok show ?thesis by simp
    qed
  qed
qed

lemma run_sign_effects:
  assumes "run_sign env built w = (r, w')"
  shows "(\<exists>e. built = Inl e \<and> r = Inl e \<and> w' = w) \<or> (\<exists>m q. built = Inr m \<and> sign_finish env m w = (q, w') \<and> is_ok r = is_ok q)"
  using assms by (cases built; cases "sign_finish env (projr built) w"; cases "fst (sign_finish env (projr built) w)")
    (auto simp: run_sign_def)

lemma wallet_and_network_Inr:
  "wallet_and_network env c d w = Inr m \<longleftrightarrow>
    (\<exists>x p n. rpc_current_wallet w = Inr x \<and> current_path (re_wallet env) x = Inr p \<and> rpc_network env c w = Inr n
      \<and> m = \<lparr>sm_wallet = x, sm_index = ws_current (rw_wallets w), sm_path = p, sm_network = n, sm_data = d\<rparr>)"
  by (auto simp: wallet_and_network_def split: sum.splits) (cases "rpc_network env c w"; force)+

lemma eth_sign_build_Inr:
  "eth_sign_build env params c w = Inr m \<Longrightarrow> \<exists>d. wallet_and_network env c d w = Inr m"
  "eth_sign_typed_build env params c w = Inr m \<Longrightarrow> \<exists>d. wallet_and_network env c d w = Inr m"
  by (auto simp: eth_sign_build_def eth_sign_typed_build_def split: sum.splits option.splits)

text \<open>C1. A signing request makes at most one signature, and exactly one when it succeeds; the
  signature is by the signer of the current wallet at its current path, for the chain of the
  connection, and only if the user accepted the dialog, or fast mode is on and both the network and
  the wallet are for development.\<close>

theorem signing_needs_approval:
  assumes "eth_sign env params c w = (r, w') \<or> eth_sign_typed_data env params c w = (r, w')"
  shows "\<exists>new. rw_effects w' = rw_effects w @ new
    \<and> length (filter (\<lambda>e. \<exists>s d. e = MadeSignature s d) new) = (if is_ok r then 1 else 0)
    \<and> (\<forall>s d. MadeSignature s d \<in> set new \<longrightarrow> approved_signing env c w s)"
proof -
  obtain built where built: "run_sign env built w = (r, w')"
    and wan: "\<And>m. built = Inr m \<Longrightarrow> \<exists>d. wallet_and_network env c d w = Inr m"
    using assms eth_sign_build_Inr by (auto simp: eth_sign_def eth_sign_typed_data_def)
  from run_sign_effects [OF built] show ?thesis
  proof (elim disjE exE conjE)
    fix e assume "r = Inl e" "w' = w"
    then show ?thesis by simp
  next
    fix m q assume m: "built = Inr m" and fin: "sign_finish env m w = (q, w')" and ok: "is_ok r = is_ok q"
    from wan [OF m] obtain d x p n where x: "rpc_current_wallet w = Inr x" "current_path (re_wallet env) x = Inr p"
      "rpc_network env c w = Inr n" and m_eq: "sm_wallet m = x" "sm_path m = p" "sm_network m = n"
      by (auto simp: wallet_and_network_Inr)
    from fin obtain ds sigs where e: "rw_effects w' = rw_effects w @ ds @ sigs"
      and ds: "set ds \<subseteq> {DialogOpened ''msg-sign'' (sign_data_json (sm_data m))}" and iff: "is_ok q \<longleftrightarrow> sigs \<noteq> []"
      and once: "signs_once env m sigs" and why: "sigs \<noteq> [] \<longrightarrow> accepted env ''msg-sign'' \<or> is_dev (re_probe env) (sm_network m) = Inr True
        \<and> wallet_is_dev (sm_wallet m) \<and> fast_mode (get_all (rw_settings w))"
      by (rule sign_finish_effects)
    from ds have none: "filter (\<lambda>e. \<exists>s d. e = MadeSignature s d) ds = []" "\<And>s d. MadeSignature s d \<notin> set ds"
      by (auto simp: filter_empty_conv)
    show ?thesis
    proof (cases "sigs = []")
      case True
      with e none iff ok show ?thesis by (intro exI [of _ ds]) simp
    next
      case False
      with once why obtain s x' where s: "sigs = [MadeSignature s (sign_data_json (sm_data m))]"
        "build_signer (re_wallet env) (chain_id n) p x = (Inr s, x')"
        "accepted env ''msg-sign'' \<or> is_dev (re_probe env) n = Inr True \<and> wallet_is_dev x \<and> fast_mode (get_all (rw_settings w))"
        unfolding m_eq signs_once_def by blast
      then have "approved_signing env c w s" unfolding approved_signing_def using x by blast
      with e none iff ok s(1) show ?thesis by (intro exI [of _ "ds @ sigs"]) auto
    qed
  qed
qed

text \<open>The address a signing request names is not used: any two addresses give the same
  signature, by the current wallet.\<close>

theorem sign_ignores_address:
  assumes "re_opt_strings env p = Inr [Some m, Some a]" "re_opt_strings env q = Inr [Some m, Some b]"
    and "re_read env a \<noteq> None" "re_read env b \<noteq> None"
  shows "eth_sign env p c w = eth_sign env q c w"
  using assms by (auto simp: eth_sign_def eth_sign_build_def parse_params_def opt_at_def)


section \<open>Examples\<close>

definition toy_dialog :: "json \<Rightarrow> dialog_env" where
  "toy_dialog answer = \<lparr>dl_open = True, dl_recv = (\<lambda>_. Some (DlgData answer)), dl_send = (\<lambda>_. True)\<rparr>"

definition toy_rpc_env :: rpc_env where
  "toy_rpc_env = \<lparr>re_wallet = toy_env, re_probe = (\<lambda>_. Inr False), re_io = IoOk, re_io_text = [],
    re_raw = (\<lambda>_ _ _. Inr JNull), re_dialog = (\<lambda>_. toy_dialog (JStr ''accept'')), re_show = (\<lambda>a. show_hex (unat a)),
    re_read = (\<lambda>s. Some (of_nat (length s))), re_switch = (\<lambda>_. Inr [''0xaa36a7'']), re_permissions = (\<lambda>_. Inr []),
    re_now = [], re_version = [], re_wallet_text = (\<lambda>_. []), re_sign = (\<lambda>_ _. Inr ''ab''), re_message = (\<lambda>_. True),
    re_typed_data = (\<lambda>_. Inr JNull), re_opt_strings = (\<lambda>j. Inr [Some ''0x00'', Some (if j = JNull then ''a'' else ''bb'')])\<rparr>"

definition toy_rpc_world :: rpc_world where
  "toy_rpc_world = \<lparr>rw_conn = fresh_world,
    rw_wallets = \<lparr>ws_wallets = [Plaintext plaintext_default], ws_current = 0, ws_file = Absent, ws_sent = [], ws_spawned = []\<rparr>,
    rw_settings = \<lparr>st_inner = settings_default, st_file = Absent, st_sent = [], st_told = []\<rparr>, rw_effects = []\<rparr>"

lemmas toy_rpc_defs = toy_rpc_env_def toy_rpc_world_def toy_dialog_def fresh_world_def toy_env_def

lemma toy_rpc_network: "rpc_network toy_rpc_env (site ''a'') toy_rpc_world = Inr (anvil 0)"
  by (simp add: rpc_network_def ctx_network_def ctx_chain_id_def ctx_get_affinity_def site_def toy_rpc_world_def fresh_world_def
      store_get_affinity_def affinity_default_def get_current_inner_def nw_default_def nw_get_def types_defs)

theorem sign_ignores_address_witness:
  "eth_sign toy_rpc_env JNull (site ''a'') toy_rpc_world = eth_sign toy_rpc_env (JBool True) (site ''a'') toy_rpc_world"
  by (rule sign_ignores_address [where m = "''0x00''" and a = "''a''" and b = "''bb''"]) (simp_all add: toy_rpc_env_def)

lemma toy_rpc_sel [simp]:
  "re_wallet toy_rpc_env = toy_env" "re_dialog toy_rpc_env = (\<lambda>_. toy_dialog (JStr ''accept''))"
  "re_sign toy_rpc_env s j = Inr ''ab''" "re_message toy_rpc_env t = True" "re_read toy_rpc_env t = Some (of_nat (length t))"
  "re_opt_strings toy_rpc_env j = Inr [Some ''0x00'', Some (if j = JNull then ''a'' else ''bb'')]"
  by (simp_all add: toy_rpc_env_def)

lemma toy_current: "rpc_current_wallet toy_rpc_world = Inr (Plaintext plaintext_default)"
  by (simp add: rpc_current_wallet_def get_current_wallet_def toy_rpc_world_def)

lemma toy_approved: "accepted toy_rpc_env ''msg-sign''"
  by (simp add: accepted_def toy_dialog_def)

theorem signing_needs_approval_witness:
  "\<exists>s. approved_signing toy_rpc_env (site ''a'') toy_rpc_world s"
proof -
  obtain r w' where r: "eth_sign toy_rpc_env JNull (site ''a'') toy_rpc_world = (r, w')" by fastforce
  let ?p = "pt_current_path plaintext_default"
  let ?m = "\<lparr>sm_wallet = Plaintext plaintext_default, sm_index = 0, sm_path = ?p, sm_network = anvil 0, sm_data = SignRaw ''0x00''\<rparr>"
  have "wallet_and_network toy_rpc_env (site ''a'') (SignRaw ''0x00'') toy_rpc_world = Inr ?m"
    unfolding wallet_and_network_Inr by (simp add: toy_current toy_rpc_network) (simp add: toy_rpc_world_def)
  then have built: "eth_sign_build toy_rpc_env JNull (site ''a'') toy_rpc_world = Inr ?m"
    by (simp add: eth_sign_build_def parse_params_def opt_at_def)
  obtain q w1 where d: "sign_dialog toy_rpc_env ?m toy_rpc_world = (q, w1)" by fastforce
  then have q: "q = Inr ()" using toy_approved by (metis sign_dialog_effects)
  have "we_derive toy_env x y = Inr (of_nat (length x + 100 * length y))" for x y by (simp add: toy_env_def)
  then have "is_ok (fst (sign_with toy_rpc_env ?m w1))"
    by (simp add: sign_with_def pt_build_signer_def Let_def)
  moreover have "sign_finish toy_rpc_env ?m toy_rpc_world = sign_with toy_rpc_env ?m w1"
    using d q by (simp add: sign_finish_def is_dev_anvil types_defs toy_rpc_world_def get_all_def settings_default_def)
  ultimately have "is_ok r"
    using run_sign_effects [of toy_rpc_env "Inr ?m" toy_rpc_world r w'] r built by (auto simp: eth_sign_def)
  with signing_needs_approval [of toy_rpc_env JNull "site ''a''" toy_rpc_world r w'] r
  obtain new where "length (filter (\<lambda>e. \<exists>s d. e = MadeSignature s d) new) = 1"
    "\<forall>s d. MadeSignature s d \<in> set new \<longrightarrow> approved_signing toy_rpc_env (site ''a'') toy_rpc_world s" by auto
  then have "filter (\<lambda>e. \<exists>s d. e = MadeSignature s d) new \<noteq> []" by force
  then obtain s d where "MadeSignature s d \<in> set new" by (auto simp: filter_empty_conv)
  with \<open>\<forall>s d. MadeSignature s d \<in> set new \<longrightarrow> _\<close> show ?thesis by blast
qed

end
