(* ===== verification/Rpc_Chains.thy ===== *)
theory Rpc_Chains
  imports Rpc_Sign
begin

text \<open>
  Adding and updating a chain on a site's request (\<open>crates/rpc/src/methods/chain_add.rs\<close> and
  \<open>chain_update.rs\<close>). Each waits for the user; a method that never gets an answer is \<open>None\<close>.
\<close>

section \<open>Parameters\<close>

text \<open>\<open>chain_add::ChainAdd\<close> and \<open>chain_update::ChainUpdate\<close> have the same fields.\<close>

record chain_params =
  cp_chain_id :: u64
  cp_chain_name :: string
  cp_rpc_urls :: "url list"
  cp_symbol :: string
  cp_decimals :: u64
  cp_explorers :: "url list option"

text \<open>The derived deserializer, the scheme and the text of a URL, the dialogs' payloads, error texts.\<close>

record chain_env =
  ce_params :: "json \<Rightarrow> string + chain_params"
  ce_scheme :: "url \<Rightarrow> string"
  ce_url_text :: "url \<Rightarrow> string"
  ce_payload :: "new_network_params \<Rightarrow> json"
  ce_error_text :: "nw_error \<Rightarrow> string"

definition chain_build :: "chain_env \<Rightarrow> json \<Rightarrow> rpc_error + chain_params" where
  "chain_build ce params =
    (case extract_single_param params of
      None \<Rightarrow> Inl (RpcPanic ''index out of bounds'')
    | Some p \<Rightarrow> map_sum Serde id (ce_params ce p))"

definition find_url :: "chain_env \<Rightarrow> string \<Rightarrow> chain_params \<Rightarrow> url option" where
  "find_url ce prefix p = List.find (\<lambda>u. starts_with prefix (ce_scheme ce u)) (cp_rpc_urls p)"

text \<open>\<open>expect\<close> panics where there is no HTTP URL; the decimals are cut to 32 bits.\<close>

definition into_new_network :: "chain_env \<Rightarrow> chain_params \<Rightarrow> rpc_error + new_network_params" where
  "into_new_network ce p =
    (case find_url ce ''http'' p of
      None \<Rightarrow> Inl (RpcPanic ''http url not found'')
    | Some u \<Rightarrow> Inr \<lparr>np_name = cp_chain_name p, np_chain_id = cp_chain_id p,
        np_explorer_url = (case cp_explorers p of Some (e # _) \<Rightarrow> Some (ce_url_text ce e) | _ \<Rightarrow> None),
        np_http_url = u, np_ws_url = find_url ce ''ws'' p, np_currency = cp_symbol p,
        np_decimals = ucast (cp_decimals p), np_is_stack = False\<rparr>)"

section \<open>The user's answer\<close>

text \<open>
  \<open>while let Some(msg) = dialog.recv()\<close> until \<open>accept\<close> or a close; other data is skipped. \<open>Gone\<close>
  is \<open>recv\<close> giving \<open>None\<close>.
\<close>

datatype dialog_answer = Accepts | Closes | Gone

partial_function (option) wait_answer :: "(nat \<Rightarrow> dialog_msg option) \<Rightarrow> nat \<Rightarrow> dialog_answer option" where
  "wait_answer recv i =
    (case recv i of
      None \<Rightarrow> Some Gone
    | Some DlgClose \<Rightarrow> Some Closes
    | Some (DlgData j) \<Rightarrow> if as_str j = Some ''accept'' then Some Accepts else wait_answer recv (Suc i))"

declare wait_answer.simps [code]

definition ask :: "rpc_env \<Rightarrow> string \<Rightarrow> json \<Rightarrow> (dialog_answer \<Rightarrow> json rpc_handler) \<Rightarrow> rpc_world
    \<Rightarrow> ((rpc_error + json) \<times> rpc_world) option" where
  "ask env preset payload k w =
    (if \<not> dl_open (re_dialog env preset) then Some (Inl (Ethui ''dialog''), w)
     else
       (case wait_answer (dl_recv (re_dialog env preset)) 0 of
         None \<Rightarrow> None
       | Some a \<Rightarrow> Some (k a (rw_effect (DialogOpened preset payload) w))))"

section \<open>Messages to the networks actor\<close>

definition on_networks :: "(networks_actor, nw_error, unit) handler \<Rightarrow> chain_env \<Rightarrow> unit rpc_handler" where
  "on_networks h ce w =
    (case h (w_nets (rw_conn w)) of
      (r, s) \<Rightarrow> (map_sum (\<lambda>e. Ethui (ce_error_text ce e)) id r, w\<lparr>rw_conn := (rw_conn w)\<lparr>w_nets := s\<rparr>\<rparr>))"

definition chain_known :: "u64 \<Rightarrow> rpc_world \<Rightarrow> bool" where
  "chain_known c w = validate_chain_id (w_nets (rw_conn w)) c"

section \<open>Adding\<close>

definition chain_add_run :: "rpc_env \<Rightarrow> chain_env \<Rightarrow> chain_params \<Rightarrow> rpc_world \<Rightarrow> ((rpc_error + json) \<times> rpc_world) option" where
  "chain_add_run env ce p w =
    (case into_new_network ce p of
      Inl e \<Rightarrow> Some (Inl e, w)
    | Inr n \<Rightarrow>
        if chain_known (cp_chain_id p) w then Some (Inr JNull, w)
        else
          ask env ''chain-add'' (ce_payload ce n)
            (\<lambda>a w. case a of
                Accepts \<Rightarrow> map_prod (map_sum id (\<lambda>_. JNull)) id (on_networks (nw_add (re_probe env) (re_io env) n) ce w)
              | _ \<Rightarrow> (Inr JNull, w)) w)"

definition chain_add :: "rpc_env \<Rightarrow> chain_env \<Rightarrow> json \<Rightarrow> rpc_world \<Rightarrow> ((rpc_error + json) \<times> rpc_world) option" where
  "chain_add env ce params w =
    (case chain_build ce params of Inl e \<Rightarrow> Some (Inl e, w) | Inr p \<Rightarrow> chain_add_run env ce p w)"

section \<open>Updating\<close>

definition rpc_current_network :: "rpc_world \<Rightarrow> rpc_error + network" where
  "rpc_current_network w = map_sum (\<lambda>_. RpcPanic ''networks actor not available'') id (get_current_inner (w_nets (rw_conn w)))"

text \<open>The network the request is about has the identifier of the network of its name, or \<open>0\<close>.\<close>

definition build_network :: "chain_env \<Rightarrow> chain_params \<Rightarrow> rpc_world \<Rightarrow> rpc_error + (network \<times> new_network_params)" where
  "build_network ce p w =
    (case into_new_network ce p of
      Inl e \<Rightarrow> Inl e
    | Inr n \<Rightarrow>
        (let d = (case nw_get (w_nets (rw_conn w)) (KeyName (cp_chain_name p)) of None \<Rightarrow> 0 | Some m \<Rightarrow> dedup_id m) in
          Inr (into_network n d, n)))"

definition switch_payload :: "network \<Rightarrow> network \<Rightarrow> json" where
  "switch_payload old new = JObj [(''oldId'', JInt (uint (chain_id old))), (''newId'', JInt (uint (chain_id new)))]"

definition chain_switch_run :: "rpc_env \<Rightarrow> chain_env \<Rightarrow> network \<Rightarrow> rpc_world \<Rightarrow> ((rpc_error + json) \<times> rpc_world) option" where
  "chain_switch_run env ce n w =
    (case rpc_current_network w of
      Inl e \<Rightarrow> Some (Inl e, w)
    | Inr cur \<Rightarrow>
        ask env ''chain-switch'' (switch_payload cur n)
          (\<lambda>a w. case a of
              Accepts \<Rightarrow> map_prod (map_sum id (\<lambda>_. JNull)) id (on_networks (nw_set_current (re_io env) (KeyId (net_id n))) ce w)
            | Closes \<Rightarrow> (Inl UserRejectedDialog, w)
            | Gone \<Rightarrow> (Inr JNull, w)) w)"

definition chain_update_run :: "rpc_env \<Rightarrow> chain_env \<Rightarrow> chain_params \<Rightarrow> rpc_world \<Rightarrow> ((rpc_error + json) \<times> rpc_world) option" where
  "chain_update_run env ce p w =
    (case build_network ce p w of
      Inl e \<Rightarrow> Some (Inl e, w)
    | Inr (n, params) \<Rightarrow>
        (case rpc_current_network w of
          Inl e \<Rightarrow> Some (Inl e, w)
        | Inr cur \<Rightarrow>
            if chain_id cur = chain_id n then Some (Inr (JBool True), w)
            else if nw_get (w_nets (rw_conn w)) (KeyName (net_name n)) \<noteq> None then chain_switch_run env ce n w
            else
              (case ask env ''chain-add'' (ce_payload ce params)
                  (\<lambda>a w. case a of
                      Accepts \<Rightarrow> map_prod (map_sum id (\<lambda>_. JNull)) id (on_networks (nw_add (re_probe env) (re_io env) params) ce w)
                    | Closes \<Rightarrow> (Inl UserRejectedDialog, w)
                    | Gone \<Rightarrow> (Inr JNull, w)) w of
                None \<Rightarrow> None
              | Some (Inl e, w1) \<Rightarrow> Some (Inl e, w1)
              | Some (Inr _, w1) \<Rightarrow> chain_switch_run env ce n w1)))"

definition chain_update :: "rpc_env \<Rightarrow> chain_env \<Rightarrow> json \<Rightarrow> rpc_world \<Rightarrow> ((rpc_error + json) \<times> rpc_world) option" where
  "chain_update env ce params w =
    (case chain_build ce params of Inl e \<Rightarrow> Some (Inl e, w) | Inr p \<Rightarrow> chain_update_run env ce p w)"

text \<open>The state in which an update waits for an answer that never comes (where \<open>chain_update\<close> is \<open>None\<close>): when it waits
  for the second, the network may have been added.\<close>

definition chain_update_waits :: "rpc_env \<Rightarrow> chain_env \<Rightarrow> json \<Rightarrow> rpc_world \<Rightarrow> rpc_world" where
  "chain_update_waits env ce params w =
    (case chain_build ce params of
      Inl e \<Rightarrow> w
    | Inr p \<Rightarrow>
        (case build_network ce p w of
          Inl e \<Rightarrow> w
        | Inr (n, np) \<Rightarrow>
            if nw_get (w_nets (rw_conn w)) (KeyName (net_name n)) \<noteq> None then w
            else
              (case ask env ''chain-add'' (ce_payload ce np)
                  (\<lambda>a w. case a of
                      Accepts \<Rightarrow> map_prod (map_sum id (\<lambda>_. JNull)) id (on_networks (nw_add (re_probe env) (re_io env) np) ce w)
                    | Closes \<Rightarrow> (Inl UserRejectedDialog, w)
                    | Gone \<Rightarrow> (Inr JNull, w)) w of
                Some (Inr _, w1) \<Rightarrow> w1
              | _ \<Rightarrow> w)))"

section \<open>Adding asks first\<close>

lemma on_networks_frame:
  "on_networks h ce w = (r, w') \<Longrightarrow> rw_wallets w' = rw_wallets w \<and> rw_settings w' = rw_settings w \<and> rw_effects w' = rw_effects w
    \<and> w_store (rw_conn w') = w_store (rw_conn w)"
  by (auto simp: on_networks_def split: prod.splits)

lemma rw_effect_simps [simp]:
  "rw_conn (rw_effect e w) = rw_conn w" "rw_wallets (rw_effect e w) = rw_wallets w" "rw_settings (rw_effect e w) = rw_settings w"
  "rw_effects (rw_effect e w) = rw_effects w @ [e]"
  by (simp_all add: rw_effect_def)

lemma nw_add_ok:
  assumes "nw_add probe i n s = (Inr u, s')"
  obtains m where "m = into_network n (of_nat (get_chain_id_count s (np_chain_id n)))" "i = IoOk"
    "nets s' = hm_insert (np_name n) m (nets s)" "nw_file s' = Saved (nw_inner s')" "current s' = current s"
    "\<not> hm_contains (nets s) (np_name n)"
  using assms
  by (auto simp: nw_add_eq Let_def save_then_def split: if_splits sum.splits)

lemma chain_known_insert: "validate_chain_id s c \<longleftrightarrow> (\<exists>m \<in> set (hm_values (nets s)). chain_id m = c)"
  by (auto simp: validate_chain_id_def list_ex_iff)

text \<open>C15. Adding a chain that is known changes nothing and asks nothing. One that is not known
  opens at most the one dialog, showing the network asked for, and the networks change only if the user
  accepted it there; wallets, settings and affinities never change. When it reports success after an acceptance,
  exactly one network is added, under a name that was free, with the chain and URL asked for; the file has
  been written, and the current network is still the same name.\<close>

theorem chain_add_asks:
  assumes "chain_add_run env ce p w = Some (r, w')"
  shows "(chain_known (cp_chain_id p) w \<longrightarrow> w' = w)
    \<and> rw_wallets w' = rw_wallets w \<and> rw_settings w' = rw_settings w \<and> w_store (rw_conn w') = w_store (rw_conn w)
    \<and> (w' \<noteq> w \<longrightarrow> (\<exists>n. into_new_network ce p = Inr n \<and> rw_effects w' = rw_effects w @ [DialogOpened ''chain-add'' (ce_payload ce n)]))
    \<and> (rw_conn w' \<noteq> rw_conn w \<longrightarrow> wait_answer (dl_recv (re_dialog env ''chain-add'')) 0 = Some Accepts)
    \<and> (\<not> chain_known (cp_chain_id p) w \<longrightarrow> wait_answer (dl_recv (re_dialog env ''chain-add'')) 0 = Some Accepts \<longrightarrow> is_ok r \<longrightarrow>
        (\<exists>m. nets (w_nets (rw_conn w')) = hm_insert (cp_chain_name p) m (nets (w_nets (rw_conn w)))
          \<and> \<not> hm_contains (nets (w_nets (rw_conn w))) (cp_chain_name p) \<and> chain_id m = cp_chain_id p
          \<and> find_url ce ''http'' p = Some (http_url m) \<and> nw_file (w_nets (rw_conn w')) = Saved (nw_inner (w_nets (rw_conn w')))
          \<and> current (w_nets (rw_conn w')) = current (w_nets (rw_conn w))))"
proof (cases "into_new_network ce p")
  case (Inl e)
  with assms show ?thesis by (auto simp: chain_add_run_def)
next
  case (Inr n)
  then have n: "np_name n = cp_chain_name p" "np_chain_id n = cp_chain_id p" "find_url ce ''http'' p = Some (np_http_url n)"
    by (auto simp: into_new_network_def split: option.splits)
  show ?thesis
  proof (cases "chain_known (cp_chain_id p) w \<or> \<not> dl_open (re_dialog env ''chain-add'')")
    case True
    with assms Inr show ?thesis by (auto simp: chain_add_run_def ask_def split: if_splits)
  next
    case False
    with assms Inr obtain a where a: "wait_answer (dl_recv (re_dialog env ''chain-add'')) 0 = Some a"
      by (auto simp: chain_add_run_def ask_def split: option.splits)
    let ?w = "rw_effect (DialogOpened ''chain-add'' (ce_payload ce n)) w"
    show ?thesis
    proof (cases a)
      case Accepts
      obtain q s' where h: "nw_add (re_probe env) (re_io env) n (w_nets (rw_conn w)) = (q, s')" by fastforce
      with assms Inr False a Accepts have "w' = ?w\<lparr>rw_conn := (rw_conn w)\<lparr>w_nets := s'\<rparr>\<rparr>" and r: "is_ok r \<longleftrightarrow> is_ok q"
        by (auto simp: chain_add_run_def ask_def on_networks_def split: sum.splits)
      moreover have "\<exists>m. nets s' = hm_insert (cp_chain_name p) m (nets (w_nets (rw_conn w)))
          \<and> \<not> hm_contains (nets (w_nets (rw_conn w))) (cp_chain_name p) \<and> chain_id m = cp_chain_id p
          \<and> find_url ce ''http'' p = Some (http_url m) \<and> nw_file s' = Saved (nw_inner s') \<and> current s' = current (w_nets (rw_conn w))"
        if "is_ok q"
      proof -
        from that obtain u where "q = Inr u" by (auto simp: is_ok_iff)
        with h obtain m where "m = into_network n (of_nat (get_chain_id_count (w_nets (rw_conn w)) (np_chain_id n)))"
          "nets s' = hm_insert (np_name n) m (nets (w_nets (rw_conn w)))" "nw_file s' = Saved (nw_inner s')"
          "current s' = current (w_nets (rw_conn w))" "\<not> hm_contains (nets (w_nets (rw_conn w))) (np_name n)" by (auto elim: nw_add_ok)
        then show ?thesis using n by (intro exI [of _ m]) (simp add: into_network_def chain_id_def network_id_from_def)
      qed
      ultimately show ?thesis using Inr False a Accepts by simp
    qed (use assms Inr False a in \<open>auto simp: chain_add_run_def ask_def\<close>)
  qed
qed

section \<open>Updating selects by identifier\<close>

definition accepts :: "rpc_env \<Rightarrow> string \<Rightarrow> bool" where
  "accepts env preset = (dl_open (re_dialog env preset) \<and> wait_answer (dl_recv (re_dialog env preset)) 0 = Some Accepts)"

lemma ask_accepted: "accepts env preset \<Longrightarrow> ask env preset payload k w = Some (k Accepts (rw_effect (DialogOpened preset payload) w))"
  by (simp add: accepts_def ask_def)

lemma set_current_found:
  assumes "keyed (nets s)" "List.find (\<lambda>n. net_id n = i) (hm_values (nets s)) = Some m"
  shows "\<exists>s'. nw_set_current IoOk (KeyId i) s = (Inr (), s') \<and> get_current_inner s' = Inr m \<and> nets s' = nets s"
proof -
  have m: "m \<in> set (hm_values (nets s))" using assms(2) by (auto dest: find_Some_set)
  then have "hm_get (nets s) (net_name m) = Some m" by (rule keyed_value [OF assms(1)])
  then have cur: "get_current_inner (set_current_name (net_name m) s) = Inr m" by (simp add: get_current_present)
  have "nets s \<noteq> []" using m by auto
  then obtain c where c: "get_current_inner s = Inr c" unfolding get_current_nonempty by blast
  have resolve: "nw_resolve s (KeyId i) = Inr (net_name m)" using assms(2) by (simp add: nw_resolve_def)
  define s1 where "s1 = (if net_name c \<noteq> net_name m then announce m (set_current_name (net_name m) s) else set_current_name (net_name m) s)"
  have "nw_set_current IoOk (KeyId i) s = save_then IoOk [] s1"
    by (simp add: nw_set_current_eq resolve c cur s1_def)
  then have eq: "nw_set_current IoOk (KeyId i) s = (Inr (), snd (save_then IoOk [] s1))"
    by (cases "save_then IoOk [] s1") (simp add: save_then_def)
  have inner: "nw_inner (snd (save_then IoOk [] s1)) = nw_inner (set_current_name (net_name m) s)" by (simp add: s1_def)
  from get_current_inner_cong [OF inner] cur inner eq show ?thesis
    by (intro exI [of _ "snd (save_then IoOk [] s1)"]) simp
qed

lemma chain_update_accepted:
  assumes "into_new_network ce p = Inr n" and "rpc_current_network w = Inr cur" and "chain_id cur \<noteq> cp_chain_id p"
    and "nw_get (w_nets (rw_conn w)) (KeyName (cp_chain_name p)) = None"
    and "accepts env ''chain-add''" "accepts env ''chain-switch''" and "re_io env = IoOk"
    and "nw_add (re_probe env) IoOk n (w_nets (rw_conn w)) = (Inr (), s1)" and "keyed (nets s1)"
    and "List.find (\<lambda>x. net_id x = network_id_from (cp_chain_id p, 0)) (hm_values (nets s1)) = Some m"
  shows "\<exists>w'. chain_update_run env ce p w = Some (Inr JNull, w') \<and> rpc_current_network w' = Inr m \<and> nets (w_nets (rw_conn w')) = nets s1"
proof -
  have n: "np_name n = cp_chain_name p" "np_chain_id n = cp_chain_id p"
    using assms(1) by (auto simp: into_new_network_def split: option.splits)
  let ?new = "into_network n 0"
  have new: "net_id ?new = network_id_from (cp_chain_id p, 0)" "net_name ?new = cp_chain_name p" "chain_id ?new = cp_chain_id p"
    by (simp_all add: into_network_def n chain_id_def network_id_from_def)
  have build: "build_network ce p w = Inr (?new, n)"
    using assms(1,4) by (simp add: build_network_def)
  let ?w1 = "(rw_effect (DialogOpened ''chain-add'' (ce_payload ce n)) w)\<lparr>rw_conn := (rw_conn w)\<lparr>w_nets := s1\<rparr>\<rparr>"
  have "nets s1 \<noteq> []" using assms(10) by (auto simp: find_None_iff2 dest: find_Some_set)
  then obtain c1 where c1: "rpc_current_network ?w1 = Inr c1"
    unfolding get_current_nonempty by (auto simp: rpc_current_network_def)
  obtain s2 where s2: "nw_set_current IoOk (KeyId (net_id ?new)) s1 = (Inr (), s2)" "get_current_inner s2 = Inr m" "nets s2 = nets s1"
    using set_current_found [OF assms(9,10)] new by auto
  let ?w2 = "(rw_effect (DialogOpened ''chain-switch'' (switch_payload c1 ?new)) ?w1)\<lparr>rw_conn := (rw_conn ?w1)\<lparr>w_nets := s2\<rparr>\<rparr>"
  have "chain_switch_run env ce ?new ?w1 = Some (Inr JNull, ?w2)"
    using c1 s2 assms(6,7) by (simp add: chain_switch_run_def ask_accepted on_networks_def)
  then have "chain_update_run env ce p w = Some (Inr JNull, ?w2)"
    using assms(2-5,7,8) build new by (simp add: chain_update_run_def ask_accepted on_networks_def)
  then show ?thesis using s2 by (intro exI [of _ ?w2]) (simp add: rpc_current_network_def)
qed

lemma find_inserted_new:
  assumes "\<not> hm_contains m k"
  shows "List.find P (hm_values (hm_insert k v m)) =
    (case List.find P (hm_values m) of Some x \<Rightarrow> Some x | None \<Rightarrow> if P v then Some v else None)"
proof -
  have "List.find P (hm_values (m @ [(k, v)])) = (case List.find P (hm_values m) of Some x \<Rightarrow> Some x | None \<Rightarrow> if P v then Some v else None)"
    by (induction m) auto
  with assms show ?thesis by (simp add: values_insert_new)
qed


text \<open>When the user accepts both adding and switching, an update under an unused name, for
  a chain with no network, makes the network asked for the current one. If a network of the chain
  with deduplication id zero exists under another name, the new network is added as well, but that
  other network is the one made current, and the request still reports success.\<close>

theorem chain_update_selects:
  assumes "nw_wf (w_nets (rw_conn w))" and "into_new_network ce p = Inr n" and "rpc_current_network w = Inr cur"
    and "chain_id cur \<noteq> cp_chain_id p" and "nw_get (w_nets (rw_conn w)) (KeyName (cp_chain_name p)) = None"
    and "accepts env ''chain-add''" "accepts env ''chain-switch''" "re_io env = IoOk"
    and "is_ok (fst (nw_add (re_probe env) IoOk n (w_nets (rw_conn w))))"
  shows "(\<not> chain_known (cp_chain_id p) w \<longrightarrow> (\<exists>w'. chain_update_run env ce p w = Some (Inr JNull, w')
        \<and> rpc_current_network w' = Inr (into_network n 0)))
    \<and> (\<forall>other \<in> set (hm_values (nets (w_nets (rw_conn w)))). net_id other = network_id_from (cp_chain_id p, 0) \<longrightarrow>
        (\<exists>w' m new. chain_update_run env ce p w = Some (Inr JNull, w') \<and> rpc_current_network w' = Inr m
          \<and> net_name m \<noteq> cp_chain_name p \<and> hm_get (nets (w_nets (rw_conn w'))) (cp_chain_name p) = Some new))"
proof -
  let ?s = "w_nets (rw_conn w)" and ?i = "network_id_from (cp_chain_id p, 0)"
  have n: "np_name n = cp_chain_name p" "np_chain_id n = cp_chain_id p"
    using assms(2) by (auto simp: into_new_network_def split: option.splits)
  obtain s1 where add: "nw_add (re_probe env) IoOk n ?s = (Inr (), s1)"
    using assms(9) by (cases "nw_add (re_probe env) IoOk n ?s") (auto simp: is_ok_iff)
  define added where "added = into_network n (of_nat (get_chain_id_count ?s (cp_chain_id p)))"
  from add n have s1: "nets s1 = hm_insert (cp_chain_name p) added (nets ?s)" and new: "\<not> hm_contains (nets ?s) (cp_chain_name p)"
    by (auto elim!: nw_add_ok simp: added_def)
  have name: "net_name added = cp_chain_name p" "net_id added = network_id_from (cp_chain_id p, of_nat (get_chain_id_count ?s (cp_chain_id p)))"
    by (simp_all add: added_def into_network_def n)
  have keyed: "keyed (nets s1)" using assms(1) name by (simp add: s1 nw_wf_def keyed_insert)
  note found = chain_update_accepted [OF assms(2-8) add keyed]
  note find = find_inserted_new [OF new, of "\<lambda>x. net_id x = ?i" added, folded s1]
  have "\<exists>w'. chain_update_run env ce p w = Some (Inr JNull, w') \<and> rpc_current_network w' = Inr (into_network n 0)"
    if "\<not> chain_known (cp_chain_id p) w"
  proof -
    have none: "\<forall>x \<in> set (hm_values (nets ?s)). chain_id x \<noteq> cp_chain_id p"
      using that by (auto simp: chain_known_def chain_known_insert)
    then have "get_chain_id_count ?s (cp_chain_id p) = 0" by (simp add: get_chain_id_count_def filter_empty_conv)
    then have "added = into_network n 0" "net_id added = ?i" using name by (simp_all add: added_def)
    moreover have "List.find (\<lambda>x. net_id x = ?i) (hm_values (nets ?s)) = None"
      using none unfolding find_None_iff by (force simp: chain_id_def network_id_from_def)
    ultimately show ?thesis using found find by auto
  qed
  moreover have "\<exists>w' m new. chain_update_run env ce p w = Some (Inr JNull, w') \<and> rpc_current_network w' = Inr m
      \<and> net_name m \<noteq> cp_chain_name p \<and> hm_get (nets (w_nets (rw_conn w'))) (cp_chain_name p) = Some new"
    if "other \<in> set (hm_values (nets ?s))" "net_id other = ?i" for other
  proof -
    from that have "\<exists>x \<in> set (hm_values (nets ?s)). net_id x = ?i" by blast
    then obtain m where m: "List.find (\<lambda>x. net_id x = ?i) (hm_values (nets ?s)) = Some m"
      unfolding find_exists by blast
    then have "m \<in> set (hm_values (nets ?s))" by (auto dest: find_Some_set)
    then have "hm_get (nets ?s) (net_name m) = Some m" using keyed_value [of "nets ?s" m] assms(1) by (simp add: nw_wf_def)
    with new have "net_name m \<noteq> cp_chain_name p" by (auto simp: hm_contains_def)
    moreover from m find have "List.find (\<lambda>x. net_id x = ?i) (hm_values (nets s1)) = Some m" by simp
    from found [OF this] obtain w' where "chain_update_run env ce p w = Some (Inr JNull, w')" "rpc_current_network w' = Inr m"
      "nets (w_nets (rw_conn w')) = nets s1" by blast
    ultimately show ?thesis using s1 by auto
  qed
  ultimately show ?thesis by blast
qed

section \<open>Examples\<close>

definition toy_chain_env :: chain_env where
  "toy_chain_env = \<lparr>ce_params = (\<lambda>_. Inl []), ce_scheme = (\<lambda>_. ''http''), ce_url_text = (\<lambda>_. []), ce_payload = (\<lambda>_. JNull),
    ce_error_text = (\<lambda>_. [])\<rparr>"

definition toy_chain :: "u64 \<Rightarrow> chain_params" where
  "toy_chain c = \<lparr>cp_chain_id = c, cp_chain_name = ''new'', cp_rpc_urls = [Url ''http://n''], cp_symbol = ''ETH'',
    cp_decimals = 18, cp_explorers = None\<rparr>"

lemma toy_accepts: "accepts toy_rpc_env preset"
proof -
  have "wait_answer (dl_recv (toy_dialog (JStr ''accept''))) 0 = Some Accepts"
    by (subst wait_answer.simps) (simp add: toy_dialog_def)
  then show ?thesis by (simp add: accepts_def toy_dialog_def)
qed

lemma toy_new_network:
  "into_new_network toy_chain_env (toy_chain c) = Inr \<lparr>np_name = ''new'', np_chain_id = c, np_explorer_url = None,
    np_http_url = Url ''http://n'', np_ws_url = None, np_currency = ''ETH'', np_decimals = 18, np_is_stack = False\<rparr>"
  by (simp add: into_new_network_def find_url_def toy_chain_env_def toy_chain_def starts_with_def)

lemma toy_world_nets: "nets (w_nets (rw_conn toy_rpc_world)) = [(''Anvil'', anvil 0), (''Mainnet'', mainnet 0), (''Sepolia'', sepolia 0)]"
  "nw_wf (w_nets (rw_conn toy_rpc_world))" "rpc_current_network toy_rpc_world = Inr (anvil 0)"
  using fresh_world_ok(1)
  by (simp_all add: toy_rpc_world_def fresh_world_def nw_default_def rpc_current_network_def get_current_inner_def types_defs)

text \<open>Asking for a new network of chain one makes the main network current.\<close>

theorem chain_update_selects_witness:
  "\<exists>w' m. chain_update_run toy_rpc_env toy_chain_env (toy_chain 1) toy_rpc_world = Some (Inr JNull, w')
    \<and> rpc_current_network w' = Inr m \<and> net_name m \<noteq> ''new''"
proof -
  let ?n = "\<lparr>np_name = ''new'', np_chain_id = 1, np_explorer_url = None, np_http_url = Url ''http://n'', np_ws_url = None,
    np_currency = ''ETH'', np_decimals = 18, np_is_stack = False\<rparr>"
  have io: "re_io toy_rpc_env = IoOk" "re_probe toy_rpc_env = (\<lambda>_. Inr False)" by (simp_all add: toy_rpc_env_def)
  have add: "is_ok (fst (nw_add (re_probe toy_rpc_env) IoOk ?n (w_nets (rw_conn toy_rpc_world))))"
    by (simp add: nw_add_eq Let_def toy_world_nets io hm_contains_def is_dev_def get_chain_id_count_def types_defs)
  have free: "nw_get (w_nets (rw_conn toy_rpc_world)) (KeyName (cp_chain_name (toy_chain 1))) = None"
    by (simp add: nw_get_def toy_world_nets toy_chain_def types_defs)
  have other: "chain_id (anvil 0) \<noteq> cp_chain_id (toy_chain 1)" by (simp add: types_defs toy_chain_def)
  from chain_update_selects [OF toy_world_nets(2) toy_new_network toy_world_nets(3) other free toy_accepts toy_accepts io(1) add]
  have "\<forall>other \<in> set (hm_values (nets (w_nets (rw_conn toy_rpc_world)))). net_id other = network_id_from (1, 0) \<longrightarrow>
      (\<exists>w' m new. chain_update_run toy_rpc_env toy_chain_env (toy_chain 1) toy_rpc_world = Some (Inr JNull, w')
        \<and> rpc_current_network w' = Inr m \<and> net_name m \<noteq> ''new'' \<and> hm_get (nets (w_nets (rw_conn w'))) ''new'' = Some new)"
    by (simp add: toy_chain_def)
  moreover have "mainnet 0 \<in> set (hm_values (nets (w_nets (rw_conn toy_rpc_world))))" "net_id (mainnet 0) = network_id_from (1, 0)"
    by (simp_all add: toy_world_nets mainnet_def)
  ultimately show ?thesis by blast
qed

theorem chain_add_asks_witness:
  "\<exists>w' m. chain_add_run toy_rpc_env toy_chain_env (toy_chain 5) toy_rpc_world = Some (Inr JNull, w')
    \<and> hm_get (nets (w_nets (rw_conn w'))) ''new'' = Some m \<and> chain_id m = 5"
proof -
  let ?n = "\<lparr>np_name = ''new'', np_chain_id = 5, np_explorer_url = None, np_http_url = Url ''http://n'', np_ws_url = None,
    np_currency = ''ETH'', np_decimals = 18, np_is_stack = False\<rparr>"
  have io: "re_io toy_rpc_env = IoOk" "re_probe toy_rpc_env = (\<lambda>_. Inr False)" by (simp_all add: toy_rpc_env_def)
  have unknown: "\<not> chain_known (cp_chain_id (toy_chain 5)) toy_rpc_world"
    by (simp add: chain_known_def chain_known_insert toy_world_nets toy_chain_def types_defs)
  obtain s' where add: "nw_add (\<lambda>_. Inr False) IoOk ?n (w_nets (rw_conn toy_rpc_world)) = (Inr (), s')"
    by (simp add: nw_add_eq Let_def toy_world_nets hm_contains_def is_dev_def get_chain_id_count_def types_defs save_then_def)
  then obtain w' where run: "chain_add_run toy_rpc_env toy_chain_env (toy_chain 5) toy_rpc_world = Some (Inr JNull, w')"
    using unknown io by (simp add: chain_add_run_def toy_new_network ask_accepted toy_accepts on_networks_def)
  have "wait_answer (dl_recv (re_dialog toy_rpc_env ''chain-add'')) 0 = Some Accepts"
    using toy_accepts [of "''chain-add''"] by (simp add: accepts_def)
  with chain_add_asks [OF run] unknown obtain m where
    "nets (w_nets (rw_conn w')) = hm_insert (cp_chain_name (toy_chain 5)) m (nets (w_nets (rw_conn toy_rpc_world)))"
    "chain_id m = cp_chain_id (toy_chain 5)" by auto
  with run show ?thesis by (simp add: toy_chain_def)
qed

end
