(* ===== verification/Rpc_Transactions.thy ===== *)
theory Rpc_Transactions
  imports Rpc_Chains
begin

text \<open>
  Sending a transaction and calling a contract (\<open>crates/rpc/src/methods/send_transaction.rs\<close>,
  \<open>send_call.rs\<close>, \<open>commands.rs\<close>, \<open>utils.rs\<close>): the request and its gas limit, the wallet of the
  sender, the review dialog with its simulations and edits, and the provider that sends.
\<close>

section \<open>The request\<close>

record call_params =
  ca_from :: "address option"
  ca_to :: "address option"
  ca_value :: "u256 option"
  ca_data :: "bytes option"
  ca_gas :: "u256 option"

text \<open>The fields of \<open>alloy::rpc::types::TransactionRequest\<close> the code sets.\<close>

record tx_request =
  tr_from :: "address option"
  tr_to :: "address option"
  tr_value :: "u256 option"
  tr_input :: "bytes option"
  tr_gas :: "u64 option"

definition saturating_to_u64 :: "u256 \<Rightarrow> u64" where
  "saturating_to_u64 g = (if unat g < 2 ^ 64 then ucast g else - 1)"

definition into_request :: "call_params \<Rightarrow> tx_request" where
  "into_request p = \<lparr>tr_from = ca_from p, tr_to = ca_to p, tr_value = ca_value p, tr_input = ca_data p,
    tr_gas = map_option saturating_to_u64 (ca_gas p)\<rparr>"

definition into_request_with_from :: "rpc_env \<Rightarrow> call_params \<Rightarrow> rpc_world \<Rightarrow> rpc_error + (address \<times> tx_request)" where
  "into_request_with_from env p w =
    (let r = into_request p in
      case tr_from r of
        Some a \<Rightarrow> Inr (a, r)
      | None \<Rightarrow> map_sum id (\<lambda>a. (a, r\<lparr>tr_from := Some a\<rparr>)) (rpc_current_address env w))"

record sim_request =
  si_from :: address
  si_to :: address
  si_value :: "u256 option"
  si_data :: "bytes option"
  si_gas_limit :: u64

text \<open>
  Deserializers, nodes and the simulator: connecting to a URL, estimating, impersonating, sending
  (with the hash of the transaction), calling, reading code, simulating.
\<close>

record tx_env =
  te_params :: "json \<Rightarrow> string + call_params"
  te_json :: "tx_request \<Rightarrow> (string \<times> json) list"
  te_connect :: "url \<Rightarrow> string + unit"
  te_estimate :: "url \<Rightarrow> tx_request \<Rightarrow> u64 option"
  te_impersonate :: "url \<Rightarrow> address \<Rightarrow> string + unit"
  te_send :: "url \<Rightarrow> signer option \<Rightarrow> tx_request \<Rightarrow> string + string"
  te_call :: "url \<Rightarrow> tx_request \<Rightarrow> string + bytes"
  te_code :: "url \<Rightarrow> address \<Rightarrow> string + bytes"
  te_simulate :: "u64 \<Rightarrow> sim_request \<Rightarrow> json option"
  te_bytes :: "string \<Rightarrow> bytes option"
  te_u256 :: "string \<Rightarrow> u256 option"

record send_tx =
  sx_network :: network
  sx_from :: address
  sx_request :: tx_request

definition send_tx_build :: "rpc_env \<Rightarrow> tx_env \<Rightarrow> json \<Rightarrow> ctx \<Rightarrow> rpc_world \<Rightarrow> rpc_error + send_tx" where
  "send_tx_build env te params c w =
    (case extract_single_param params of
      None \<Rightarrow> Inl (RpcPanic ''index out of bounds'')
    | Some j \<Rightarrow>
        (case te_params te j of
          Inl e \<Rightarrow> Inl (Serde e)
        | Inr p \<Rightarrow>
            (case into_request_with_from env p w of
              Inl e \<Rightarrow> Inl e
            | Inr (a, r) \<Rightarrow> map_sum id (\<lambda>n. \<lparr>sx_network = n, sx_from = a, sx_request = r\<rparr>) (rpc_network env c w))))"

section \<open>The gas limit\<close>

text \<open>Arithmetic on \<open>u64\<close> wraps in a release build.\<close>

definition gas_estimate :: "tx_env \<Rightarrow> send_tx \<Rightarrow> u64" where
  "gas_estimate te t =
    (case te_connect te (http_url (sx_network t)) of
      Inl _ \<Rightarrow> 1000000
    | Inr _ \<Rightarrow> (case te_estimate te (http_url (sx_network t)) (sx_request t) of None \<Rightarrow> 1000000 | Some g \<Rightarrow> g))"

definition estimate_gas :: "tx_env \<Rightarrow> send_tx \<Rightarrow> send_tx" where
  "estimate_gas te t =
    (if tr_gas (sx_request t) \<noteq> None then t
     else t\<lparr>sx_request := (sx_request t)\<lparr>tr_gas := Some (gas_estimate te t * 120 div 100)\<rparr>\<rparr>)"

section \<open>The wallet of the sender\<close>

record resolved_wallet =
  rs_name :: string
  rs_path :: string
  rs_type :: string

text \<open>The \<open>Display\<close> of \<open>WalletType\<close>.\<close>

fun wallet_type_text :: "wallet \<Rightarrow> string" where
  "wallet_type_text (Plaintext _) = ''plaintext''"
| "wallet_type_text (JsonKeystore _) = ''jsonKeystore''"
| "wallet_type_text (HDWallet _) = ''HDWallet''"
| "wallet_type_text (Impersonator _) = ''impersonator''"
| "wallet_type_text (LedgerW _) = ''ledger''"
| "wallet_type_text (PrivateKey _) = ''privateKey''"

definition resolve_wallet :: "rpc_env \<Rightarrow> send_tx \<Rightarrow> rpc_world \<Rightarrow> rpc_error + resolved_wallet" where
  "resolve_wallet env t w =
    (case wallets_find (re_wallet env) (sx_from t) (rw_wallets w) of
      Inl e \<Rightarrow> Inl (RpcPanic ''find'')
    | Inr None \<Rightarrow> Inl (WalletNotFound (sx_from t))
    | Inr (Some (x, path)) \<Rightarrow> Inr \<lparr>rs_name = wallet_name x, rs_path = path, rs_type = wallet_type_text x\<rparr>)"

text \<open>The first wallet of a name, with its place.\<close>

definition wallet_named :: "string \<Rightarrow> rpc_world \<Rightarrow> rpc_error + (nat \<times> wallet)" where
  "wallet_named name w =
    (case position (\<lambda>x. wallet_name x = name) (ws_wallets (rw_wallets w)) of
      None \<Rightarrow> Inl (WalletNameNotFound name)
    | Some i \<Rightarrow> Inr (i, ws_wallets (rw_wallets w) ! i))"

section \<open>Simulations and edits\<close>

definition tx_from_address :: "rpc_env \<Rightarrow> resolved_wallet \<Rightarrow> rpc_world \<Rightarrow> rpc_error + address" where
  "tx_from_address env rs w =
    (case wallet_named (rs_name rs) w of
      Inl e \<Rightarrow> Inl e
    | Inr (_, x) \<Rightarrow> map_sum (\<lambda>e. CannotSimulate) id (get_address (re_wallet env) (rs_path rs) x))"

definition simulation_request :: "rpc_env \<Rightarrow> resolved_wallet \<Rightarrow> tx_request \<Rightarrow> rpc_world \<Rightarrow> rpc_error + sim_request" where
  "simulation_request env rs q w =
    (case tx_from_address env rs w of
      Inl e \<Rightarrow> Inl e
    | Inr a \<Rightarrow>
        (case (tr_to q, tr_gas q) of
          (Some b, Some g) \<Rightarrow> Inr \<lparr>si_from = a, si_to = b, si_value = tr_value q, si_data = tr_input q, si_gas_limit = g\<rparr>
        | _ \<Rightarrow> Inl CannotSimulate))"

definition tell_dialog :: "string \<Rightarrow> json option \<Rightarrow> rpc_world \<Rightarrow> rpc_world" where
  "tell_dialog event data = rw_effect (DialogTold ''tx-review'' event data)"

definition tx_simulate :: "rpc_env \<Rightarrow> tx_env \<Rightarrow> network \<Rightarrow> resolved_wallet \<Rightarrow> tx_request \<Rightarrow> unit rpc_handler" where
  "tx_simulate env te n rs q w =
    (case simulation_request env rs q w of
      Inl e \<Rightarrow> (Inl e, w)
    | Inr s \<Rightarrow>
        (Inr (),
         case te_simulate te (chain_id n) s of
           None \<Rightarrow> w
         | Some j \<Rightarrow> tell_dialog ''simulation-result'' (Some j) (tell_dialog ''foo'' None w)))"

text \<open>The user's edits; text that does not parse is a panic.\<close>

definition tx_update :: "tx_env \<Rightarrow> json \<Rightarrow> tx_request \<Rightarrow> tx_request option" where
  "tx_update te j q =
    (case (case as_str (json_get ''data'' j) of
             None \<Rightarrow> Some q
           | Some d \<Rightarrow> map_option (\<lambda>b. q\<lparr>tr_input := Some b\<rparr>) (te_bytes te d)) of
      None \<Rightarrow> None
    | Some q1 \<Rightarrow>
        (case as_str (json_get ''value'' j) of
          None \<Rightarrow> Some q1
        | Some v \<Rightarrow> map_option (\<lambda>x. q1\<lparr>tr_value := Some x\<rparr>) (te_u256 te v)))"

section \<open>The review dialog\<close>

text \<open>One message of the dialog: it ends the loop, or the loop goes on with a request.\<close>

datatype tx_turn = TxEnds "rpc_error + tx_request" | TxGoesOn tx_request

definition tx_shown :: "rpc_env \<Rightarrow> tx_env \<Rightarrow> network \<Rightarrow> resolved_wallet \<Rightarrow> tx_request \<Rightarrow> rpc_world \<Rightarrow> tx_turn \<times> rpc_world" where
  "tx_shown env te n rs q w =
    (case tx_simulate env te n rs q w of
      (Inl e, w1) \<Rightarrow> (TxEnds (Inl e), w1)
    | (Inr _, w1) \<Rightarrow> (TxGoesOn q, w1))"

definition tx_dialog_turn ::
    "rpc_env \<Rightarrow> tx_env \<Rightarrow> network \<Rightarrow> resolved_wallet \<Rightarrow> dialog_msg option \<Rightarrow> tx_request \<Rightarrow> rpc_world \<Rightarrow> tx_turn \<times> rpc_world" where
  "tx_dialog_turn env te n rs msg q w =
    (case msg of
      None \<Rightarrow> (TxEnds (Inr q), w)
    | Some DlgClose \<Rightarrow> (TxEnds (Inl TxDialogRejected), w)
    | Some (DlgData j) \<Rightarrow>
        (let event = as_str (json_get ''event'' j) in
          if event = Some ''simulate'' then tx_shown env te n rs q (tell_dialog ''trying'' None w)
          else if event = Some ''accept'' then (TxEnds (Inr q), w)
          else if event = Some ''update'' then
            (case tx_update te j q of
              None \<Rightarrow> (TxEnds (Inl (RpcPanic ''update'')), w)
            | Some q1 \<Rightarrow> tx_shown env te n rs q1 w)
          else (TxEnds (Inl TxDialogRejected), w)))"

partial_function (option) tx_dialog ::
    "(dialog_msg option \<Rightarrow> tx_request \<Rightarrow> rpc_world \<Rightarrow> tx_turn \<times> rpc_world) \<Rightarrow> (nat \<Rightarrow> dialog_msg option) \<Rightarrow> nat \<Rightarrow> tx_request
      \<Rightarrow> rpc_world \<Rightarrow> ((rpc_error + tx_request) \<times> rpc_world) option" where
  "tx_dialog turn recv i q w =
    (case turn (recv i) q w of
      (TxEnds r, w1) \<Rightarrow> Some (r, w1)
    | (TxGoesOn q1, w1) \<Rightarrow> tx_dialog turn recv (Suc i) q1 w1)"

declare tx_dialog.simps [code]

text \<open>What the dialog shows: the request with the chain and the kind of wallet.\<close>

definition tx_payload :: "tx_env \<Rightarrow> send_tx \<Rightarrow> resolved_wallet \<Rightarrow> json" where
  "tx_payload te t rs = JObj (hm_insert ''walletType'' (JStr (rs_type rs))
    (hm_insert ''chainId'' (JInt (uint (chain_id (sx_network t)))) (te_json te (sx_request t))))"

section \<open>Sending\<close>

text \<open>On a development network the node is asked to impersonate the signer and signs itself.\<close>

definition build_provider :: "rpc_env \<Rightarrow> tx_env \<Rightarrow> network \<Rightarrow> resolved_wallet \<Rightarrow> signer option rpc_handler" where
  "build_provider env te n rs w =
    (case wallet_named (rs_name rs) w of
      Inl e \<Rightarrow> (Inl e, w)
    | Inr (i, x) \<Rightarrow>
        (case is_dev (re_probe env) n of
          Inl e \<Rightarrow> (Inl (Ethui e), w)
        | Inr dev \<Rightarrow>
            if dev \<and> \<not> is_ok (te_connect te (http_url n)) then (Inl (Transport (projl (te_connect te (http_url n)))), w)
            else
              (case build_signer (re_wallet env) (chain_id n) (rs_path rs) x of
                (r, x1) \<Rightarrow>
                  (let w1 = set_wallet_at i x1 w in
                    case r of
                      Inl e \<Rightarrow> (Inl (Ethui (re_wallet_text env e)), w1)
                    | Inr s \<Rightarrow>
                        if dev then
                          (map_sum Transport (\<lambda>_. None) (te_impersonate te (http_url n) (signer_address s)),
                           rw_effect (Impersonated (http_url n) (signer_address s)) w1)
                        else (map_sum Transport (\<lambda>_. Some s) (te_connect te (http_url n)), w1)))))"

definition tx_send :: "rpc_env \<Rightarrow> tx_env \<Rightarrow> network \<Rightarrow> resolved_wallet \<Rightarrow> tx_request \<Rightarrow> string rpc_handler" where
  "tx_send env te n rs q w =
    (case build_provider env te n rs w of
      (Inl e, w1) \<Rightarrow> (Inl e, w1)
    | (Inr s, w1) \<Rightarrow>
        (map_sum Transport id (te_send te (http_url n) s q),
         rw_effect (SentTransaction (http_url n) s (JObj (te_json te q))) (rw_effect (TxSubmitted (chain_id n)) w1)))"

definition dialog_and_send ::
    "rpc_env \<Rightarrow> tx_env \<Rightarrow> send_tx \<Rightarrow> resolved_wallet \<Rightarrow> rpc_world \<Rightarrow> ((rpc_error + string) \<times> rpc_world) option" where
  "dialog_and_send env te t rs w =
    (if \<not> dl_open (re_dialog env ''tx-review'') then Some (Inl (Ethui ''dialog''), w)
     else
       (case tx_dialog (tx_dialog_turn env te (sx_network t) rs) (dl_recv (re_dialog env ''tx-review'')) 0 (sx_request t)
           (rw_effect (DialogOpened ''tx-review'' (tx_payload te t rs)) w) of
         None \<Rightarrow> None
       | Some (Inl e, w1) \<Rightarrow> Some (Inl e, w1)
       | Some (Inr q, w1) \<Rightarrow>
           Some (tx_send env te (sx_network t) rs q
             (if rs_type rs = ''ledger'' then tell_dialog ''check-ledger'' None w1 else w1))))"

definition send_tx_finish :: "rpc_env \<Rightarrow> tx_env \<Rightarrow> send_tx \<Rightarrow> rpc_world \<Rightarrow> ((rpc_error + string) \<times> rpc_world) option" where
  "send_tx_finish env te t w =
    (case resolve_wallet env t w of
      Inl e \<Rightarrow> Some (Inl e, w)
    | Inr rs \<Rightarrow>
        (case wallet_named (rs_name rs) w of
          Inl e \<Rightarrow> Some (Inl e, w)
        | Inr (_, x) \<Rightarrow>
            (case is_dev (re_probe env) (sx_network t) of
              Inl e \<Rightarrow> Some (Inl (Ethui e), w)
            | Inr dev \<Rightarrow>
                if dev \<and> wallet_is_dev x \<and> fast_mode (get_all (rw_settings w)) then
                  Some (tx_send env te (sx_network t) rs (sx_request t) w)
                else dialog_and_send env te t rs w)))"

definition run_send_tx :: "rpc_env \<Rightarrow> tx_env \<Rightarrow> send_tx \<Rightarrow> rpc_world \<Rightarrow> ((rpc_error + json) \<times> rpc_world) option" where
  "run_send_tx env te t w =
    map_option (map_prod (map_sum id (\<lambda>hash. JStr (''0x'' @ hash))) id) (send_tx_finish env te (estimate_gas te t) w)"

definition send_transaction :: "rpc_env \<Rightarrow> tx_env \<Rightarrow> json \<Rightarrow> ctx \<Rightarrow> rpc_world \<Rightarrow> ((rpc_error + json) \<times> rpc_world) option" where
  "send_transaction env te params c w =
    (case send_tx_build env te params c w of Inl e \<Rightarrow> Some (Inl e, w) | Inr t \<Rightarrow> run_send_tx env te t w)"

section \<open>The commands of the user interface\<close>

text \<open>They act on the current network and take the parameters as they are.\<close>

definition rpc_send_transaction :: "rpc_env \<Rightarrow> tx_env \<Rightarrow> json \<Rightarrow> rpc_world \<Rightarrow> ((rpc_error + json) \<times> rpc_world) option" where
  "rpc_send_transaction env te params w =
    (case te_params te params of
      Inl e \<Rightarrow> Some (Inl (Serde e), w)
    | Inr p \<Rightarrow>
        (case into_request_with_from env p w of
          Inl e \<Rightarrow> Some (Inl e, w)
        | Inr (a, r) \<Rightarrow>
            (case rpc_current_network w of
              Inl e \<Rightarrow> Some (Inl e, w)
            | Inr n \<Rightarrow> run_send_tx env te \<lparr>sx_network = n, sx_from = a, sx_request = r\<rparr> w)))"

definition send_call :: "tx_env \<Rightarrow> network \<Rightarrow> tx_request \<Rightarrow> rpc_error + bytes" where
  "send_call te n q =
    (case te_connect te (http_url n) of
      Inl e \<Rightarrow> Inl (Ethui e)
    | Inr _ \<Rightarrow> map_sum Transport id (te_call te (http_url n) q))"

definition rpc_eth_call :: "tx_env \<Rightarrow> json \<Rightarrow> rpc_world \<Rightarrow> rpc_error + bytes" where
  "rpc_eth_call te params w =
    (case te_params te params of
      Inl e \<Rightarrow> Inl (Serde e)
    | Inr p \<Rightarrow> (case rpc_current_network w of Inl e \<Rightarrow> Inl e | Inr n \<Rightarrow> send_call te n (into_request p)))"

text \<open>The code at an address on the network of a chain; \<open>None\<close> where there is none.\<close>

definition rpc_get_code :: "tx_env \<Rightarrow> address \<Rightarrow> u64 \<Rightarrow> rpc_world \<Rightarrow> rpc_error + bytes option" where
  "rpc_get_code te a c w =
    (case get_network (w_nets (rw_conn w)) c of
      Inl e \<Rightarrow> Inl (Ethui (''Network with chain_id '' @ show_dec (unat c) @ '' not found''))
    | Inr n \<Rightarrow>
        (case te_connect te (http_url n) of
          Inl e \<Rightarrow> Inl (Ethui e)
        | Inr _ \<Rightarrow> map_sum Ethui (\<lambda>code. if code = [] then None else Some code) (te_code te (http_url n) a)))"

definition rpc_is_contract :: "tx_env \<Rightarrow> address \<Rightarrow> u64 \<Rightarrow> rpc_world \<Rightarrow> rpc_error + bool" where
  "rpc_is_contract te a c w = map_sum id (\<lambda>code. code \<noteq> None) (rpc_get_code te a c w)"

section \<open>Bounds of the gas limit\<close>

text \<open>Two requests that have the same sender, recipient and gas limit.\<close>

definition same_call :: "tx_request \<Rightarrow> tx_request \<Rightarrow> bool" where
  "same_call q r = (tr_from q = tr_from r \<and> tr_to q = tr_to r \<and> tr_gas q = tr_gas r)"

lemma same_call_simps [simp, intro]: "same_call q q"
  by (simp add: same_call_def)

lemma same_call_trans: "same_call q r \<Longrightarrow> same_call r s \<Longrightarrow> same_call q s"
  by (simp add: same_call_def)

lemma into_request_with_from_call:
  assumes "into_request_with_from env p w = Inr (a, r)"
  shows "tr_to r = ca_to p \<and> tr_gas r = map_option saturating_to_u64 (ca_gas p) \<and> tr_from r = Some a \<and> tr_value r = ca_value p \<and> tr_input r = ca_data p"
  using assms
  by (cases "rpc_current_address env w")
    (auto simp: into_request_with_from_def into_request_def Let_def split: option.splits)

lemma saturating_to_u64_min: "unat (saturating_to_u64 g) = min (unat g) (2 ^ 64 - 1)"
proof (cases "unat g < 2 ^ 64")
  case True
  then have "unat (ucast g :: u64) = unat g" by (simp add: unsigned_ucast_eq take_bit_nat_eq_self)
  with True show ?thesis by (simp add: saturating_to_u64_def)
next
  case False
  then show ?thesis by (simp add: saturating_to_u64_def unsigned_minus_1_eq_mask mask_eq_exp_minus_1)
qed

lemma buffer_word:
  fixes g :: u64
  assumes "unat g * 120 < 2 ^ 64"
  shows "unat (g * 120 div 100) = unat g * 120 div 100"
  using assms by (simp add: unat_div unat_mult_lem [THEN iffD1])

text \<open>C37. The gas limit sent is the caller's own, cut to 64 bits, or else the estimate of the node
  (a million where there is none) and a fifth more, and then never below the estimate, unless 120
  times the estimate needs more than 64 bits.\<close>

theorem gas_limit_bounds:
  assumes "into_request_with_from env p w = Inr (sx_from t, sx_request t)"
  shows "case ca_gas p of
      Some g \<Rightarrow> map_option unat (tr_gas (sx_request (estimate_gas te t))) = Some (min (unat g) (2 ^ 64 - 1))
    | None \<Rightarrow> unat (gas_estimate te t) < 2 ^ 64 div 120 \<longrightarrow>
        (\<exists>g. tr_gas (sx_request (estimate_gas te t)) = Some g \<and> unat g = unat (gas_estimate te t) * 120 div 100
          \<and> unat (gas_estimate te t) \<le> unat g)"
proof -
  have gas: "tr_gas (sx_request t) = map_option saturating_to_u64 (ca_gas p)"
    using into_request_with_from_call [OF assms] by simp
  show ?thesis
  proof (cases "ca_gas p")
    case None
    with gas buffer_word [of "gas_estimate te t"] show ?thesis by (auto simp: estimate_gas_def)
  next
    case (Some g)
    with gas show ?thesis by (simp add: estimate_gas_def saturating_to_u64_min)
  qed
qed

section \<open>Sent only when reviewed\<close>

text \<open>The loop of the dialog ended on an acceptance (or on a closed channel, which \<open>Dialogs\<close> rules out).\<close>

definition tx_accepted :: "rpc_env \<Rightarrow> bool" where
  "tx_accepted env = (\<exists>k. case dl_recv (re_dialog env ''tx-review'') k of
      None \<Rightarrow> True
    | Some DlgClose \<Rightarrow> False
    | Some (DlgData j) \<Rightarrow> as_str (json_get ''event'' j) = Some ''accept'')"

definition is_sending :: "rpc_effect \<Rightarrow> bool" where
  "is_sending e = (\<exists>u s j. e = SentTransaction u s j)"

text \<open>A handler that only shows things: all it does is talk to the dialog.\<close>

definition only_shows :: "rpc_world \<Rightarrow> rpc_world \<Rightarrow> bool" where
  "only_shows w w' = (\<exists>ds. w' = w\<lparr>rw_effects := rw_effects w @ ds\<rparr> \<and> (\<forall>e \<in> set ds. (\<exists>p s j. e = DialogTold p s j) \<or> (\<exists>p j. e = DialogOpened p j)))"

lemma only_shows_here [simp]: "only_shows w w"
  unfolding only_shows_def by (rule exI [of _ "[]"]) simp

lemma only_shows_trans [trans]: "only_shows w w' \<Longrightarrow> only_shows w' w'' \<Longrightarrow> only_shows w w''"
  unfolding only_shows_def
  by (elim exE conjE, rule_tac x = "ds @ dsa" in exI) auto

lemma only_shows_told: "only_shows w (tell_dialog event data w)" "only_shows w (rw_effect (DialogOpened p j) w)"
  unfolding only_shows_def tell_dialog_def rw_effect_def
  by (intro exI [of _ "[DialogTold ''tx-review'' event data]"], simp) (intro exI [of _ "[DialogOpened p j]"], simp)

lemma tx_simulate_shows: "tx_simulate env te n rs q w = (r, w') \<Longrightarrow> only_shows w w'"
  by (auto simp: tx_simulate_def intro: only_shows_told only_shows_trans split: sum.splits option.splits)

lemma tx_update_call: "tx_update te j q = Some q' \<Longrightarrow> same_call q' q"
  by (auto simp: tx_update_def same_call_def split: option.splits)

lemma tx_shown_shows:
  assumes "tx_shown env te n rs q w = (z, w')"
  shows "only_shows w w'" "z = TxGoesOn q \<or> (\<exists>e. z = TxEnds (Inl e))"
  using assms by (auto simp: tx_shown_def dest: tx_simulate_shows split: prod.splits sum.splits)

definition turn_keeps :: "rpc_env \<Rightarrow> tx_request \<Rightarrow> tx_turn \<Rightarrow> bool" where
  "turn_keeps env q z = (case z of
      TxGoesOn q1 \<Rightarrow> same_call q1 q
    | TxEnds (Inr q1) \<Rightarrow> q1 = q \<and> tx_accepted env
    | TxEnds (Inl _) \<Rightarrow> True)"

lemma tx_dialog_turn_spec:
  assumes "tx_dialog_turn env te n rs (dl_recv (re_dialog env ''tx-review'') i) q w = (z, w')"
  shows "only_shows w w' \<and> turn_keeps env q z"
proof (cases "dl_recv (re_dialog env ''tx-review'') i")
  case None
  then have "tx_accepted env" unfolding tx_accepted_def by (intro exI [of _ i]) simp
  with None assms show ?thesis by (auto simp: tx_dialog_turn_def turn_keeps_def)
next
  case (Some m)
  show ?thesis
  proof (cases m)
    case DlgClose
    with Some assms show ?thesis by (auto simp: tx_dialog_turn_def turn_keeps_def)
  next
    case (DlgData j)
    have acc: "as_str (json_get ''event'' j) = Some ''accept'' \<Longrightarrow> tx_accepted env"
      unfolding tx_accepted_def using Some DlgData by (intro exI [of _ i]) simp
    note shown = tx_shown_shows
    show ?thesis
    proof (cases "as_str (json_get ''event'' j) = Some ''simulate''")
      case True
      then have "tx_shown env te n rs q (tell_dialog ''trying'' None w) = (z, w')"
        using assms Some DlgData by (simp add: tx_dialog_turn_def)
      from shown [OF this] only_shows_told(1) [of w "''trying''" None] show ?thesis
        by (auto simp: turn_keeps_def same_call_def intro: only_shows_trans)
    next
      case no_sim: False
      show ?thesis
      proof (cases "as_str (json_get ''event'' j) = Some ''update'' \<and> tx_update te j q \<noteq> None")
        case True
        then obtain q1 where q1: "tx_update te j q = Some q1" by blast
        with True assms Some DlgData have t: "tx_shown env te n rs q1 w = (z, w')"
          by (simp add: tx_dialog_turn_def)
        with shown [OF t] tx_update_call [OF q1] show ?thesis by (auto simp: turn_keeps_def)
      next
        case False
        with no_sim assms Some DlgData acc show ?thesis
          by (auto simp: tx_dialog_turn_def Let_def turn_keeps_def split: if_splits option.splits)
      qed
    qed
  qed
qed

lemma tx_dialog_spec':
  assumes "tx_dialog turn recv i q w = Some y"
    and "turn = tx_dialog_turn env te n rs" "recv = dl_recv (re_dialog env ''tx-review'')"
  shows "only_shows w (snd y) \<and> (\<forall>q'. fst y = Inr q' \<longrightarrow> same_call q' q \<and> tx_accepted env)"
  using assms
proof (induction rule: tx_dialog.raw_induct [rotated, consumes 1, case_names turn])
  case (turn rec turn recv i q w y)
  obtain z w1 where t: "turn (recv i) q w = (z, w1)" by fastforce
  with tx_dialog_turn_spec turn(3,4) have sp: "only_shows w w1" "turn_keeps env q z" by blast+
  show ?case
  proof (cases z)
    case (TxEnds r)
    with turn(2) t have "y = (r, w1)" by simp
    with sp TxEnds show ?thesis by (auto simp: turn_keeps_def)
  next
    case (TxGoesOn q1)
    with turn(2) t have "rec turn recv (Suc i) q1 w1 = Some y" by simp
    from turn(1) [OF this turn(3,4)] have "only_shows w1 (snd y)" "\<And>q'. fst y = Inr q' \<Longrightarrow> same_call q' q1 \<and> tx_accepted env"
      by blast+
    moreover have "same_call q1 q" using sp(2) TxGoesOn by (simp add: turn_keeps_def)
    ultimately show ?thesis using only_shows_trans [OF sp(1)] same_call_trans by blast
  qed
qed

lemma tx_dialog_spec:
  assumes "tx_dialog (tx_dialog_turn env te n rs) (dl_recv (re_dialog env ''tx-review'')) i q w = Some (r, w')"
  shows "only_shows w w' \<and> (\<forall>q'. r = Inr q' \<longrightarrow> same_call q' q \<and> tx_accepted env)"
  using tx_dialog_spec' [OF assms refl refl] unfolding fst_conv snd_conv .

text \<open>The signer of the wallet that has the name of the sender's.\<close>

definition tx_signer :: "rpc_env \<Rightarrow> network \<Rightarrow> resolved_wallet \<Rightarrow> rpc_world \<Rightarrow> signer \<Rightarrow> bool" where
  "tx_signer env n rs w s = (\<exists>i x x'. wallet_named (rs_name rs) w = Inr (i, x)
    \<and> build_signer (re_wallet env) (chain_id n) (rs_path rs) x = (Inr s, x'))"

text \<open>What a sending leaves: impersonation on a development network, the signer on another.\<close>

definition sends_as :: "network \<Rightarrow> signer \<Rightarrow> tx_request \<Rightarrow> tx_env \<Rightarrow> bool \<Rightarrow> rpc_effect list" where
  "sends_as n s q te dev =
    (if dev then [Impersonated (http_url n) (signer_address s)] else [])
    @ [TxSubmitted (chain_id n), SentTransaction (http_url n) (if dev then None else Some s) (JObj (te_json te q))]"

lemma rw_effects_wallet [simp]: "rw_effects (set_wallet_at i x w) = rw_effects w"
  by (simp add: set_wallet_at_def)

lemma build_provider_Inr:
  assumes "build_provider env te n rs w = (Inr so, w')"
  obtains s dev where "is_dev (re_probe env) n = Inr dev" "tx_signer env n rs w s"
    "so = (if dev then None else Some s)"
    "rw_effects w' = rw_effects w @ (if dev then [Impersonated (http_url n) (signer_address s)] else [])"
proof -
  have "\<exists>s dev. is_dev (re_probe env) n = Inr dev \<and> tx_signer env n rs w s \<and> so = (if dev then None else Some s)
      \<and> rw_effects w' = rw_effects w @ (if dev then [Impersonated (http_url n) (signer_address s)] else [])"
    using assms
    by (cases "te_connect te (http_url n)"; cases "is_dev (re_probe env) n")
      (auto simp: build_provider_def tx_signer_def Let_def rw_effect_def map_sum_eq_iff split: sum.splits prod.splits if_splits)
  then show thesis using that by blast
qed

lemma build_provider_Inl:
  assumes "build_provider env te n rs w = (Inl e, w')"
  shows "\<exists>imp. rw_effects w' = rw_effects w @ imp \<and> (\<forall>x \<in> set imp. \<not> is_sending x)"
  using assms
  by (cases "te_connect te (http_url n)"; cases "is_dev (re_probe env) n")
    (auto simp: build_provider_def is_sending_def Let_def rw_effect_def split: sum.splits prod.splits if_splits)

lemma tx_send_spec:
  assumes "tx_send env te n rs q w = (r, w')"
  obtains new where "rw_effects w' = rw_effects w @ new" "\<forall>x \<in> set new. \<not> is_sending x" "\<not> is_ok r"
  | s dev where "rw_effects w' = rw_effects w @ sends_as n s q te dev" "is_dev (re_probe env) n = Inr dev"
      "tx_signer env n rs w s"
proof -
  obtain so w1 where b: "build_provider env te n rs w = (so, w1)" by fastforce
  show thesis
  proof (cases so)
    case (Inl e)
    with b assms build_provider_Inl that(1) show ?thesis by (fastforce simp: tx_send_def)
  next
    case (Inr x)
    with b obtain s dev where "is_dev (re_probe env) n = Inr dev" "tx_signer env n rs w s" "x = (if dev then None else Some s)"
      "rw_effects w1 = rw_effects w @ (if dev then [Impersonated (http_url n) (signer_address s)] else [])"
      using build_provider_Inr by metis
    with b Inr assms that(2) [of s dev] show ?thesis by (auto simp: tx_send_def sends_as_def rw_effect_def)
  qed
qed

lemma shown_wallets: "only_shows w w1 \<Longrightarrow> rw_wallets w1 = rw_wallets w"
  by (auto simp: only_shows_def)

lemma shown_wallet_named: "only_shows w w1 \<Longrightarrow> wallet_named name w1 = wallet_named name w"
  by (simp add: wallet_named_def shown_wallets cong: option.case_cong)

lemma shown_keeps_signer: "only_shows w w1 \<Longrightarrow> tx_signer env n rs w1 s = tx_signer env n rs w s"
  by (simp add: tx_signer_def shown_wallet_named)

lemma shown_effects:
  assumes "only_shows w w1"
  obtains ds where "rw_effects w1 = rw_effects w @ ds" "\<forall>e \<in> set ds. \<not> is_sending e"
  using assms by (fastforce simp: only_shows_def is_sending_def)

text \<open>What a run of \<open>eth_sendTransaction\<close> comes to.\<close>

definition tx_outcome ::
    "rpc_env \<Rightarrow> tx_env \<Rightarrow> send_tx \<Rightarrow> resolved_wallet \<Rightarrow> rpc_world \<Rightarrow> bool \<Rightarrow> bool \<Rightarrow> rpc_effect list \<Rightarrow> bool" where
  "tx_outcome env te t rs w why ok new =
    (\<exists>shown sent. new = shown @ sent \<and> (\<forall>e \<in> set shown. \<not> is_sending e)
      \<and> (sent = [] \<and> \<not> ok
         \<or> (\<exists>s q dev. sent = sends_as (sx_network t) s q te dev \<and> is_dev (re_probe env) (sx_network t) = Inr dev
             \<and> tx_signer env (sx_network t) rs w s \<and> same_call q (sx_request t) \<and> why)))"

lemma tx_send_outcome:
  assumes "tx_send env te (sx_network t) rs q w1 = (r, w')" "only_shows w w1" "same_call q (sx_request t)" why
  shows "\<exists>new. rw_effects w' = rw_effects w @ new \<and> tx_outcome env te t rs w why (is_ok r) new"
proof -
  obtain ds where ds: "rw_effects w1 = rw_effects w @ ds" "\<forall>e \<in> set ds. \<not> is_sending e"
    using shown_effects [OF assms(2)] .
  from assms(1) show ?thesis
  proof (cases rule: tx_send_spec)
    case (1 new)
    with ds show ?thesis
      unfolding tx_outcome_def by (intro exI [of _ "ds @ new"] conjI exI [of _ "ds @ new"] exI [of _ "[]"]) auto
  next
    case (2 s dev)
    with ds shown_keeps_signer [OF assms(2)] assms(3,4) show ?thesis
      unfolding tx_outcome_def
      by (intro exI [of _ "ds @ sends_as (sx_network t) s q te dev"] conjI exI [of _ ds] exI [of _ "sends_as (sx_network t) s q te dev"]) auto
  qed
qed

lemma nothing_sent: "only_shows w w' \<Longrightarrow> \<exists>new. rw_effects w' = rw_effects w @ new \<and> tx_outcome env te t rs w why False new"
  using shown_effects unfolding tx_outcome_def by (metis append_Nil2)

lemma dialog_outcome:
  assumes "dialog_and_send env te t rs w = Some (r, w')"
  shows "\<exists>new. rw_effects w' = rw_effects w @ new \<and> tx_outcome env te t rs w (tx_accepted env) (is_ok r) new"
proof (cases "dl_open (re_dialog env ''tx-review'')")
  case False
  with assms nothing_sent [of w w] show ?thesis by (auto simp: dialog_and_send_def)
next
  case True
  let ?w = "rw_effect (DialogOpened ''tx-review'' (tx_payload te t rs)) w"
  obtain x w1 where d: "tx_dialog (tx_dialog_turn env te (sx_network t) rs) (dl_recv (re_dialog env ''tx-review'')) 0 (sx_request t) ?w
      = Some (x, w1)"
    using assms True by (auto simp: dialog_and_send_def split: option.splits)
  from tx_dialog_spec [OF d] have sh: "only_shows w w1" and acc: "\<And>q. x = Inr q \<Longrightarrow> same_call q (sx_request t) \<and> tx_accepted env"
    using only_shows_trans only_shows_told(2) by blast+
  show ?thesis
  proof (cases x)
    case (Inl e)
    with assms True d nothing_sent [OF sh] show ?thesis by (auto simp: dialog_and_send_def)
  next
    case (Inr q)
    let ?w2 = "if rs_type rs = ''ledger'' then tell_dialog ''check-ledger'' None w1 else w1"
    from assms True d Inr have s: "tx_send env te (sx_network t) rs q ?w2 = (r, w')" by (auto simp: dialog_and_send_def)
    have "only_shows w ?w2" using only_shows_trans [OF sh only_shows_told(1)] sh by simp
    from tx_send_outcome [OF s this] acc [OF Inr] show ?thesis by blast
  qed
qed

definition tx_skips :: "rpc_env \<Rightarrow> network \<Rightarrow> resolved_wallet \<Rightarrow> rpc_world \<Rightarrow> bool" where
  "tx_skips env n rs w = (is_dev (re_probe env) n = Inr True \<and> fast_mode (get_all (rw_settings w))
    \<and> (\<exists>i x. wallet_named (rs_name rs) w = Inr (i, x) \<and> wallet_is_dev x))"

lemma tx_outcome_why: "tx_outcome env te t rs w why ok new \<Longrightarrow> (why \<Longrightarrow> why') \<Longrightarrow> tx_outcome env te t rs w why' ok new"
  unfolding tx_outcome_def by blast

lemma send_tx_finish_outcome:
  assumes "send_tx_finish env te t w = Some (r, w')"
  shows "(\<exists>e. resolve_wallet env t w = Inl e \<and> r = Inl e \<and> w' = w)
    \<or> (\<exists>rs new. resolve_wallet env t w = Inr rs \<and> rw_effects w' = rw_effects w @ new
        \<and> tx_outcome env te t rs w (tx_accepted env \<or> tx_skips env (sx_network t) rs w) (is_ok r) new)"
proof (cases "resolve_wallet env t w")
  case (Inl e)
  with assms show ?thesis by (simp add: send_tx_finish_def)
next
  case (Inr rs)
  let ?why = "tx_accepted env \<or> tx_skips env (sx_network t) rs w"
  have "\<exists>new. rw_effects w' = rw_effects w @ new \<and> tx_outcome env te t rs w ?why (is_ok r) new"
  proof (cases "wallet_named (rs_name rs) w")
    case (Inl e)
    with assms Inr nothing_sent [of w w] show ?thesis by (auto simp: send_tx_finish_def)
  next
    case named: (Inr p)
    obtain i x where p: "p = (i, x)" by (cases p)
    show ?thesis
    proof (cases "is_dev (re_probe env) (sx_network t)")
      case (Inl e)
      with assms Inr named p nothing_sent [of w w] show ?thesis by (auto simp: send_tx_finish_def)
    next
      case dev: (Inr dev)
      show ?thesis
      proof (cases "dev \<and> wallet_is_dev x \<and> fast_mode (get_all (rw_settings w))")
        case True
        with assms Inr named p dev have s: "tx_send env te (sx_network t) rs (sx_request t) w = (r, w')"
          by (simp add: send_tx_finish_def)
        from True named p dev have ?why by (simp add: tx_skips_def)
        then show ?thesis by (rule tx_send_outcome [OF s only_shows_here same_call_simps])
      next
        case False
        with assms Inr named p dev have "dialog_and_send env te t rs w = Some (r, w')"
          by (auto simp: send_tx_finish_def)
        from dialog_outcome [OF this] obtain new where "rw_effects w' = rw_effects w @ new"
          "tx_outcome env te t rs w (tx_accepted env) (is_ok r) new" by blast
        then show ?thesis using tx_outcome_why [of env te t rs w "tx_accepted env" "is_ok r" new ?why] by blast
      qed
    qed
  qed
  with Inr show ?thesis by blast
qed

lemma estimate_gas_keeps [simp]:
  "sx_network (estimate_gas te t) = sx_network t" "sx_from (estimate_gas te t) = sx_from t"
  by (simp_all add: estimate_gas_def)

lemma resolve_wallet_estimated [simp]: "resolve_wallet env (estimate_gas te t) w = resolve_wallet env t w"
  by (simp add: resolve_wallet_def cong: sum.case_cong option.case_cong)

lemma run_send_tx_outcome:
  assumes "run_send_tx env te t w = Some (r, w')"
  shows "(\<exists>e. resolve_wallet env t w = Inl e \<and> r = Inl e \<and> w' = w)
    \<or> (\<exists>rs new. resolve_wallet env t w = Inr rs \<and> rw_effects w' = rw_effects w @ new
        \<and> tx_outcome env te (estimate_gas te t) rs w (tx_accepted env \<or> tx_skips env (sx_network t) rs w) (is_ok r) new)"
proof -
  obtain r1 where f: "send_tx_finish env te (estimate_gas te t) w = Some (r1, w')"
    and r: "r = map_sum id (\<lambda>hash. JStr (''0x'' @ hash)) r1"
    using assms by (auto simp: run_send_tx_def)
  from send_tx_finish_outcome [OF f] r show ?thesis by auto
qed

text \<open>C2. A transaction is sent at most once, and once when the request succeeds; only after the
  user accepted it, or in fast mode on a development network from a development wallet; with the
  sender, recipient and gas limit of the request as estimated; to the node of the network of the
  connection.\<close>

theorem transactions_need_approval:
  assumes "run_send_tx env te t w = Some (r, w')"
  shows "\<exists>shown sent. rw_effects w' = rw_effects w @ shown @ sent \<and> (\<forall>e \<in> set shown. \<not> is_sending e)
    \<and> (sent = [] \<and> \<not> is_ok r
      \<or> (\<exists>rs s q dev. resolve_wallet env t w = Inr rs \<and> (tx_accepted env \<or> tx_skips env (sx_network t) rs w)
          \<and> is_dev (re_probe env) (sx_network t) = Inr dev \<and> tx_signer env (sx_network t) rs w s
          \<and> same_call q (sx_request (estimate_gas te t)) \<and> sent = sends_as (sx_network t) s q te dev))"
  using run_send_tx_outcome [OF assms]
proof (elim disjE exE conjE)
  fix e assume "r = Inl e" "w' = w"
  then show ?thesis by (intro exI [of _ "[]"]) simp
next
  fix rs new
  assume rs: "resolve_wallet env t w = Inr rs" and new: "rw_effects w' = rw_effects w @ new"
    and "tx_outcome env te (estimate_gas te t) rs w (tx_accepted env \<or> tx_skips env (sx_network t) rs w) (is_ok r) new"
  then obtain shown sent where "new = shown @ sent" "\<forall>e \<in> set shown. \<not> is_sending e"
    and "sent = [] \<and> \<not> is_ok r
      \<or> (\<exists>s q dev. sent = sends_as (sx_network t) s q te dev \<and> is_dev (re_probe env) (sx_network t) = Inr dev
          \<and> tx_signer env (sx_network t) rs w s \<and> same_call q (sx_request (estimate_gas te t))
          \<and> (tx_accepted env \<or> tx_skips env (sx_network t) rs w))"
    unfolding tx_outcome_def estimate_gas_keeps by blast
  then show ?thesis using rs new by (intro exI [of _ shown] exI [of _ sent]) blast
qed

section \<open>Signed by the sender\<close>

lemma find_in_found:
  "find_in env a ws = Inr (Some (x, path)) \<Longrightarrow> x \<in> set ws \<and> wallet_find env a x = Inr (Some path)"
  by (induction ws) (auto split: sum.splits option.splits)

lemma wallet_named_unique:
  assumes "wallet_named name w = Inr (i, y)" "x \<in> set (ws_wallets (rw_wallets w))" "wallet_name x = name"
    and "distinct (map wallet_name (ws_wallets (rw_wallets w)))"
  shows "y = x"
proof -
  from assms(1) have "i < length (ws_wallets (rw_wallets w))" "wallet_name y = name" "y = ws_wallets (rw_wallets w) ! i"
    using position_Some by (fastforce simp: wallet_named_def split: option.splits)+
  then show ?thesis using assms(2-4) by (auto simp: distinct_map dest!: inj_onD)
qed

lemma build_signer_chain: "build_signer env chain path x = (Inr s, x') \<Longrightarrow> signer_chain_id s = chain"
  by (cases x)
    (auto simp: pt_build_signer_def jk_build_signer_def hd_build_signer_def lg_build_signer_def pk_build_signer_def signer_from_bytes_def
      signer_from_text_def map_sum_Inr split: sum.splits prod.splits if_splits option.splits)

text \<open>The signer that the wallet in which an account is found builds for it.\<close>

definition signer_of :: "rpc_env \<Rightarrow> send_tx \<Rightarrow> rpc_world \<Rightarrow> signer \<Rightarrow> bool" where
  "signer_of env t w s = (\<exists>x \<in> set (ws_wallets (rw_wallets w)). \<exists>path x'. wallet_find (re_wallet env) (sx_from t) x = Inr (Some path)
    \<and> build_signer (re_wallet env) (chain_id (sx_network t)) path x = (Inr s, x')
    \<and> (wallet_ok (re_wallet env) x \<longrightarrow> signer_address s = sx_from t))"

lemma tx_signer_sender:
  assumes "resolve_wallet env t w = Inr rs" "tx_signer env (sx_network t) rs w s"
    and "distinct (map wallet_name (ws_wallets (rw_wallets w)))"
  shows "signer_of env t w s \<and> signer_chain_id s = chain_id (sx_network t)"
proof -
  obtain x where x: "find_in (re_wallet env) (sx_from t) (ws_wallets (rw_wallets w)) = Inr (Some (x, rs_path rs))"
    and name: "rs_name rs = wallet_name x"
    using assms(1) by (auto simp: resolve_wallet_def wallets_find_def split: sum.splits option.splits)
  from find_in_found [OF x] have mem: "x \<in> set (ws_wallets (rw_wallets w))"
    and find: "wallet_find (re_wallet env) (sx_from t) x = Inr (Some (rs_path rs))" by simp_all
  obtain i y z where y: "wallet_named (rs_name rs) w = Inr (i, y)"
    "build_signer (re_wallet env) (chain_id (sx_network t)) (rs_path rs) y = (Inr s, z)"
    using assms(2) by (auto simp: tx_signer_def)
  have "y = x" using wallet_named_unique [OF y(1) mem] name assms(3) by simp
  with y(2) find mem sign_found [of "re_wallet env" x "sx_from t"] build_signer_chain [OF y(2)] show ?thesis
    unfolding signer_of_def by blast
qed

text \<open>What a sending leaves, told at the place of the sent transaction.\<close>

lemma sends_as_split:
  assumes "\<forall>e \<in> set shown. \<not> is_sending e" "shown @ sends_as n s q te dev = pre @ SentTransaction u so j # post"
  shows "u = http_url n \<and> (if dev then so = None \<and> pre = (shown @ [Impersonated u (signer_address s)]) @ [TxSubmitted (chain_id n)]
    else so = Some s)"
proof -
  let ?before = "shown @ (if dev then [Impersonated (http_url n) (signer_address s)] else []) @ [TxSubmitted (chain_id n)]"
  let ?e = "SentTransaction (http_url n) (if dev then None else Some s) (JObj (te_json te q))"
  have whole: "shown @ sends_as n s q te dev = ?before @ [?e]" by (simp add: sends_as_def)
  have none: "\<forall>e \<in> set ?before. \<not> is_sending e" using assms(1) by (auto simp: is_sending_def)
  from assms(2) have eq: "?before @ [?e] = pre @ SentTransaction u so j # post" using whole by simp
  have "post = []"
  proof (rule ccontr)
    assume "post \<noteq> []"
    then obtain post' y where "post = post' @ [y]" by (metis rev_exhaust)
    with eq have "?before = pre @ SentTransaction u so j # post'" by (metis append_Cons append_assoc butlast_snoc)
    then have "SentTransaction u so j \<in> set ?before" by simp
    with none show False by (auto simp: is_sending_def)
  qed
  with eq have "?before = pre" "?e = SentTransaction u so j" by simp_all
  then show ?thesis by (cases dev) auto
qed

text \<open>C3. Every transaction sent is by the account the request is from, to the node of its network: on a network that is not one of development it carries the
  signer that the wallet in which the account is found builds for it and for the chain; on a development
  network it carries none, and the node was told, with nothing in between but the notice that a transaction is
  submitted, to impersonate the address of that signer. The address of that signer is the
  account itself as long as the wallet is consistent (the addresses it lists are those of the secret, device or key file behind it, and
  what the user types opens no other secret; what C6 shows of created wallets). No two wallets have one name.\<close>

theorem transactions_by_sender:
  assumes "run_send_tx env te t w = Some (r, w')" "distinct (map wallet_name (ws_wallets (rw_wallets w)))"
  shows "\<exists>new. rw_effects w' = rw_effects w @ new \<and>
    (\<forall>pre u so j post. new = pre @ SentTransaction u so j # post \<longrightarrow> u = http_url (sx_network t) \<and>
      (\<exists>s. signer_of env t w s \<and> signer_chain_id s = chain_id (sx_network t) \<and>
        (case so of
          Some s' \<Rightarrow> s' = s \<and> is_dev (re_probe env) (sx_network t) = Inr False
        | None \<Rightarrow> is_dev (re_probe env) (sx_network t) = Inr True
            \<and> (\<exists>pre'. pre = pre' @ [Impersonated u (signer_address s)] @ [TxSubmitted (chain_id (sx_network t))]))))"
  using run_send_tx_outcome [OF assms(1)]
proof (elim disjE exE conjE)
  fix e assume "w' = w"
  then show ?thesis by (intro exI [of _ "[]"]) simp
next
  fix rs new
  assume rs: "resolve_wallet env t w = Inr rs" and new: "rw_effects w' = rw_effects w @ new"
    and "tx_outcome env te (estimate_gas te t) rs w (tx_accepted env \<or> tx_skips env (sx_network t) rs w) (is_ok r) new"
  then obtain shown sent where sent: "new = shown @ sent" "\<forall>e \<in> set shown. \<not> is_sending e"
    and cases: "sent = [] \<or> (\<exists>s q dev. sent = sends_as (sx_network t) s q te dev \<and> is_dev (re_probe env) (sx_network t) = Inr dev
      \<and> tx_signer env (sx_network t) rs w s)"
    unfolding tx_outcome_def estimate_gas_keeps by blast
  have "u = http_url (sx_network t) \<and> (\<exists>s. signer_of env t w s \<and> signer_chain_id s = chain_id (sx_network t) \<and>
        (case so of
          Some s' \<Rightarrow> s' = s \<and> is_dev (re_probe env) (sx_network t) = Inr False
        | None \<Rightarrow> is_dev (re_probe env) (sx_network t) = Inr True
            \<and> (\<exists>pre'. pre = pre' @ [Impersonated u (signer_address s)] @ [TxSubmitted (chain_id (sx_network t))])))"
    if at: "new = pre @ SentTransaction u so j # post" for pre u so j post
    using cases
  proof (elim disjE exE conjE)
    assume "sent = []"
    with sent at show ?thesis by (auto simp: is_sending_def)
  next
    fix s q dev
    assume s: "sent = sends_as (sx_network t) s q te dev" "is_dev (re_probe env) (sx_network t) = Inr dev" "tx_signer env (sx_network t) rs w s"
    have "shown @ sends_as (sx_network t) s q te dev = pre @ SentTransaction u so j # post" using at sent(1) s(1) by simp
    from sends_as_split [OF sent(2) this] tx_signer_sender [OF rs s(3) assms(2)] s(2) show ?thesis
      by (intro conjI exI [of _ s]) (auto split: if_splits)
  qed
  with new show ?thesis by blast
qed

definition toy_tx_env :: tx_env where
  "toy_tx_env = \<lparr>te_params = (\<lambda>_. Inr \<lparr>ca_from = None, ca_to = Some 1, ca_value = None, ca_data = None, ca_gas = None\<rparr>),
    te_json = (\<lambda>_. []), te_connect = (\<lambda>_. Inr ()), te_estimate = (\<lambda>_ _. Some 21000), te_impersonate = (\<lambda>_ _. Inr ()),
    te_send = (\<lambda>_ _ _. Inr ''ab''), te_call = (\<lambda>_ _. Inr []), te_code = (\<lambda>_ _. Inr []), te_simulate = (\<lambda>_ _. None),
    te_bytes = (\<lambda>_. None), te_u256 = (\<lambda>_. None)\<rparr>"

definition toy_reviewed :: rpc_env where
  "toy_reviewed = toy_rpc_env\<lparr>re_dialog := (\<lambda>_. toy_dialog (JObj [(''event'', JStr ''accept'')]))\<rparr>"


definition toy_tx :: send_tx where
  "toy_tx = \<lparr>sx_network = anvil 0, sx_from = 1659,
    sx_request = \<lparr>tr_from = Some 1659, tr_to = Some 1, tr_value = None, tr_input = None, tr_gas = None\<rparr>\<rparr>"

lemma toy_run: "map_option fst (run_send_tx toy_reviewed toy_tx_env toy_tx toy_rpc_world) = Some (Inr (JStr ''0xab''))"
  by code_simp

theorem transactions_need_approval_witness:
  "\<exists>rs s. resolve_wallet toy_reviewed toy_tx toy_rpc_world = Inr rs
    \<and> tx_signer toy_reviewed (anvil 0) rs toy_rpc_world s"
proof -
  obtain r w' where run: "run_send_tx toy_reviewed toy_tx_env toy_tx toy_rpc_world = Some (r, w')" "is_ok r"
    using toy_run by auto
  have "sx_network toy_tx = anvil 0" by (simp add: toy_tx_def)
  with transactions_need_approval [OF run(1)] run(2) show ?thesis by auto
qed

theorem transactions_by_sender_witness:
  "\<exists>r w'. run_send_tx toy_reviewed toy_tx_env toy_tx toy_rpc_world = Some (r, w')
    \<and> (\<forall>pre u j post. rw_effects w' = pre @ SentTransaction u None j # post \<longrightarrow>
        (\<exists>pre' a. pre = pre' @ [Impersonated (http_url (anvil 0)) a] @ [TxSubmitted (chain_id (anvil 0))]))"
proof -
  obtain r w' where run: "run_send_tx toy_reviewed toy_tx_env toy_tx toy_rpc_world = Some (r, w')"
    using toy_run by auto
  have "sx_network toy_tx = anvil 0" "rw_effects toy_rpc_world = []"
    "distinct (map wallet_name (ws_wallets (rw_wallets toy_rpc_world)))" by (simp_all add: toy_tx_def toy_rpc_world_def)
  with transactions_by_sender [OF run] run show ?thesis by fastforce
qed

theorem gas_limit_bounds_witness:
  "map_option unat (tr_gas (sx_request (estimate_gas toy_tx_env toy_tx))) = Some (21000 * 120 div 100)"
proof -
  have est: "gas_estimate toy_tx_env toy_tx = 21000" by (simp add: gas_estimate_def toy_tx_env_def)
  have "into_request_with_from toy_rpc_env \<lparr>ca_from = Some 1659, ca_to = Some 1, ca_value = None, ca_data = None, ca_gas = None\<rparr>
      toy_rpc_world = Inr (sx_from toy_tx, sx_request toy_tx)"
    by (simp add: into_request_with_from_def into_request_def toy_tx_def)
  from gas_limit_bounds [OF this, of toy_tx_env] est show ?thesis by auto
qed

text \<open>An account that is only impersonated never sends, not even on a development network, where the
  node would sign for it: the provider is built from a signer, which such a wallet does not have.\<close>

lemma impersonators_never_send:
  assumes "run_send_tx env te t w = Some (r, w')"
    and "wallets_find (re_wallet env) (sx_from t) (rw_wallets w) = Inr (Some (Impersonator x, path))"
    and "distinct (map wallet_name (ws_wallets (rw_wallets w)))"
  shows "\<not> is_ok r \<and> (\<exists>new. rw_effects w' = rw_effects w @ new \<and> (\<forall>e \<in> set new. \<not> is_sending e))"
proof -
  have "\<not> tx_signer env n rs w s" if rs: "resolve_wallet env t w = Inr rs" for rs s n
  proof
    assume "tx_signer env n rs w s"
    then obtain i y z where y: "wallet_named (rs_name rs) w = Inr (i, y)"
      "build_signer (re_wallet env) (chain_id n) (rs_path rs) y = (Inr s, z)" by (auto simp: tx_signer_def)
    from assms(2) have "Impersonator x \<in> set (ws_wallets (rw_wallets w))"
      using find_in_found by (auto simp: wallets_find_def)
    moreover have "rs_name rs = wallet_name (Impersonator x)" using rs assms(2) by (auto simp: resolve_wallet_def)
    ultimately have "y = Impersonator x" using wallet_named_unique [OF y(1)] assms(3) by metis
    with y(2) show False by simp
  qed
  then show ?thesis
    using run_send_tx_outcome [OF assms(1)] unfolding tx_outcome_def estimate_gas_keeps by fastforce
qed

end
