(* ===== verification/Db.thy ===== *)
theory Db
  imports Ethui_Types
begin

text \<open>
  The database (\<open>crates/db\<close>, \<open>migrations\<close>): its tables and the queries on balances, token metadata,
  the blacklist, native balances, tips, the key-value table, and the tables of NFTs. A table with a
  primary key is the list of its rows under their keys. Addresses and hashes are stored as text and
  compared without case, so a key is the address itself; a chain id is stored as the \<open>i64\<close> of the
  same bits. SQLite itself is taken not to fail.
\<close>

section \<open>Rows and tables\<close>

record token_metadata =
  tm_address :: address
  tm_name :: "string option"
  tm_symbol :: "string option"
  tm_decimals :: "u8 option"

record token_balance =
  tb_contract :: address
  tb_balance :: u256
  tb_metadata :: token_metadata

type_synonym b256 = "256 word"

record tx =
  tx_hash :: b256
  tx_trace_address :: "u64 list option"
  tx_from :: address
  tx_to :: "address option"
  tx_block_number :: "u64 option"
  tx_value :: "u256 option"
  tx_data :: "bytes option"
  tx_position :: "u64 option"
  tx_status :: u64
  tx_deployed_contract :: "address option"
  tx_gas_limit :: "u64 option"
  tx_gas_used :: "u64 option"
  tx_max_fee_per_gas :: "128 word option"
  tx_max_priority_fee_per_gas :: "128 word option"
  tx_nonce :: "u64 option"
  tx_type :: "u64 option"
  tx_incomplete :: bool

record contract_row =
  cr_abi :: "string option"
  cr_name :: "string option"
  cr_proxy_for :: "address option"
  cr_proxied_by :: "address option"
  cr_code :: "bytes option"

record nft_row =
  nr_owner :: address
  nr_balance :: u256
  nr_uri :: "string option"
  nr_metadata :: "string option"

text \<open>
  The transactions are a list in the order of insertion, each with its chain: SQLite lets any number
  of rows have no trace address, although it is part of the key. The NFT tables of a standard are the
  tokens (by contract, chain and token) and the collections (by contract and chain); \<open>None\<close> is a
  table that does not exist.
\<close>

record nft_tables =
  nt_tokens :: "(address \<times> u64 \<times> u256, nft_row) hmap"
  nt_collections :: "(address \<times> u64, string \<times> string) hmap"

record db =
  db_balances :: "(address \<times> address \<times> u64, u256) hmap"
  db_metadata :: "(address \<times> u64, token_metadata) hmap"
  db_blacklist :: "(u64 \<times> address, bool) hmap"
  db_native :: "(address \<times> u64, u256) hmap"
  db_tips :: "(address \<times> u64, u64) hmap"
  db_kv :: "(string, string) hmap"
  db_txs :: "(u64 \<times> tx) list"
  db_contracts :: "(address \<times> u64 \<times> u64, contract_row) hmap"
  db_erc721 :: "nft_tables option"
  db_erc1155 :: "nft_tables option"

datatype db_error = RowNotFound | NoSuchTable | BadStatement | DbNotFound | DbPanic

type_synonym 'a db_handler = "(db, db_error, 'a) handler"

section \<open>ERC20 balances\<close>

definition read_erc20_balance :: "u64 \<Rightarrow> address \<Rightarrow> address \<Rightarrow> db \<Rightarrow> db_error + u256" where
  "read_erc20_balance chain contract owner d = ok_or RowNotFound (hm_get (db_balances d) (contract, owner, chain))"

definition save_erc20_balance :: "u64 \<Rightarrow> address \<Rightarrow> address \<Rightarrow> u256 \<Rightarrow> db \<Rightarrow> db" where
  "save_erc20_balance chain contract owner balance d =
    d\<lparr>db_balances := hm_insert (contract, owner, chain) balance (db_balances d)\<rparr>"

fun save_erc20_balances :: "u64 \<Rightarrow> address \<Rightarrow> (address \<times> u256) list \<Rightarrow> db \<Rightarrow> db" where
  "save_erc20_balances chain owner [] d = d"
| "save_erc20_balances chain owner ((contract, balance) # bs) d =
    save_erc20_balances chain owner bs (save_erc20_balance chain contract owner balance d)"

definition saturating_sub :: "'a::len word \<Rightarrow> 'a word \<Rightarrow> 'a word" where
  "saturating_sub a b = (if b \<le> a then a - b else 0)"

text \<open>\<open>+\<close> on \<open>U256\<close> wraps.\<close>

definition process_erc20_transfer :: "u64 \<Rightarrow> address \<Rightarrow> address \<Rightarrow> address \<Rightarrow> u256 \<Rightarrow> unit db_handler" where
  "process_erc20_transfer chain contract sender recipient v d =
    (case (if sender = 0 then Inr d
           else map_sum id (\<lambda>b. save_erc20_balance chain contract sender (saturating_sub b v) d)
             (read_erc20_balance chain contract sender d)) of
      Inl e \<Rightarrow> (Inl e, d)
    | Inr d1 \<Rightarrow>
        (Inr (),
         if recipient = 0 then d1
         else save_erc20_balance chain contract recipient
           ((case read_erc20_balance chain contract recipient d1 of Inl _ \<Rightarrow> 0 | Inr b \<Rightarrow> b) + v) d1))"

text \<open>The balances of an owner, each with the metadata of its token, if there is any.\<close>

definition owner_balances :: "u64 \<Rightarrow> address \<Rightarrow> db \<Rightarrow> token_balance list" where
  "owner_balances chain owner d =
    map (\<lambda>((contract, _, _), b). \<lparr>tb_contract = contract, tb_balance = b, tb_metadata =
        (case hm_get (db_metadata d) (contract, chain) of
          None \<Rightarrow> \<lparr>tm_address = owner, tm_name = None, tm_symbol = None, tm_decimals = None\<rparr>
        | Some m \<Rightarrow> m\<lparr>tm_address := owner\<rparr>)\<rparr>)
      (filter (\<lambda>((_, a, c), _). a = owner \<and> c = chain) (db_balances d))"

definition get_erc20_balances :: "u64 \<Rightarrow> address \<Rightarrow> bool \<Rightarrow> db \<Rightarrow> token_balance list" where
  "get_erc20_balances chain owner include_blacklisted d =
    (let blacklist = (if include_blacklisted then []
        else map (snd \<circ> fst) (filter (\<lambda>((c, _), b). c = chain \<and> b) (db_blacklist d))) in
      filter (\<lambda>t. tb_contract t \<notin> set blacklist) (owner_balances chain owner d))"

definition get_erc20_blacklist :: "u64 \<Rightarrow> address \<Rightarrow> db \<Rightarrow> token_balance list" where
  "get_erc20_blacklist chain owner d =
    (let blacklist = map (snd \<circ> fst) (filter (\<lambda>((c, _), _). c = chain) (db_blacklist d)) in
      filter (\<lambda>t. tb_contract t \<in> set blacklist) (owner_balances chain owner d))"

definition get_erc20_missing_metadata :: "u64 \<Rightarrow> db \<Rightarrow> address list" where
  "get_erc20_missing_metadata chain d =
    remdups (map (fst \<circ> fst)
      (filter (\<lambda>((contract, _, c), _). c = chain \<and> hm_get (db_metadata d) (contract, chain) = None) (db_balances d)))"

definition get_erc20_metadata :: "address \<Rightarrow> u64 \<Rightarrow> db \<Rightarrow> db_error + token_metadata" where
  "get_erc20_metadata contract chain d =
    map_sum id (\<lambda>m. m\<lparr>tm_address := contract\<rparr>) (ok_or RowNotFound (hm_get (db_metadata d) (contract, chain)))"

definition save_erc20_metadata :: "u64 \<Rightarrow> token_metadata \<Rightarrow> db \<Rightarrow> db" where
  "save_erc20_metadata chain m d = d\<lparr>db_metadata := hm_insert (tm_address m, chain) m (db_metadata d)\<rparr>"

fun save_erc20_metadatas :: "u64 \<Rightarrow> token_metadata list \<Rightarrow> db \<Rightarrow> db" where
  "save_erc20_metadatas chain [] d = d"
| "save_erc20_metadatas chain (m # ms) d = save_erc20_metadatas chain ms (save_erc20_metadata chain m d)"

definition set_erc20_blacklist :: "u64 \<Rightarrow> address \<Rightarrow> bool \<Rightarrow> db \<Rightarrow> db" where
  "set_erc20_blacklist chain contract b d = d\<lparr>db_blacklist := hm_insert (chain, contract) b (db_blacklist d)\<rparr>"

definition clear_erc20_blacklist :: "u64 \<Rightarrow> address \<Rightarrow> db \<Rightarrow> db" where
  "clear_erc20_blacklist chain contract d = d\<lparr>db_blacklist := hm_remove (chain, contract) (db_blacklist d)\<rparr>"

section \<open>Native balances, tips, keys and values\<close>

definition save_native_balance :: "u256 \<Rightarrow> u64 \<Rightarrow> address \<Rightarrow> db \<Rightarrow> db" where
  "save_native_balance balance chain owner d = d\<lparr>db_native := hm_insert (owner, chain) balance (db_native d)\<rparr>"

definition get_native_balance :: "u64 \<Rightarrow> address \<Rightarrow> db \<Rightarrow> u256" where
  "get_native_balance chain owner d = (case hm_get (db_native d) (owner, chain) of None \<Rightarrow> 0 | Some b \<Rightarrow> b)"

definition get_tip :: "u64 \<Rightarrow> address \<Rightarrow> db \<Rightarrow> db_error + u64" where
  "get_tip chain owner d = ok_or RowNotFound (hm_get (db_tips d) (owner, chain))"

definition set_tip :: "u64 \<Rightarrow> address \<Rightarrow> u64 \<Rightarrow> db \<Rightarrow> db" where
  "set_tip chain owner tip d = d\<lparr>db_tips := hm_insert (owner, chain) tip (db_tips d)\<rparr>"

text \<open>Keys and values as their JSON texts; a value that does not read back is a panic.\<close>

definition kv_set :: "('k \<Rightarrow> string) \<Rightarrow> ('v \<Rightarrow> string) \<Rightarrow> 'k \<Rightarrow> 'v \<Rightarrow> db \<Rightarrow> db" where
  "kv_set show_key show_value k v d = d\<lparr>db_kv := hm_insert (show_key k) (show_value v) (db_kv d)\<rparr>"

definition kv_get :: "('k \<Rightarrow> string) \<Rightarrow> (string \<Rightarrow> 'v option) \<Rightarrow> 'k \<Rightarrow> db \<Rightarrow> db_error + 'v option" where
  "kv_get show_key read_value k d =
    (case hm_get (db_kv d) (show_key k) of
      None \<Rightarrow> Inr None
    | Some t \<Rightarrow> (case read_value t of None \<Rightarrow> Inl DbPanic | Some v \<Rightarrow> Inr (Some v)))"

section \<open>Transfers\<close>

definition erc20_of :: "u64 \<Rightarrow> address \<Rightarrow> address \<Rightarrow> db \<Rightarrow> u256" where
  "erc20_of chain contract owner d = (case read_erc20_balance chain contract owner d of Inl _ \<Rightarrow> 0 | Inr b \<Rightarrow> b)"

lemma read_after_save [simp]:
  "read_erc20_balance c t a (save_erc20_balance c' t' a' b d) =
    (if c = c' \<and> t = t' \<and> a = a' then Inr b else read_erc20_balance c t a d)"
  by (auto simp: read_erc20_balance_def save_erc20_balance_def)

lemma erc20_of_save [simp]:
  "erc20_of c t a (save_erc20_balance c' t' a' b d) = (if c = c' \<and> t = t' \<and> a = a' then b else erc20_of c t a d)"
  by (simp add: erc20_of_def)

lemma process_erc20_transfer_known:
  assumes "sender = 0 \<or> is_ok (read_erc20_balance chain contract sender d)"
  shows "process_erc20_transfer chain contract sender recipient v d =
    (let d1 = (if sender = 0 then d
        else save_erc20_balance chain contract sender (saturating_sub (erc20_of chain contract sender d) v) d)
     in (Inr (), if recipient = 0 then d1
        else save_erc20_balance chain contract recipient (erc20_of chain contract recipient d1 + v) d1))"
  using assms
  by (cases "read_erc20_balance chain contract sender d") (auto simp: process_erc20_transfer_def erc20_of_def Let_def)

lemma word_sum_keeps:
  fixes a b v :: u256
  assumes "v \<le> a" "unat b + unat v < 2 ^ 256"
  shows "unat (a - v) + unat (b + v) = unat a + unat b"
proof -
  have "unat (a - v) = unat a - unat v" using assms(1) by (simp add: unat_sub)
  moreover have "unat (b + v) = unat b + unat v" using assms(2) by (simp add: unat_add_lem [THEN iffD1])
  moreover have "unat v \<le> unat a" using assms(1) by (simp add: word_le_nat_alt)
  ultimately show ?thesis by simp
qed

lemma unat_saturating_sub: "unat (saturating_sub a b) = unat a - unat b"
  by (auto simp: saturating_sub_def unat_sub word_le_nat_alt)

lemma unat_wrapping_add: "unat ((a :: u256) + b) = (unat a + unat b) mod 2 ^ 256"
  by (simp add: unat_word_ariths)

text \<open>C38. A transfer takes the value from the balance of the sender, down to zero where the balance is less,
  and adds it to that of the recipient, modulo \<open>2 ^ 256\<close>; the zero address is neither debited nor credited, and a
  transfer to oneself does both in this order. Where the sender has the value, the recipient's balance does not overflow and neither
  is the zero address, the sum of the two is kept. No other balance
  changes; and the transfer is refused without effect exactly when the sender is not the zero address and has
  no balance on record.\<close>

theorem transfer_moves_value:
  assumes "process_erc20_transfer chain contract sender recipient v d = (r, d')"
  shows "(r = Inl RowNotFound \<and> d' = d \<longleftrightarrow> sender \<noteq> 0 \<and> \<not> is_ok (read_erc20_balance chain contract sender d))
    \<and> (\<forall>c t a. (c, t) \<noteq> (chain, contract) \<or> a \<notin> {sender, recipient} \<or> a = 0 \<longrightarrow> erc20_of c t a d' = erc20_of c t a d)
    \<and> (is_ok r \<longrightarrow> sender \<noteq> 0 \<longrightarrow> sender \<noteq> recipient \<longrightarrow>
        unat (erc20_of chain contract sender d') = unat (erc20_of chain contract sender d) - unat v)
    \<and> (is_ok r \<longrightarrow> recipient \<noteq> 0 \<longrightarrow> sender \<noteq> recipient \<longrightarrow>
        unat (erc20_of chain contract recipient d') = (unat (erc20_of chain contract recipient d) + unat v) mod 2 ^ 256)
    \<and> (is_ok r \<longrightarrow> sender \<noteq> 0 \<longrightarrow> sender = recipient \<longrightarrow>
        unat (erc20_of chain contract sender d') = (unat (erc20_of chain contract sender d) - unat v + unat v) mod 2 ^ 256)
    \<and> (is_ok r \<longrightarrow> sender \<noteq> 0 \<longrightarrow> recipient \<noteq> 0 \<longrightarrow> v \<le> erc20_of chain contract sender d
        \<longrightarrow> unat (erc20_of chain contract recipient d) + unat v < 2 ^ 256
        \<longrightarrow> unat (erc20_of chain contract sender d') + unat (erc20_of chain contract recipient d')
          = unat (erc20_of chain contract sender d) + unat (erc20_of chain contract recipient d))"
proof (cases "sender = 0 \<or> is_ok (read_erc20_balance chain contract sender d)")
  case True
  then have "(r, d') = (let d1 = (if sender = 0 then d
        else save_erc20_balance chain contract sender (saturating_sub (erc20_of chain contract sender d) v) d)
     in (Inr (), if recipient = 0 then d1
        else save_erc20_balance chain contract recipient (erc20_of chain contract recipient d1 + v) d1))"
    using assms process_erc20_transfer_known by metis
  then have r: "r = Inr ()" and d': "d' = (let d1 = (if sender = 0 then d
        else save_erc20_balance chain contract sender (saturating_sub (erc20_of chain contract sender d) v) d)
     in if recipient = 0 then d1
        else save_erc20_balance chain contract recipient (erc20_of chain contract recipient d1 + v) d1)"
    by (simp_all add: Let_def)
  have "unat (erc20_of chain contract sender d') + unat (erc20_of chain contract recipient d')
      = unat (erc20_of chain contract sender d) + unat (erc20_of chain contract recipient d)"
    if "sender \<noteq> 0" "recipient \<noteq> 0" "v \<le> erc20_of chain contract sender d"
      "unat (erc20_of chain contract recipient d) + unat v < 2 ^ 256"
    using that by (simp add: d' Let_def saturating_sub_def word_sum_keeps)
  then show ?thesis
    using True by (auto simp: r d' Let_def unat_saturating_sub unat_wrapping_add)
next
  case False
  then have "(r, d') = (Inl RowNotFound, d)"
    using assms by (cases "read_erc20_balance chain contract sender d")
      (auto simp: process_erc20_transfer_def read_erc20_balance_def ok_or_def split: option.splits)
  with False show ?thesis by simp
qed

definition empty_db :: db where
  "empty_db = \<lparr>db_balances = [], db_metadata = [], db_blacklist = [], db_native = [], db_tips = [], db_kv = [],
    db_txs = [], db_contracts = [], db_erc721 = None, db_erc1155 = None\<rparr>"

theorem transfer_moves_value_witness:
  "let d = save_erc20_balance 1 7 5 100 empty_db; d' = snd (process_erc20_transfer 1 7 5 6 30 d)
   in unat (erc20_of 1 7 5 d') = 70 \<and> unat (erc20_of 1 7 6 d') = 30"
proof -
  let ?d = "save_erc20_balance 1 7 5 100 empty_db"
  obtain r d' where t: "process_erc20_transfer 1 7 5 6 30 ?d = (r, d')" by fastforce
  have k: "is_ok (read_erc20_balance 1 7 5 ?d)" by simp
  with t have r: "is_ok r" by (simp add: process_erc20_transfer_known Let_def is_ok_iff)
  have e: "erc20_of 1 7 6 ?d = 0" "erc20_of 1 7 5 ?d = 100"
    by (simp_all) (simp add: erc20_of_def read_erc20_balance_def empty_db_def)
  from transfer_moves_value [OF t] r have "unat (erc20_of 1 7 5 d') = 100 - 30" "unat (erc20_of 1 7 6 d') = 30 mod 2 ^ 256"
    by (simp_all add: e del: erc20_of_save)
  with t show ?thesis by simp
qed

text \<open>What the lists of balances show: the tokens of the owner that are not on the blacklist; but
  each carries the owner's address where the token's is meant, and a token taken off the blacklist
  with \<open>set_erc20_blacklist\<close> is still listed as blacklisted.\<close>

lemma get_erc20_balances_set:
  "(t \<in> set (get_erc20_balances chain owner False d)) =
    (t \<in> set (owner_balances chain owner d) \<and> ((chain, tb_contract t), True) \<notin> set (db_blacklist d))"
  by (auto simp: get_erc20_balances_def Let_def image_iff split: prod.splits)

lemma metadata_has_owner: "t \<in> set (owner_balances chain owner d) \<Longrightarrow> tm_address (tb_metadata t) = owner"
  by (auto simp: owner_balances_def split: option.splits)

lemma unblacklisted_twice:
  assumes "t \<in> set (owner_balances chain owner d)" "hm_ok (db_blacklist d)"
  shows "t \<in> set (get_erc20_balances chain owner False (set_erc20_blacklist chain (tb_contract t) False d))
    \<and> t \<in> set (get_erc20_blacklist chain owner (set_erc20_blacklist chain (tb_contract t) False d))"
proof -
  let ?d = "set_erc20_blacklist chain (tb_contract t) False d"
  have t: "t \<in> set (owner_balances chain owner ?d)" using assms(1) by (simp add: owner_balances_def set_erc20_blacklist_def)
  have ok: "hm_ok (db_blacklist ?d)" using assms(2) by (simp add: set_erc20_blacklist_def)
  have "((chain, tb_contract t), False) \<in> set (db_blacklist ?d)" "((chain, tb_contract t), True) \<notin> set (db_blacklist ?d)"
    using hm.entries_get [OF ok] by (auto simp: set_erc20_blacklist_def)
  with t show ?thesis by (force simp: get_erc20_balances_set get_erc20_blacklist_def Let_def)
qed

end
