(* ===== verification/Db_Nfts.thy ===== *)
theory Db_Nfts
  imports Db
begin

text \<open>
  The NFT queries (\<open>crates/db/src/queries/erc721.rs\<close>, \<open>erc1155.rs\<close>) and the migrations that make and drop
  their tables. The last word of the migrations on these tables is to drop them, so in the database
  the application opens every one of the queries fails.
\<close>

section \<open>The tables the migrations leave\<close>

datatype ddl = CreateTable string | DropTable string | DropIfExists string

text \<open>Migrations 4, 13, 22 and 25, on the tables of NFTs.\<close>

definition migration_04 :: "ddl list" where
  "migration_04 = [CreateTable ''nft_tokens'']"

definition migration_13 :: "ddl list" where
  "migration_13 = [CreateTable ''erc721_collections'', CreateTable ''erc721_tokens'', DropTable ''nft_tokens'']"

definition migration_22 :: "ddl list" where
  "migration_22 = [CreateTable ''erc1155_collections'', CreateTable ''erc1155_tokens'']"

definition migration_25 :: "ddl list" where
  "migration_25 = [DropIfExists ''erc721_tokens'', DropIfExists ''erc721_collections'',
    DropIfExists ''erc1155_tokens'', DropIfExists ''erc1155_collections'']"

fun run_ddl :: "ddl \<Rightarrow> string list \<Rightarrow> string list option" where
  "run_ddl (CreateTable t) ts = (if t \<in> set ts then None else Some (t # ts))"
| "run_ddl (DropTable t) ts = (if t \<in> set ts then Some (removeAll t ts) else None)"
| "run_ddl (DropIfExists t) ts = Some (removeAll t ts)"

fun run_migration :: "ddl list \<Rightarrow> string list \<Rightarrow> string list option" where
  "run_migration [] ts = Some ts"
| "run_migration (m # ms) ts = Option.bind (run_ddl m ts) (run_migration ms)"

section \<open>Statements on a table\<close>

definition on_table :: "(nft_tables \<Rightarrow> nft_tables) \<Rightarrow> nft_tables option \<Rightarrow> (db_error + unit) \<times> nft_tables option" where
  "on_table f t = (case t of None \<Rightarrow> (Inl NoSuchTable, None) | Some x \<Rightarrow> (Inr (), Some (f x)))"

definition on_erc721 :: "(nft_tables \<Rightarrow> nft_tables) \<Rightarrow> unit db_handler" where
  "on_erc721 f d = (case on_table f (db_erc721 d) of (r, t) \<Rightarrow> (r, d\<lparr>db_erc721 := t\<rparr>))"

definition on_erc1155 :: "(nft_tables \<Rightarrow> nft_tables) \<Rightarrow> unit db_handler" where
  "on_erc1155 f d = (case on_table f (db_erc1155 d) of (r, t) \<Rightarrow> (r, d\<lparr>db_erc1155 := t\<rparr>))"

definition put_token :: "address \<Rightarrow> u64 \<Rightarrow> u256 \<Rightarrow> nft_row \<Rightarrow> nft_tables \<Rightarrow> nft_tables" where
  "put_token contract chain token row t = t\<lparr>nt_tokens := hm_insert (contract, chain, token) row (nt_tokens t)\<rparr>"

definition put_collection :: "address \<Rightarrow> u64 \<Rightarrow> string \<Rightarrow> string \<Rightarrow> nft_tables \<Rightarrow> nft_tables" where
  "put_collection contract chain name symbol t =
    t\<lparr>nt_collections := hm_insert (contract, chain) (name, symbol) (nt_collections t)\<rparr>"

section \<open>ERC721\<close>

definition process_erc721_transfer :: "u64 \<Rightarrow> address \<Rightarrow> address \<Rightarrow> u256 \<Rightarrow> unit db_handler" where
  "process_erc721_transfer chain contract recipient token =
    (if recipient = 0 then on_erc721 (\<lambda>t. t\<lparr>nt_tokens := hm_remove (contract, chain, token) (nt_tokens t)\<rparr>)
     else on_erc721 (put_token contract chain token
       \<lparr>nr_owner = recipient, nr_balance = 0, nr_uri = None, nr_metadata = None\<rparr>))"

definition save_erc721_token_data :: "address \<Rightarrow> u64 \<Rightarrow> u256 \<Rightarrow> address \<Rightarrow> string \<Rightarrow> string \<Rightarrow> unit db_handler" where
  "save_erc721_token_data contract chain token owner uri metadata = on_erc721 (put_token contract chain token
    \<lparr>nr_owner = owner, nr_balance = 0, nr_uri = Some uri, nr_metadata = Some metadata\<rparr>)"

definition save_erc721_collection :: "address \<Rightarrow> u64 \<Rightarrow> string \<Rightarrow> string \<Rightarrow> unit db_handler" where
  "save_erc721_collection contract chain name symbol = on_erc721 (put_collection contract chain name symbol)"

record nft_data =
  nd_contract :: address
  nd_token :: u256
  nd_owner :: address
  nd_balance :: u256
  nd_name :: string
  nd_symbol :: string
  nd_uri :: string
  nd_metadata :: string

text \<open>A row whose URI, metadata or collection is missing cannot be read: a panic.\<close>

definition nft_data_of :: "nft_tables \<Rightarrow> (address \<times> u64 \<times> u256) \<times> nft_row \<Rightarrow> nft_data option" where
  "nft_data_of t e =
    (case e of ((contract, chain, token), row) \<Rightarrow>
      (case (nr_uri row, nr_metadata row, hm_get (nt_collections t) (contract, chain)) of
        (Some uri, Some metadata, Some (name, symbol)) \<Rightarrow>
          Some \<lparr>nd_contract = contract, nd_token = token, nd_owner = nr_owner row, nd_balance = nr_balance row,
            nd_name = name, nd_symbol = symbol, nd_uri = uri, nd_metadata = metadata\<rparr>
      | _ \<Rightarrow> None))"

definition nfts_of :: "u64 \<Rightarrow> address \<Rightarrow> nft_tables option \<Rightarrow> db_error + nft_data list" where
  "nfts_of chain owner table =
    (case table of
      None \<Rightarrow> Inl NoSuchTable
    | Some t \<Rightarrow> ok_or DbPanic (those (map (nft_data_of t)
        (filter (\<lambda>((_, c, _), row). c = chain \<and> nr_owner row = owner) (nt_tokens t)))))"

definition get_erc721_tokens :: "u64 \<Rightarrow> address \<Rightarrow> db \<Rightarrow> db_error + nft_data list" where
  "get_erc721_tokens chain owner d = nfts_of chain owner (db_erc721 d)"

definition tokens_with_missing_data :: "u64 \<Rightarrow> nft_tables option \<Rightarrow> db_error + unit" where
  "tokens_with_missing_data chain table =
    (case table of
      None \<Rightarrow> Inl NoSuchTable
    | Some t \<Rightarrow>
        if list_ex (\<lambda>((_, c, _), row). c = chain \<and> (nr_uri row = None \<or> nr_metadata row = None)) (nt_tokens t)
        then Inl DbPanic else Inr ())"

definition collections_with_missing_data :: "u64 \<Rightarrow> nft_tables option \<Rightarrow> db_error + address list" where
  "collections_with_missing_data chain table =
    (case table of
      None \<Rightarrow> Inl NoSuchTable
    | Some t \<Rightarrow> Inr (remdups (map (\<lambda>((contract, _, _), _). contract)
        (filter (\<lambda>((contract, c, _), _). c = chain \<and> hm_get (nt_collections t) (contract, chain) = None) (nt_tokens t)))))"

section \<open>ERC1155\<close>

definition read_erc1155_balance :: "u64 \<Rightarrow> address \<Rightarrow> address \<Rightarrow> u256 \<Rightarrow> db \<Rightarrow> db_error + u256" where
  "read_erc1155_balance chain contract owner token d =
    (case db_erc1155 d of
      None \<Rightarrow> Inl NoSuchTable
    | Some t \<Rightarrow>
        (case hm_get (nt_tokens t) (contract, chain, token) of
          Some row \<Rightarrow> (if nr_owner row = owner then Inr (nr_balance row) else Inl RowNotFound)
        | None \<Rightarrow> Inl RowNotFound))"

text \<open>Both select the balance and then read another column of the row: a panic where there is a row.\<close>

definition read_erc1155_uri :: "u64 \<Rightarrow> address \<Rightarrow> u256 \<Rightarrow> db \<Rightarrow> db_error + string" where
  "read_erc1155_uri chain contract token d =
    (case db_erc1155 d of
      None \<Rightarrow> Inl NoSuchTable
    | Some t \<Rightarrow> (case hm_get (nt_tokens t) (contract, chain, token) of None \<Rightarrow> Inl RowNotFound | Some _ \<Rightarrow> Inl DbPanic))"

definition read_erc1155_metadata :: "u64 \<Rightarrow> address \<Rightarrow> u256 \<Rightarrow> db \<Rightarrow> db_error + string" where
  "read_erc1155_metadata = read_erc1155_uri"

text \<open>The statement names five columns and gives four values; SQLite refuses it.\<close>

definition save_erc1155_balance :: "u64 \<Rightarrow> address \<Rightarrow> address \<Rightarrow> u256 \<Rightarrow> u256 \<Rightarrow> unit db_handler" where
  "save_erc1155_balance chain contract owner token balance d = (Inl BadStatement, d)"

definition save_erc1155_token_data :: "address \<Rightarrow> u64 \<Rightarrow> u256 \<Rightarrow> address \<Rightarrow> u256 \<Rightarrow> string \<Rightarrow> string \<Rightarrow> unit db_handler" where
  "save_erc1155_token_data contract chain token owner balance uri metadata = on_erc1155 (put_token contract chain token
    \<lparr>nr_owner = owner, nr_balance = balance, nr_uri = Some uri, nr_metadata = Some metadata\<rparr>)"

definition save_erc1155_collection :: "address \<Rightarrow> u64 \<Rightarrow> string \<Rightarrow> string \<Rightarrow> unit db_handler" where
  "save_erc1155_collection contract chain name symbol = on_erc1155 (put_collection contract chain name symbol)"

definition credit_erc1155 :: "u64 \<Rightarrow> address \<Rightarrow> address \<Rightarrow> u256 \<Rightarrow> u256 \<Rightarrow> unit db_handler" where
  "credit_erc1155 chain contract recipient token balance d =
    (case read_erc1155_uri chain contract token d of
      Inl e \<Rightarrow> (Inl e, d)
    | Inr uri \<Rightarrow>
        (case read_erc1155_metadata chain contract token d of
          Inl e \<Rightarrow> (Inl e, d)
        | Inr metadata \<Rightarrow> save_erc1155_token_data contract chain token recipient balance uri metadata d))"

definition process_erc1155_transfer :: "u64 \<Rightarrow> address \<Rightarrow> address \<Rightarrow> address \<Rightarrow> u256 \<Rightarrow> u256 \<Rightarrow> unit db_handler" where
  "process_erc1155_transfer chain contract sender recipient token v d =
    (case read_erc1155_balance chain contract recipient token d of
      Inl e \<Rightarrow> (Inl e, d)
    | Inr to_balance \<Rightarrow>
        (case read_erc1155_balance chain contract sender token d of
          Inl e \<Rightarrow> (Inl e, d)
        | Inr from_balance \<Rightarrow>
            (case (if recipient = 0 then (Inr (), d)
                   else credit_erc1155 chain contract recipient token (to_balance + v) d) of
              (Inl e, d1) \<Rightarrow> (Inl e, d1)
            | (Inr _, d1) \<Rightarrow>
                if v = from_balance
                then on_erc1155 (\<lambda>t. t\<lparr>nt_tokens := filter (\<lambda>(k, row). k = (contract, chain, token) \<longrightarrow> nr_owner row \<noteq> sender)
                  (nt_tokens t)\<rparr>) d1
                else save_erc1155_balance chain contract sender token (saturating_sub from_balance v) d1)))"

definition get_erc1155_tokens :: "u64 \<Rightarrow> address \<Rightarrow> db \<Rightarrow> db_error + nft_data list" where
  "get_erc1155_tokens chain owner d = nfts_of chain owner (db_erc1155 d)"

section \<open>What cannot work\<close>

text \<open>The tables are gone after the migrations.\<close>

lemma nft_tables_dropped:
  "Option.bind (run_migration migration_04 []) (\<lambda>a. Option.bind (run_migration migration_13 a)
    (\<lambda>b. Option.bind (run_migration migration_22 b) (run_migration migration_25))) = Some []"
  by code_simp

text \<open>Even where the table is there, no transfer that mints or leaves a remainder succeeds, and none
  that fails changes a row.\<close>

lemma erc1155_transfer_fails:
  assumes "process_erc1155_transfer chain contract sender recipient token v d = (r, d')" "is_ok r"
  shows "recipient = 0 \<and> db_erc1155 d \<noteq> None \<and> read_erc1155_balance chain contract sender token d = Inr v"
  using assms
  by (auto simp: process_erc1155_transfer_def credit_erc1155_def read_erc1155_uri_def read_erc1155_metadata_def
      save_erc1155_balance_def read_erc1155_balance_def
      split: sum.splits option.splits if_splits)

end
