(* ===== verification/Db_Transactions.thy ===== *)
theory Db_Transactions
  imports Db "HOL-Library.Product_Lexorder"
begin

text \<open>
  The table of transactions (\<open>crates/db/src/queries/transactions.rs\<close>): insertion, lookup by hash, the
  pages of an address's history and of a chain's, and what is listed or removed. Rows are kept in
  the order of insertion; of several rows a lookup gives the one inserted first, and rows that an
  \<open>ORDER BY\<close> does not tell apart stay in that order (SQLite promises no order there).
\<close>

section \<open>Insertion and lookup\<close>

text \<open>What a row keeps: the position and the status go through 32 bits, the deployed contract is lost.\<close>

definition stored_tx :: "tx \<Rightarrow> tx" where
  "stored_tx t = t\<lparr>
    tx_position := Some (ucast (ucast (case tx_position t of None \<Rightarrow> 0 | Some p \<Rightarrow> p) :: u32)),
    tx_status := ucast (ucast (tx_status t) :: u32),
    tx_deployed_contract := None\<rparr>"

text \<open>The primary key is hash, chain and trace address; a row without a trace address has no equal.\<close>

definition tx_conflicts :: "u64 \<Rightarrow> tx \<Rightarrow> u64 \<times> tx \<Rightarrow> bool" where
  "tx_conflicts chain t r = (fst r = chain \<and> tx_hash (snd r) = tx_hash t
    \<and> tx_trace_address t \<noteq> None \<and> tx_trace_address (snd r) = tx_trace_address t)"

definition insert_transaction :: "u64 \<Rightarrow> tx \<Rightarrow> db \<Rightarrow> db" where
  "insert_transaction chain t d =
    (if list_ex (tx_conflicts chain t) (db_txs d) then d
     else d\<lparr>db_txs := db_txs d @ [(chain, stored_tx t)]\<rparr>)"

fun insert_transactions :: "u64 \<Rightarrow> tx list \<Rightarrow> db \<Rightarrow> db" where
  "insert_transactions chain [] d = d"
| "insert_transactions chain (t # ts) d = insert_transactions chain ts (insert_transaction chain t d)"

text \<open>An empty trace address is stored as an empty text and read as none.\<close>

definition get_transaction_by_hash :: "u64 \<Rightarrow> b256 \<Rightarrow> db \<Rightarrow> db_error + tx" where
  "get_transaction_by_hash chain h d =
    (case List.find (\<lambda>(c, t). c = chain \<and> tx_hash t = h) (db_txs d) of
      None \<Rightarrow> Inl RowNotFound
    | Some (_, t) \<Rightarrow> Inr (if tx_trace_address t = Some [] then t\<lparr>tx_trace_address := None\<rparr> else t))"

text \<open>
  The command of the user interface: an incomplete transaction is fetched in full, which inserts it,
  and read again. \<open>fetched\<close> is what the node has, when the fetch succeeds.
\<close>

definition db_get_transaction_by_hash :: "tx option \<Rightarrow> u64 \<Rightarrow> b256 \<Rightarrow> tx db_handler" where
  "db_get_transaction_by_hash fetched chain h d =
    (case get_transaction_by_hash chain h d of
      Inl e \<Rightarrow> (Inl e, d)
    | Inr t \<Rightarrow>
        if tx_incomplete t then
          (let d1 = (case fetched of None \<Rightarrow> d | Some f \<Rightarrow> insert_transaction chain f d) in
            (get_transaction_by_hash chain h d1, d1))
        else (Inr t, d))"

section \<open>Pages\<close>

text \<open>The selected columns of a row, which is what \<open>DISTINCT\<close> compares.\<close>

record tx_columns =
  tc_value :: "u256 option"
  tc_hash :: b256
  tc_from :: address
  tc_to :: "address option"
  tc_block_number :: "u64 option"
  tc_position :: "u64 option"
  tc_data :: "bytes option"
  tc_status :: u64
  tc_incomplete :: bool

definition tx_columns_of :: "tx \<Rightarrow> tx_columns" where
  "tx_columns_of t = \<lparr>tc_value = tx_value t, tc_hash = tx_hash t, tc_from = tx_from t, tc_to = tx_to t,
    tc_block_number = tx_block_number t, tc_position = tx_position t, tc_data = tx_data t, tc_status = tx_status t,
    tc_incomplete = tx_incomplete t\<rparr>"

record transaction =
  ta_hash :: b256
  ta_from :: address
  ta_to :: "address option"
  ta_block_number :: "u64 option"
  ta_position :: "u64 option"
  ta_data :: "bytes option"
  ta_status :: u64
  ta_incomplete :: bool

definition transaction_of :: "tx_columns \<Rightarrow> transaction" where
  "transaction_of c = \<lparr>ta_hash = tc_hash c, ta_from = tc_from c, ta_to = tc_to c, ta_block_number = tc_block_number c,
    ta_position = tc_position c, ta_data = tc_data c, ta_status = tc_status c, ta_incomplete = tc_incomplete c\<rparr>"

record tx_idx =
  ti_block_number :: u64
  ti_position :: u64

text \<open>Where a row stands, as the integers SQLite compares; a row without a block stands nowhere.\<close>

definition place :: "tx_columns \<Rightarrow> (int \<times> int) option" where
  "place c = (case (tc_block_number c, tc_position c) of (Some b, Some p) \<Rightarrow> Some (sint b, sint p) | _ \<Rightarrow> None)"

definition idx_place :: "tx_idx \<Rightarrow> int \<times> int" where
  "idx_place i = (sint (ti_block_number i), sint (ti_position i))"

text \<open>\<open>block < ? OR (block = ? AND position < ?)\<close>, the same with \<open>>\<close>, and the descending order.\<close>

definition older_than :: "int \<times> int \<Rightarrow> tx_columns \<Rightarrow> bool" where
  "older_than i c = (case place c of None \<Rightarrow> False | Some (b, p) \<Rightarrow> b < fst i \<or> b = fst i \<and> p < snd i)"

definition newer_than :: "int \<times> int \<Rightarrow> tx_columns \<Rightarrow> bool" where
  "newer_than i c = (case place c of None \<Rightarrow> False | Some (b, p) \<Rightarrow> fst i < b \<or> b = fst i \<and> snd i < p)"

definition desc_key :: "tx_columns \<Rightarrow> int \<times> int" where
  "desc_key c = (case place c of None \<Rightarrow> (0, 0) | Some (b, p) \<Rightarrow> (- b, - p))"

definition asc_key :: "tx_columns \<Rightarrow> int \<times> int" where
  "asc_key c = (case place c of None \<Rightarrow> (0, 0) | Some bp \<Rightarrow> bp)"

definition i64_max :: int where
  "i64_max = 2 ^ 63 - 1"

definition rows_of_chain :: "u64 \<Rightarrow> db \<Rightarrow> tx_columns list" where
  "rows_of_chain chain d = map (tx_columns_of \<circ> snd) (filter (\<lambda>(c, _). c = chain) (db_txs d))"

definition rows_of_address :: "u64 \<Rightarrow> address \<Rightarrow> db \<Rightarrow> tx_columns list" where
  "rows_of_address chain a d = filter (\<lambda>c. tc_from c = a \<or> tc_to c = Some a) (rows_of_chain chain d)"

definition page_before :: "u32 \<Rightarrow> tx_idx option \<Rightarrow> tx_columns list \<Rightarrow> tx_columns list" where
  "page_before m last_known rows =
    (let i = (case last_known of None \<Rightarrow> (i64_max, i64_max) | Some l \<Rightarrow> idx_place l) in
      take (unat m) (sort_key desc_key (remdups (filter (older_than i) rows))))"

definition get_older_transactions :: "u64 \<Rightarrow> address \<Rightarrow> u32 \<Rightarrow> tx_idx option \<Rightarrow> db \<Rightarrow> transaction list" where
  "get_older_transactions chain a m last_known d = map transaction_of (page_before m last_known (rows_of_address chain a d))"

definition get_latest_transactions :: "u64 \<Rightarrow> u32 \<Rightarrow> tx_idx option \<Rightarrow> db \<Rightarrow> transaction list" where
  "get_latest_transactions chain m last_known d = map transaction_of (page_before m last_known (rows_of_chain chain d))"

text \<open>The oldest of the newer ones, newest first; here there is no \<open>DISTINCT\<close>.\<close>

definition page_after :: "u32 \<Rightarrow> tx_idx option \<Rightarrow> tx_columns list \<Rightarrow> tx_columns list" where
  "page_after m first_known rows =
    (let i = (case first_known of None \<Rightarrow> (0, 0) | Some l \<Rightarrow> idx_place l) in
      sort_key desc_key (take (unat m) (sort_key asc_key (filter (newer_than i) rows))))"

definition get_newer_transactions :: "u64 \<Rightarrow> address \<Rightarrow> u32 \<Rightarrow> tx_idx option \<Rightarrow> db \<Rightarrow> transaction list" where
  "get_newer_transactions chain a m first_known d = map transaction_of (page_after m first_known (rows_of_address chain a d))"

section \<open>Other queries\<close>

definition remove_transactions :: "u64 \<Rightarrow> db \<Rightarrow> db" where
  "remove_transactions chain d = d\<lparr>db_txs := filter (\<lambda>(c, _). c \<noteq> chain) (db_txs d)\<rparr>"

definition get_call_count :: "u64 \<Rightarrow> address \<Rightarrow> address \<Rightarrow> db \<Rightarrow> u32" where
  "get_call_count chain caller callee d =
    of_nat (length (filter (\<lambda>(c, t). c = chain \<and> tx_from t = caller \<and> tx_to t = Some callee) (db_txs d)))"

definition get_transaction_addresses :: "u64 \<Rightarrow> db \<Rightarrow> address list" where
  "get_transaction_addresses chain d =
    (let ts = map snd (filter (\<lambda>(c, _). c = chain) (db_txs d)) in
      remdups (map tx_from ts @ map the (filter (\<lambda>a. a \<noteq> None) (map tx_to ts))))"

section \<open>Paging reaches every transaction\<close>

text \<open>The whole history, newest first, and rows that stand in different places.\<close>

definition tx_history :: "tx_columns list \<Rightarrow> tx_columns list" where
  "tx_history rows = sort_key desc_key (remdups (filter (older_than (i64_max, i64_max)) rows))"

definition placed :: "tx_columns \<Rightarrow> bool" where
  "placed c = (place c \<noteq> None)"

definition placed_apart :: "tx_columns list \<Rightarrow> bool" where
  "placed_apart rows = (distinct (map place (filter placed rows))
    \<and> (\<forall>c \<in> set rows. place c \<noteq> Some (i64_max, i64_max)))"

lemma older_than_key: "place c = Some p \<Longrightarrow> older_than p x \<longleftrightarrow> placed x \<and> desc_key c < desc_key x"
  by (cases p) (auto simp: placed_def older_than_def desc_key_def less_prod_def' split: option.splits)

lemma newer_than_key: "place c = Some p \<Longrightarrow> newer_than p x \<longleftrightarrow> placed x \<and> desc_key x < desc_key c"
  by (cases p) (auto simp: placed_def newer_than_def desc_key_def less_prod_def' split: option.splits)

lemma older_than_trans: "older_than p c \<Longrightarrow> place c = Some q \<Longrightarrow> older_than q x \<Longrightarrow> older_than p x"
  by (cases p; cases q) (auto simp: older_than_def split: option.splits)

lemma filter_above:
  fixes k :: "'a \<Rightarrow> 'b::linorder"
  assumes "sorted_wrt (\<lambda>x y. k x < k y) xs" "i < length xs"
  shows "filter (\<lambda>x. k (xs ! i) < k x) xs = drop (Suc i) xs" "filter (\<lambda>x. k x < k (xs ! i)) xs = take i xs"
  using assms
proof (induction xs arbitrary: i)
  case (Cons x xs)
  { case 1
    then show ?case using Cons.IH(1) by (cases i) (auto simp: filter_id_conv less_not_sym dest: less_trans)
  next
    case 2
    then show ?case using Cons.IH(2) by (cases i) (auto simp: filter_empty_conv dest: less_not_sym) }
qed auto

lemma older_than_max: "place c \<noteq> Some (i64_max, i64_max) \<Longrightarrow> older_than (i64_max, i64_max) c \<longleftrightarrow> placed c"
proof -
  have "sint (x :: u64) \<le> i64_max" for x using sint_lt [of x] by (simp add: i64_max_def)
  then show "place c \<noteq> Some (i64_max, i64_max) \<Longrightarrow> ?thesis"
    by (auto simp: placed_def older_than_def place_def less_le split: option.splits)
qed

lemma desc_key_inj: "placed c \<Longrightarrow> placed c' \<Longrightarrow> desc_key c = desc_key c' \<longleftrightarrow> place c = place c'"
  by (auto simp: placed_def desc_key_def split: option.splits prod.splits)

lemma history_placed:
  assumes "placed_apart rows"
  shows "tx_history rows = sort_key desc_key (filter placed rows)"
    "sorted_wrt (\<lambda>x y. desc_key x < desc_key y) (tx_history rows)"
    "\<forall>c \<in> set (tx_history rows). placed c"
proof -
  have f: "filter (older_than (i64_max, i64_max)) rows = filter placed rows"
    using assms by (intro filter_cong) (auto simp: placed_apart_def older_than_max)
  have d: "distinct (filter placed rows)"
    using assms by (simp add: placed_apart_def distinct_map)
  show eq: "tx_history rows = sort_key desc_key (filter placed rows)"
    by (simp only: tx_history_def f distinct_remdups_id [OF d])
  show all: "\<forall>c \<in> set (tx_history rows). placed c" by (simp add: eq)
  have "inj_on place (set (filter placed rows))"
    using assms unfolding placed_apart_def distinct_map by blast
  then have "inj_on desc_key (set (filter placed rows))"
    by (auto simp: inj_on_def desc_key_inj)
  then have "distinct (map desc_key (tx_history rows))" using d by (simp add: eq distinct_map)
  then show "sorted_wrt (\<lambda>x y. desc_key x < desc_key y) (tx_history rows)"
    using sorted_sort_key [of desc_key "filter placed rows"]
    by (simp add: eq strict_sorted_iff sorted_wrt_map [symmetric] flip: sorted_wrt_map)
qed

lemma sort_key_strict:
  fixes k :: "'a \<Rightarrow> 'b::linorder"
  assumes "sorted_wrt (\<lambda>x y. k x < k y) xs" "set ys = set xs" "distinct ys"
  shows "sort_key k ys = xs"
proof -
  have strict: "sorted_wrt (<) (map k xs)" using assms(1) by (simp add: sorted_wrt_map)
  then have d: "distinct (map k xs)" by (simp add: strict_sorted_iff)
  moreover have "inj_on k (set ys)" using d assms(2) by (simp add: distinct_map)
  ultimately show ?thesis
    using strict assms(2,3) sorted_sort_key [of k ys]
    by (intro map_sorted_distinct_set_unique [of k]) (auto simp: strict_sorted_iff distinct_map)
qed

lemma asc_key_less: "placed c \<Longrightarrow> placed c' \<Longrightarrow> asc_key c < asc_key c' \<longleftrightarrow> desc_key c' < desc_key c"
  by (auto simp: placed_def asc_key_def desc_key_def less_prod_def' split: option.splits)

lemma asc_strict:
  assumes "sorted_wrt (\<lambda>x y. desc_key x < desc_key y) xs" "\<forall>c \<in> set xs. placed c"
  shows "sorted_wrt (\<lambda>x y. asc_key x < asc_key y) (rev xs)"
proof -
  have "sorted_wrt (\<lambda>x y. asc_key y < asc_key x) xs"
    using assms by (auto intro!: sorted_wrt_mono_rel [OF _ assms(1)] simp: asc_key_less)
  then show ?thesis by (simp add: sorted_wrt_rev)
qed

lemma page_before_spec:
  assumes "placed_apart rows" "i < length (tx_history rows)" "place (tx_history rows ! i) = Some (idx_place l)"
  shows "page_before m (Some l) rows = take (unat m) (drop (Suc i) (tx_history rows))"
proof -
  let ?H = "tx_history rows"
  have "filter (older_than (idx_place l)) rows = filter (older_than (idx_place l)) (filter placed rows)"
    by (auto simp: older_than_key [OF assms(3)] intro: filter_cong)
  moreover have "distinct (filter placed rows)" using assms(1) by (simp add: placed_apart_def distinct_map)
  ultimately have "sort_key desc_key (remdups (filter (older_than (idx_place l)) rows)) = filter (older_than (idx_place l)) ?H"
    by (simp add: history_placed(1) [OF assms(1)] filter_sort distinct_remdups_id del: filter_filter)
  also have "\<dots> = filter (\<lambda>x. desc_key (?H ! i) < desc_key x) ?H"
    using history_placed(3) [OF assms(1)] by (intro filter_cong) (auto simp: older_than_key [OF assms(3)])
  also have "\<dots> = drop (Suc i) ?H" by (rule filter_above(1) [OF history_placed(2) [OF assms(1)] assms(2)])
  finally show ?thesis by (simp add: page_before_def Let_def)
qed

lemma page_after_spec:
  assumes "placed_apart rows" "i < length (tx_history rows)" "place (tx_history rows ! i) = Some (idx_place l)"
  shows "page_after m (Some l) rows = drop (i - unat m) (take i (tx_history rows))"
proof -
  let ?H = "tx_history rows" let ?new = "filter (newer_than (idx_place l)) rows"
  let ?T = "take i ?H"
  have dist: "distinct (filter placed rows)" using assms(1) by (simp add: placed_apart_def distinct_map)
  have new: "?new = filter (newer_than (idx_place l)) (filter placed rows)"
    by (auto simp: newer_than_key [OF assms(3)] intro: filter_cong)
  have "sort_key desc_key ?new = filter (newer_than (idx_place l)) ?H"
    unfolding new by (simp add: history_placed(1) [OF assms(1)] filter_sort)
  also have "\<dots> = filter (\<lambda>x. desc_key x < desc_key (?H ! i)) ?H"
    using history_placed(3) [OF assms(1)] by (intro filter_cong) (auto simp: newer_than_key [OF assms(3)])
  also have "\<dots> = ?T" by (rule filter_above(2) [OF history_placed(2) [OF assms(1)] assms(2)])
  finally have T: "sort_key desc_key ?new = ?T" .
  have strict: "sorted_wrt (\<lambda>x y. desc_key x < desc_key y) (drop n ?T)" for n
    using history_placed(2) [OF assms(1)] by (intro sorted_wrt_drop sorted_wrt_take)
  have placed: "\<forall>c \<in> set ?T. placed c"
    using history_placed(3) [OF assms(1)] by (meson in_set_takeD)
  have "distinct ?new" unfolding new using dist by (rule distinct_filter)
  moreover have "set ?new = set (rev ?T)" using T [symmetric] by simp
  ultimately have "sort_key asc_key ?new = rev ?T"
    using asc_strict [OF strict [of 0, simplified] placed] by (intro sort_key_strict) auto
  then have "page_after m (Some l) rows = sort_key desc_key (take (unat m) (rev ?T))"
    by (simp add: page_after_def Let_def)
  also have "take (unat m) (rev ?T) = rev (drop (length ?T - unat m) ?T)" by (simp add: take_rev)
  also have "sort_key desc_key (rev (drop (length ?T - unat m) ?T)) = drop (length ?T - unat m) ?T"
  proof (rule sort_key_strict [OF strict])
    have "distinct ?T" using T [symmetric] \<open>distinct ?new\<close> by simp
    then show "distinct (rev (drop (length ?T - unat m) ?T))" by (simp only: distinct_rev distinct_drop)
  qed simp
  finally show ?thesis using assms(2) by simp
qed

text \<open>C17. Paging through an address's history misses and repeats nothing: the first page is the
  newest transactions, the page before a transaction is the ones that follow it in the history, and
  the page after it is the ones just ahead of it; provided no two rows stand in one place.\<close>

theorem pages_cover_history:
  assumes "placed_apart (rows_of_address chain a d)" "h = map transaction_of (tx_history (rows_of_address chain a d))"
    and "i < length h" "place (tx_history (rows_of_address chain a d) ! i) = Some (idx_place l)"
  shows "get_older_transactions chain a m None d = take (unat m) h
    \<and> get_older_transactions chain a m (Some l) d = take (unat m) (drop (Suc i) h)
    \<and> get_newer_transactions chain a m (Some l) d = drop (i - unat m) (take i h)"
  using assms
  by (simp add: get_older_transactions_def get_newer_transactions_def page_before_spec page_after_spec take_map drop_map)
    (simp add: page_before_def tx_history_def)

definition toy_transaction :: "b256 \<Rightarrow> u64 \<Rightarrow> tx" where
  "toy_transaction h b = \<lparr>tx_hash = h, tx_trace_address = None, tx_from = 5, tx_to = Some 6, tx_block_number = Some b,
    tx_value = None, tx_data = None, tx_position = Some 0, tx_status = 1, tx_deployed_contract = None, tx_gas_limit = None,
    tx_gas_used = None, tx_max_fee_per_gas = None, tx_max_priority_fee_per_gas = None, tx_nonce = None, tx_type = None,
    tx_incomplete = True\<rparr>"

definition toy_history :: db where
  "toy_history = insert_transactions 1 [toy_transaction 10 3, toy_transaction 11 4, toy_transaction 12 7] empty_db"

definition toy_row :: "b256 \<Rightarrow> u64 \<Rightarrow> tx_columns" where
  "toy_row h b = tx_columns_of (toy_transaction h b)"

lemma toy_rows: "rows_of_address 1 5 toy_history = [toy_row 10 3, toy_row 11 4, toy_row 12 7]"
  by (simp add: rows_of_address_def rows_of_chain_def toy_history_def insert_transaction_def tx_conflicts_def empty_db_def
      toy_row_def toy_transaction_def stored_tx_def tx_columns_of_def)

lemma toy_row_hash [simp]: "ta_hash (transaction_of (toy_row h b)) = h"
  by (simp add: transaction_of_def toy_row_def tx_columns_of_def toy_transaction_def)

lemma toy_row_place [simp]: "place (toy_row h b) = Some (sint b, 0)"
  by (simp add: place_def toy_row_def tx_columns_of_def toy_transaction_def)

lemma toy_row_eq [simp]: "toy_row h b = toy_row h' b' \<longleftrightarrow> h = h' \<and> b = b'"
  by (auto simp: toy_row_def tx_columns_of_def toy_transaction_def)

lemma toy_tx_history: "tx_history (rows_of_address 1 5 toy_history) = [toy_row 12 7, toy_row 11 4, toy_row 10 3]"
  by (simp add: toy_rows tx_history_def older_than_def i64_max_def desc_key_def less_prod_def')

theorem pages_cover_history_witness:
  "map ta_hash (get_older_transactions 1 5 1 (Some \<lparr>ti_block_number = 4, ti_position = 0\<rparr>) toy_history) = [10]
    \<and> map ta_hash (get_newer_transactions 1 5 1 (Some \<lparr>ti_block_number = 4, ti_position = 0\<rparr>) toy_history) = [12]"
  using pages_cover_history [of 1 5 toy_history "map transaction_of [toy_row 12 7, toy_row 11 4, toy_row 10 3]" 1
      "\<lparr>ti_block_number = 4, ti_position = 0\<rparr>" 1]
  by (simp add: toy_tx_history [unfolded toy_rows] toy_rows placed_apart_def placed_def i64_max_def idx_place_def)

text \<open>Rows in one place are lost between pages: neither page next to one of them shows another.\<close>

lemma tied_rows_lost:
  assumes "place c = Some (idx_place l)"
  shows "c \<notin> set (page_before m (Some l) rows)" "c \<notin> set (page_after m (Some l) rows)"
  using assms by (auto simp: page_before_def page_after_def Let_def older_than_key newer_than_key dest!: in_set_takeD)

section \<open>Round trip\<close>

lemma find_append: "List.find p (xs @ ys) = (case List.find p xs of None \<Rightarrow> List.find p ys | Some x \<Rightarrow> Some x)"
  by (induction xs) auto

text \<open>A transaction whose hash is new on its chain is read back as it was inserted, with a position
  where it had none, without the contract it deployed, and without an empty trace address.\<close>

theorem transaction_roundtrip:
  assumes "\<forall>(c, u) \<in> set (db_txs d). c = chain \<longrightarrow> tx_hash u \<noteq> tx_hash t"
    and "\<forall>p. tx_position t = Some p \<longrightarrow> unat p < 2 ^ 32" "unat (tx_status t) < 2 ^ 32"
  shows "get_transaction_by_hash chain (tx_hash t) (insert_transaction chain t d)
    = Inr (t\<lparr>tx_position := Some (case tx_position t of None \<Rightarrow> 0 | Some p \<Rightarrow> p), tx_deployed_contract := None,
        tx_trace_address := (if tx_trace_address t = Some [] then None else tx_trace_address t)\<rparr>)"
proof -
  have cut: "ucast (ucast x :: u32) = x" if "unat x < 2 ^ 32" for x :: u64
    using that by (intro word_unat_eq_iff [THEN iffD2]) (simp add: unsigned_ucast_eq unsigned_take_bit_eq take_bit_nat_eq_self)
  have "\<not> list_ex (tx_conflicts chain t) (db_txs d)"
    using assms(1) by (auto simp: list_ex_iff tx_conflicts_def)
  moreover have "List.find (\<lambda>(c, u). c = chain \<and> tx_hash u = tx_hash t) (db_txs d) = None"
    using assms(1) by (auto simp: find_None_iff)
  ultimately show ?thesis
    using assms(2,3) by (auto simp: insert_transaction_def get_transaction_by_hash_def find_append stored_tx_def cut split: option.splits)
qed

theorem transaction_roundtrip_witness:
  "get_transaction_by_hash 1 10 (insert_transaction 1 (toy_transaction 10 3) empty_db) = Inr (toy_transaction 10 3)"
  using transaction_roundtrip [of empty_db 1 "toy_transaction 10 3"] by (simp add: empty_db_def toy_transaction_def)

text \<open>But a transaction that Alchemy listed without its details is never completed: the full one is
  a second row, and the lookup after it still finds the first.\<close>

lemma incomplete_stays:
  assumes "get_transaction_by_hash chain h d = Inr t" "tx_incomplete t"
  shows "\<exists>d'. db_get_transaction_by_hash fetched chain h d = (Inr t, d')"
proof -
  have "get_transaction_by_hash chain h (insert_transaction chain f d) = Inr t" for f
    using assms(1) by (auto simp: get_transaction_by_hash_def insert_transaction_def find_append split: option.splits)
  with assms show ?thesis by (auto simp: db_get_transaction_by_hash_def Let_def split: option.splits)
qed

lemma untraced_rows_repeat:
  "tx_trace_address t = None \<Longrightarrow> length (db_txs (insert_transaction chain t d)) = Suc (length (db_txs d))"
  by (simp add: insert_transaction_def tx_conflicts_def list_ex_iff)

end
