(* ===== verification/Db_Contracts.thy ===== *)
theory Db_Contracts
  imports Db_Transactions
begin

text \<open>
  The table of contracts (\<open>crates/db/src/queries/contracts.rs\<close>), the events of a block
  (\<open>queries/events.rs\<close>), the clearing of a network (\<open>lib.rs\<close>), and the receiver of the bus (\<open>init.rs\<close>).
  An ABI is kept as its text; reading it is a parameter.
\<close>

section \<open>Contracts\<close>

text \<open>\<open>r.dedup_id\<close> of a listed contract is the caller's.\<close>

record contract =
  ct_chain_id :: u64
  ct_dedup_id :: u32
  ct_name :: "string option"
  ct_address :: address
  ct_proxy_for :: "address option"
  ct_proxied_by :: "address option"

text \<open>The commands give the dedup id as an \<open>i32\<close>; SQLite compares the integers.\<close>

definition dedup_key :: "u32 \<Rightarrow> u64" where
  "dedup_key i = scast i"

definition get_contracts :: "u64 \<Rightarrow> u32 \<Rightarrow> db \<Rightarrow> contract list" where
  "get_contracts chain dedup d =
    map (\<lambda>((a, _, _), r). \<lparr>ct_chain_id = chain, ct_dedup_id = dedup, ct_name = cr_name r, ct_address = a,
        ct_proxy_for = cr_proxy_for r, ct_proxied_by = cr_proxied_by r\<rparr>)
      (filter (\<lambda>((_, c, i), _). c = chain \<and> i = dedup_key dedup) (db_contracts d))"

definition get_contract :: "(string \<Rightarrow> 'abi) \<Rightarrow> u64 \<Rightarrow> u32 \<Rightarrow> address \<Rightarrow> db \<Rightarrow> db_error + ('abi \<times> string option) option" where
  "get_contract read_abi chain dedup a d =
    map_sum id (\<lambda>r. map_option (\<lambda>abi. (read_abi abi, cr_name r)) (cr_abi r))
      (ok_or RowNotFound (hm_get (db_contracts d) (a, chain, dedup_key dedup)))"

text \<open>The first row of the address on the chain, of whatever network.\<close>

definition get_contract_abi :: "(string \<Rightarrow> 'abi) \<Rightarrow> u64 \<Rightarrow> address \<Rightarrow> db \<Rightarrow> db_error + 'abi" where
  "get_contract_abi read_abi chain a d =
    (case List.find (\<lambda>((b, c, _), _). b = a \<and> c = chain) (db_contracts d) of
      None \<Rightarrow> Inl RowNotFound
    | Some (_, r) \<Rightarrow> map_sum id read_abi (ok_or DbNotFound (cr_abi r)))"

text \<open>Follows the proxies; the chain is passed on and not looked at. It may never end.\<close>

partial_function (option) get_contract_impl_abi :: "(string \<Rightarrow> 'abi) \<Rightarrow> u64 \<Rightarrow> address \<Rightarrow> db \<Rightarrow> (db_error + 'abi) option" where
  "get_contract_impl_abi read_abi chain a d =
    (case List.find (\<lambda>((b, _, _), _). b = a) (db_contracts d) of
      None \<Rightarrow> Some (Inl RowNotFound)
    | Some (_, r) \<Rightarrow>
        (case cr_proxy_for r of
          Some p \<Rightarrow> get_contract_impl_abi read_abi chain p d
        | None \<Rightarrow> Some (map_sum id read_abi (ok_or DbNotFound (cr_abi r)))))"

declare get_contract_impl_abi.simps [code]

definition put_contract :: "address \<times> u64 \<times> u64 \<Rightarrow> contract_row \<Rightarrow> (contract_row \<Rightarrow> contract_row) \<Rightarrow> db \<Rightarrow> db" where
  "put_contract k new upd d =
    d\<lparr>db_contracts := hm_insert k (case hm_get (db_contracts d) k of None \<Rightarrow> new | Some r \<Rightarrow> upd r) (db_contracts d)\<rparr>"

text \<open>On a conflict the name, ABI and code are set, the implementation is not.\<close>

definition insert_contract_with_abi ::
    "network_id \<Rightarrow> address \<Rightarrow> bytes option \<Rightarrow> string option \<Rightarrow> string option \<Rightarrow> address option \<Rightarrow> db \<Rightarrow> db" where
  "insert_contract_with_abi i a code abi name proxy_for d =
    (let d1 = put_contract (a, id_chain_id i, id_dedup_id i)
          \<lparr>cr_abi = abi, cr_name = name, cr_proxy_for = proxy_for, cr_proxied_by = None, cr_code = code\<rparr>
          (\<lambda>r. r\<lparr>cr_name := name, cr_abi := abi, cr_code := code\<rparr>) d in
      case proxy_for of
        None \<Rightarrow> d1
      | Some p \<Rightarrow> put_contract (p, id_chain_id i, id_dedup_id i)
          \<lparr>cr_abi = None, cr_name = None, cr_proxy_for = None, cr_proxied_by = Some a, cr_code = None\<rparr>
          (\<lambda>r. r\<lparr>cr_proxied_by := Some a\<rparr>) d1)"

definition get_incomplete_contracts :: "db \<Rightarrow> ((u64 \<times> u64) \<times> address \<times> bytes option) list" where
  "get_incomplete_contracts d =
    map (\<lambda>((a, c, i), r). ((c, i), a, cr_code r)) (filter (\<lambda>(_, r). cr_name r = None \<or> cr_abi r = None) (db_contracts d))"

definition remove_contracts :: "u64 \<Rightarrow> u64 \<Rightarrow> db \<Rightarrow> db" where
  "remove_contracts chain dedup d = d\<lparr>db_contracts := hm_retain (\<lambda>(_, c, i) _. \<not> (c = chain \<and> i = dedup)) (db_contracts d)\<rparr>"

definition remove_contract :: "u64 \<Rightarrow> u32 \<Rightarrow> address \<Rightarrow> db \<Rightarrow> db" where
  "remove_contract chain dedup a d = d\<lparr>db_contracts := hm_remove (a, chain, dedup_key dedup) (db_contracts d)\<rparr>"

definition get_proxy :: "u64 \<Rightarrow> u32 \<Rightarrow> address \<Rightarrow> db \<Rightarrow> address option" where
  "get_proxy chain dedup a d = Option.bind (hm_get (db_contracts d) (a, chain, dedup_key dedup)) cr_proxy_for"

definition get_contract_addresses :: "u64 \<Rightarrow> u64 \<Rightarrow> db \<Rightarrow> address list" where
  "get_contract_addresses chain dedup d =
    remdups (map (\<lambda>((a, _, _), _). a) (filter (\<lambda>((_, c, i), _). c = chain \<and> i = dedup) (db_contracts d)))"

section \<open>Events\<close>

record contract_deployed =
  cd_address :: address
  cd_code :: "bytes option"
  cd_block_number :: "u64 option"
  cd_proxy_for :: "address option"

record erc20_transfer =
  et_from :: address
  et_to :: address
  et_value :: u256
  et_contract :: address
  et_block_number :: u64

datatype event = TxEvent tx | ContractDeployed contract_deployed | ERC20Transfer erc20_transfer

text \<open>The first event that fails ends the loop.\<close>

definition save_event :: "network_id \<Rightarrow> event \<Rightarrow> unit db_handler" where
  "save_event i e d =
    (case e of
      TxEvent t \<Rightarrow> (Inr (), insert_transaction (id_chain_id i) t d)
    | ContractDeployed c \<Rightarrow> (Inr (), insert_contract_with_abi i (cd_address c) (cd_code c) None None (cd_proxy_for c) d)
    | ERC20Transfer t \<Rightarrow> process_erc20_transfer (id_chain_id i) (et_contract t) (et_from t) (et_to t) (et_value t) d)"

definition save_events :: "network_id \<Rightarrow> event list \<Rightarrow> unit db_handler" where
  "save_events i es = run_seq (map (save_event i) es)"

section \<open>Clearing\<close>

text \<open>The transactions, balances and metadata of the chain, but only the network's own contracts.\<close>

definition truncate_events :: "network_id \<Rightarrow> db \<Rightarrow> db" where
  "truncate_events i d = (remove_contracts (id_chain_id i) (id_dedup_id i) (remove_transactions (id_chain_id i) d))\<lparr>
    db_balances := hm_retain (\<lambda>(_, _, c) _. c \<noteq> id_chain_id i) (db_balances d),
    db_metadata := hm_retain (\<lambda>(_, c) _. c \<noteq> id_chain_id i) (db_metadata d)\<rparr>"

definition db_receiver :: "internal_msg \<Rightarrow> db \<Rightarrow> db" where
  "db_receiver m d =
    (case m of
      NetworkRemoved n \<Rightarrow> remove_transactions (chain_id n) (remove_contracts (chain_id n) (dedup_id n) d)
    | _ \<Rightarrow> d)"

section \<open>Following proxies\<close>

text \<open>The row a lookup without a chain finds.\<close>

definition first_row :: "address \<Rightarrow> db \<Rightarrow> contract_row option" where
  "first_row a d = map_option snd (List.find (\<lambda>((b, _, _), _). b = a) (db_contracts d))"

lemma get_contract_impl_abi_step:
  "get_contract_impl_abi read_abi chain a d =
    (case first_row a d of
      None \<Rightarrow> Some (Inl RowNotFound)
    | Some r \<Rightarrow>
        (case cr_proxy_for r of
          Some p \<Rightarrow> get_contract_impl_abi read_abi chain p d
        | None \<Rightarrow> Some (map_sum id read_abi (ok_or DbNotFound (cr_abi r)))))"
  by (subst get_contract_impl_abi.simps) (simp add: first_row_def split: option.splits)

text \<open>The search for the ABI of an implementation returns when the proxies do not go in a circle:
  when a rank falls from each proxy to what it stands for.\<close>

theorem impl_abi_ends:
  assumes "\<forall>a r p. first_row a d = Some r \<longrightarrow> cr_proxy_for r = Some p \<longrightarrow> (rank :: address \<Rightarrow> nat) p < rank a"
  shows "\<exists>res. get_contract_impl_abi read_abi chain a d = Some res"
  using assms
proof (induction a rule: measure_induct_rule [of rank])
  case (less a)
  show ?case
  proof (cases "first_row a d")
    case (Some r)
    then show ?thesis
      using less by (subst get_contract_impl_abi_step) (auto split: option.splits)
  qed (simp add: get_contract_impl_abi_step)
qed

definition toy_proxies :: db where
  "toy_proxies = insert_contract_with_abi \<lparr>id_chain_id = 31337, id_dedup_id = 0\<rparr> 9 None (Some ''abi'') None None
    (insert_contract_with_abi \<lparr>id_chain_id = 1, id_dedup_id = 0\<rparr> 8 None None None (Some 9) empty_db)"

lemmas toy_proxies_defs = toy_proxies_def insert_contract_with_abi_def put_contract_def empty_db_def Let_def

theorem impl_abi_ends_witness:
  "\<exists>res. get_contract_impl_abi id 1 8 toy_proxies = Some res"
  by (rule impl_abi_ends [of _ "\<lambda>a. if a = 8 then 1 else 0"])
    (simp add: toy_proxies_defs first_row_def split: if_splits)

text \<open>It does not return where they do, and it takes the rows of any chain: a proxy of one chain can be
  followed to a contract of another.\<close>

lemma circle_never_ends:
  assumes "get_contract_impl_abi read_abi chain a d = Some y" "a \<in> S"
    and "\<forall>x \<in> S. \<exists>r p. first_row x d = Some r \<and> cr_proxy_for r = Some p \<and> p \<in> S"
  shows False
  using assms
proof (induction rule: get_contract_impl_abi.raw_induct [rotated, consumes 1, case_names call])
  case (call rec read_abi chain a d y)
  then obtain r p where r: "first_row a d = Some r" "cr_proxy_for r = Some p" "p \<in> S" by blast
  with call(2) have "rec read_abi chain p d = Some y"
    by (auto simp: first_row_def split: option.splits)
  with call(1) r(3) call(4) show False by blast
qed

lemma impl_abi_any_chain: "get_contract_impl_abi read_abi chain a d = Some y \<Longrightarrow> get_contract_impl_abi read_abi chain' a d = Some y"
proof (induction rule: get_contract_impl_abi.raw_induct [rotated, consumes 1, case_names call])
  case (call rec read_abi chain a d y)
  from call(2) show ?case
    by (subst get_contract_impl_abi_step) (auto simp: first_row_def intro: call(1) split: option.splits)
qed

text \<open>An implementation that is seen before its own proxy target is learnt keeps none.\<close>

lemma late_proxy_lost:
  assumes "hm_get (db_contracts d) (a, id_chain_id i, id_dedup_id i) = Some r" "a \<noteq> p"
  shows "\<exists>s. hm_get (db_contracts (insert_contract_with_abi i a code abi name (Some p) d)) (a, id_chain_id i, id_dedup_id i) = Some s
    \<and> cr_proxy_for s = cr_proxy_for r"
  using assms by (simp add: insert_contract_with_abi_def put_contract_def Let_def)

section \<open>Events in order\<close>

lemma run_seq_failure:
  assumes "run_seq ms s = (r, s')"
  shows "r = Inr () \<or> (\<exists>pre m post e s1. ms = pre @ m # post \<and> run_seq pre s = (Inr (), s1) \<and> m s1 = (Inl e, s') \<and> r = Inl e)"
  using assms
proof (induction ms arbitrary: s)
  case (Cons m ms)
  obtain q s1 where m: "m s = (q, s1)" by (cases "m s")
  show ?case
  proof (cases q)
    case (Inl e)
    with m Cons.prems show ?thesis
      by (intro disjI2 exI [of _ "[]"] exI [of _ m] exI [of _ ms]) auto
  next
    case (Inr u)
    with m Cons.prems have "run_seq ms s1 = (r, s')" by simp
    from Cons.IH [OF this] show ?thesis
    proof (elim disjE exE conjE)
      fix pre n post e s2
      assume "ms = pre @ n # post" "run_seq pre s1 = (Inr (), s2)" "n s2 = (Inl e, s')" "r = Inl e"
      with m Inr show ?thesis by (intro disjI2 exI [of _ "m # pre"] exI [of _ n] exI [of _ post]) auto
    qed simp
  qed
qed simp

lemma save_event_fails:
  assumes "save_event i e d = (Inl x, d')"
  shows "d' = d \<and> x = RowNotFound \<and> (\<exists>t. e = ERC20Transfer t \<and> et_from t \<noteq> 0
    \<and> \<not> is_ok (read_erc20_balance (id_chain_id i) (et_contract t) (et_from t) d))"
proof (cases e)
  case (ERC20Transfer t)
  with assms show ?thesis
    by (auto simp: save_event_def process_erc20_transfer_def read_erc20_balance_def ok_or_def split: option.splits if_splits)
qed (use assms in \<open>simp_all add: save_event_def\<close>)

text \<open>The events of a block are saved in order, and all of them, unless one is a transfer of a token
  from an account whose balance was never recorded: then those before it are saved, and it and all
  the events after it are dropped.\<close>

theorem events_until_unknown_sender:
  assumes "save_events i es d = (r, d')"
  shows "r = Inr () \<or> (\<exists>pre t post. es = pre @ ERC20Transfer t # post \<and> save_events i pre d = (Inr (), d')
    \<and> r = Inl RowNotFound \<and> et_from t \<noteq> 0
    \<and> \<not> is_ok (read_erc20_balance (id_chain_id i) (et_contract t) (et_from t) d'))"
proof -
  have "r = Inr () \<or> (\<exists>pre m post e d1. map (save_event i) es = pre @ m # post \<and> run_seq pre d = (Inr (), d1)
      \<and> m d1 = (Inl e, d') \<and> r = Inl e)"
    using run_seq_failure [of "map (save_event i) es" d r d'] assms by (simp add: save_events_def)
  then show ?thesis
  proof (elim disjE exE conjE)
    fix pre m post e d1
    assume "map (save_event i) es = pre @ m # post" and run: "run_seq pre d = (Inr (), d1)" and m: "m d1 = (Inl e, d')" and r: "r = Inl e"
    then obtain us x vs where es: "es = us @ x # vs" "pre = map (save_event i) us" "m = save_event i x"
      by (auto simp: map_eq_append_conv map_eq_Cons_conv)
    from save_event_fails [of i x d1 e d'] m es(3) obtain t where "d' = d1" "e = RowNotFound" "x = ERC20Transfer t" "et_from t \<noteq> 0"
      "\<not> is_ok (read_erc20_balance (id_chain_id i) (et_contract t) (et_from t) d1)" by auto
    with run es r show ?thesis unfolding save_events_def by blast
  qed simp
qed

definition toy_transfer :: erc20_transfer where
  "toy_transfer = \<lparr>et_from = 5, et_to = 6, et_value = 1, et_contract = 7, et_block_number = 1\<rparr>"

theorem events_until_unknown_sender_witness:
  "\<exists>r d' pre post. save_events \<lparr>id_chain_id = 1, id_dedup_id = 0\<rparr> [ERC20Transfer toy_transfer, TxEvent (toy_transaction 10 3)] empty_db = (r, d')
    \<and> save_events \<lparr>id_chain_id = 1, id_dedup_id = 0\<rparr> pre empty_db = (Inr (), d')
    \<and> [ERC20Transfer toy_transfer, TxEvent (toy_transaction 10 3)] = pre @ ERC20Transfer toy_transfer # post"
proof -
  let ?i = "\<lparr>id_chain_id = 1, id_dedup_id = 0\<rparr> :: network_id"
  obtain r d' where run: "save_events ?i [ERC20Transfer toy_transfer, TxEvent (toy_transaction 10 3)] empty_db = (r, d')" by fastforce
  have "process_erc20_transfer 1 7 5 6 1 empty_db = (Inl RowNotFound, empty_db)"
    by (simp add: process_erc20_transfer_def read_erc20_balance_def empty_db_def)
  with run have "r = Inl RowNotFound" by (simp add: save_events_def save_event_def toy_transfer_def)
  with events_until_unknown_sender [OF run] run show ?thesis by (auto simp: Cons_eq_append_conv)
qed

section \<open>Networks of one chain\<close>

text \<open>Removing a network removes its own contracts and no other network's, but the transactions of
  every network of its chain.\<close>

lemma removed_network_rows:
  assumes "hm_ok (db_contracts d)"
  shows "hm_get (db_contracts (db_receiver (NetworkRemoved n) d)) (a, c, i)
      = (if c = chain_id n \<and> i = dedup_id n then None else hm_get (db_contracts d) (a, c, i))"
    and "db_txs (db_receiver (NetworkRemoved n) d) = filter (\<lambda>(c, _). c \<noteq> chain_id n) (db_txs d)"
  using assms
  by (auto simp: db_receiver_def remove_contracts_def remove_transactions_def hm_get_retain split: option.splits)

lemma truncated_network_rows:
  assumes "hm_ok (db_contracts d)" "hm_ok (db_balances d)"
  shows "hm_get (db_contracts (truncate_events j d)) (a, c, i)
      = (if c = id_chain_id j \<and> i = id_dedup_id j then None else hm_get (db_contracts d) (a, c, i))"
    and "erc20_of c t a (truncate_events j d) = (if c = id_chain_id j then 0 else erc20_of c t a d)"
  using assms
  by (auto simp: truncate_events_def remove_contracts_def remove_transactions_def erc20_of_def read_erc20_balance_def ok_or_def
      hm_get_retain split: option.splits)

end
