(* ===== verification/Alchemy.thy ===== *)
theory Alchemy
  imports Db_Contracts Settings
begin

text \<open>
  Fetching from Alchemy (\<open>crates/sync/alchemy\<close>): the chains it serves, the client, and what a poll of one
  account on one chain writes to the database. The answers of the service are the fields of an
  \<open>alchemy_env\<close>.
\<close>

section \<open>Chains and keys\<close>

definition NETWORKS :: "(u64, string \<times> u64) hmap" where
  "NETWORKS =
    [(1, ''https://eth-mainnet.g.alchemy.com'', 15537393), (11155111, ''https://eth-sepolia.g.alchemy.com'', 3000000),
     (137, ''https://polygon-mainnet.g.alchemy.com'', 42170000), (80002, ''https://polygon-amoy.g.alchemy.com'', 1),
     (42161, ''https://arb-mainnet.g.alchemy.com'', 86100000), (421614, ''https://arb-sepolia.g.alchemy.com'', 1),
     (10, ''https://opt-mainnet.g.alchemy.com'', 95610000), (11155420, ''https://opt-sepolia.g.alchemy.com'', 1),
     (8453, ''https://base-mainnet.g.alchemy.com'', 1), (84532, ''https://base-sepolia.g.alchemy.com'', 1),
     (324, ''https://zksync-mainnet.g.alchemy.com'', 1), (300, ''https://zksync-sepolia.g.alchemy.com'', 1),
     (534352, ''https://scroll-mainnet.g.alchemy.com'', 1), (534351, ''https://scroll-sepolia.g.alchemy.com'', 1),
     (43114, ''https://avax-mainnet.g.alchemy.com'', 1)]"

definition supports_network :: "u64 \<Rightarrow> bool" where
  "supports_network chain = hm_contains NETWORKS chain"

definition default_from_block :: "u64 \<Rightarrow> u64" where
  "default_from_block chain = (case hm_get NETWORKS chain of None \<Rightarrow> 0 | Some (_, b) \<Rightarrow> b)"

text \<open>\<open>join\<close> is that of the URL library; the text of an error does not matter.\<close>

definition get_endpoint :: "(string \<Rightarrow> string \<Rightarrow> string option) \<Rightarrow> u64 \<Rightarrow> string \<Rightarrow> string \<Rightarrow> string option" where
  "get_endpoint join chain path key =
    (case hm_get NETWORKS chain of
      None \<Rightarrow> None
    | Some (base, _) \<Rightarrow> Option.bind (join base path) (\<lambda>u. join u key))"

definition get_current_api_key :: "settings_actor \<Rightarrow> string option" where
  "get_current_api_key s = (case alchemy_api_key (get_all s) of None \<Rightarrow> None | Some k \<Rightarrow> if k = [] then None else Some k)"

section \<open>The client\<close>

record asset_transfer =
  as_block_num :: u64
  as_hash :: b256
  as_from :: address
  as_to :: "address option"
  as_asset :: "string option"
  as_contract :: "address option"
  as_decimal :: "u64 option"

datatype direction = FromAddr address | ToAddr address

record alchemy_env =
  ae_join :: "string \<Rightarrow> string \<Rightarrow> string option"
  ae_block_number :: "string + u64"
  ae_transfers :: "direction \<Rightarrow> u64 \<Rightarrow> u64 \<Rightarrow> string + asset_transfer list"
  ae_native_balance :: "address \<Rightarrow> string + u256"
  ae_erc20_balances :: "address \<Rightarrow> string + (address \<times> u256) list"
  ae_show :: "address \<Rightarrow> string"

datatype sync_error = FetchFailed string | SyncDb db_error | SyncPanic | NoApiKey | NoClient

definition tx_of_transfer :: "asset_transfer \<Rightarrow> tx" where
  "tx_of_transfer a = \<lparr>tx_hash = as_hash a, tx_trace_address = None, tx_from = as_from a, tx_to = as_to a,
    tx_block_number = Some (as_block_num a), tx_value = None, tx_data = None, tx_position = None, tx_status = 1,
    tx_deployed_contract = None, tx_gas_limit = None, tx_gas_used = None, tx_max_fee_per_gas = None,
    tx_max_priority_fee_per_gas = None, tx_nonce = None, tx_type = None, tx_incomplete = True\<rparr>"

text \<open>The decimals go through 32 bits, where a larger number is a panic, to 8.\<close>

definition metadata_of_transfer :: "asset_transfer \<Rightarrow> sync_error + token_metadata option" where
  "metadata_of_transfer a =
    (case (as_contract a, as_asset a) of
      (Some c, Some s) \<Rightarrow>
        (if (case as_decimal a of None \<Rightarrow> False | Some n \<Rightarrow> 2 ^ 32 \<le> unat n) then Inl SyncPanic
         else Inr (Some \<lparr>tm_address = c, tm_name = None, tm_symbol = Some s,
           tm_decimals = map_option ucast (as_decimal a)\<rparr>))
    | _ \<Rightarrow> Inr None)"

fun metadatas_of_transfers :: "asset_transfer list \<Rightarrow> sync_error + token_metadata list" where
  "metadatas_of_transfers [] = Inr []"
| "metadatas_of_transfers (a # as) =
    (case metadata_of_transfer a of
      Inl e \<Rightarrow> Inl e
    | Inr m \<Rightarrow> map_sum id (\<lambda>ms. (case m of None \<Rightarrow> ms | Some x \<Rightarrow> x # ms)) (metadatas_of_transfers as))"

definition get_asset_transfers :: "alchemy_env \<Rightarrow> direction \<Rightarrow> u64 \<Rightarrow> u64 \<Rightarrow> sync_error + (tx list \<times> token_metadata list)" where
  "get_asset_transfers env dir from_block latest =
    (case ae_transfers env dir from_block latest of
      Inl e \<Rightarrow> Inl (FetchFailed e)
    | Inr as \<Rightarrow> map_sum id (\<lambda>ms. (map tx_of_transfer as, ms)) (metadatas_of_transfers as))"

section \<open>A poll\<close>

definition kv_transactions_key :: "alchemy_env \<Rightarrow> u64 \<times> address \<Rightarrow> string" where
  "kv_transactions_key env = (\<lambda>(chain, a). ''['' @ show_dec (unat chain) @ '','' @ [CHR 0x22] @ ''transactions'' @ [CHR 0x22]
    @ '','' @ [CHR 0x22] @ ae_show env a @ [CHR 0x22] @ '']'')"

definition read_u64 :: "string \<Rightarrow> u64 option" where
  "read_u64 s = from_str_radix s 10"

definition show_u64 :: "u64 \<Rightarrow> string" where
  "show_u64 w = show_dec (unat w)"

definition last_block :: "tx list \<Rightarrow> u64" where
  "last_block ts = fold (\<lambda>t m. max m (case tx_block_number t of None \<Rightarrow> 0 | Some b \<Rightarrow> b)) ts 0"

type_synonym sync_handler = "(db, sync_error, unit) handler"

definition fetch_transfers :: "alchemy_env \<Rightarrow> u64 \<Rightarrow> address \<Rightarrow> sync_handler" where
  "fetch_transfers env chain a d =
    (case kv_get (kv_transactions_key env) read_u64 (chain, a) d of
      Inl e \<Rightarrow> (Inl (SyncDb e), d)
    | Inr last_tip \<Rightarrow>
        (let from_block = (case last_tip of None \<Rightarrow> default_from_block chain | Some t \<Rightarrow> t) in
          case ae_block_number env of
            Inl e \<Rightarrow> (Inl (FetchFailed e), d)
          | Inr latest \<Rightarrow>
              if saturating_sub from_block 1 = latest then (Inr (), d)
              else
                (case get_asset_transfers env (FromAddr a) from_block latest of
                  Inl e \<Rightarrow> (Inl e, d)
                | Inr (inc_txs, inc_ms) \<Rightarrow>
                    (case get_asset_transfers env (ToAddr a) from_block latest of
                      Inl e \<Rightarrow> (Inl e, d)
                    | Inr (out_txs, out_ms) \<Rightarrow>
                        (let tip = last_block (out_txs @ inc_txs);
                             d1 = save_erc20_metadatas chain out_ms (save_erc20_metadatas chain inc_ms
                               (insert_transactions chain out_txs (insert_transactions chain inc_txs d))) in
                          (Inr (), if 0 < tip then kv_set (kv_transactions_key env) show_u64 (chain, a) tip d1 else d1))))))"

definition fetch_native_balances :: "alchemy_env \<Rightarrow> u64 \<Rightarrow> address \<Rightarrow> sync_handler" where
  "fetch_native_balances env chain a d =
    (case ae_native_balance env a of
      Inl e \<Rightarrow> (Inl (FetchFailed e), d)
    | Inr b \<Rightarrow> (Inr (), save_native_balance b chain a d))"

definition fetch_erc20_balances :: "alchemy_env \<Rightarrow> u64 \<Rightarrow> address \<Rightarrow> sync_handler" where
  "fetch_erc20_balances env chain a d =
    (case ae_erc20_balances env a of
      Inl e \<Rightarrow> (Inl (FetchFailed e), d)
    | Inr bs \<Rightarrow> (Inr (), save_erc20_balances chain a bs d))"

definition fetch_updates :: "alchemy_env \<Rightarrow> u64 \<Rightarrow> address \<Rightarrow> sync_handler" where
  "fetch_updates env chain a =
    run_seq [fetch_native_balances env chain a, fetch_erc20_balances env chain a, fetch_transfers env chain a]"

text \<open>\<open>Alchemy::new\<close> needs both endpoints.\<close>

definition alchemy_new :: "alchemy_env \<Rightarrow> string \<Rightarrow> u64 \<Rightarrow> bool" where
  "alchemy_new env key chain =
    (get_endpoint (ae_join env) chain ''v2/'' key \<noteq> None \<and> get_endpoint (ae_join env) chain ''nft/v3/'' key \<noteq> None)"

text \<open>\<open>unwrap\<close> on a client that cannot be made is a panic.\<close>

definition get_alchemy :: "alchemy_env \<Rightarrow> u64 \<Rightarrow> settings_actor \<Rightarrow> sync_error + unit" where
  "get_alchemy env chain s =
    (case get_current_api_key s of
      None \<Rightarrow> Inl NoApiKey
    | Some k \<Rightarrow> if alchemy_new env k chain then Inr () else Inl SyncPanic)"

section \<open>What a poll does\<close>

lemma insert_untraced:
  assumes "\<forall>t \<in> set ts. tx_trace_address t = None"
  shows "insert_transactions chain ts d = d\<lparr>db_txs := db_txs d @ map (\<lambda>t. (chain, stored_tx t)) ts\<rparr>"
  using assms
proof (induction ts arbitrary: d)
  case (Cons t ts)
  have "insert_transaction chain t d = d\<lparr>db_txs := db_txs d @ [(chain, stored_tx t)]\<rparr>"
    using Cons.prems by (simp add: insert_transaction_def tx_conflicts_def list_ex_iff)
  then show ?case using Cons by simp
qed simp

lemma save_metadatas_only:
  "\<exists>m. save_erc20_metadatas chain ms d = d\<lparr>db_metadata := m\<rparr>"
proof (induction ms arbitrary: d)
  case (Cons x ms)
  from Cons [of "save_erc20_metadata chain x d"] show ?case by (auto simp: save_erc20_metadata_def)
next
  case Nil
  show ?case by (rule exI [of _ "db_metadata d"]) simp
qed

lemma read_show_u64 [simp]: "read_u64 (show_u64 w) = Some w"
  unfolding read_u64_def show_u64_def show_dec_def using unsigned_less [of w]
  by (subst from_str_radix_show) simp_all

definition poll_start :: "alchemy_env \<Rightarrow> u64 \<Rightarrow> address \<Rightarrow> db \<Rightarrow> u64 option" where
  "poll_start env chain a d =
    (case kv_get (kv_transactions_key env) read_u64 (chain, a) d of
      Inl e \<Rightarrow> None
    | Inr None \<Rightarrow> Some (default_from_block chain)
    | Inr (Some t) \<Rightarrow> Some t)"

lemma poll_start_set [simp]:
  "poll_start env chain a (kv_set (kv_transactions_key env) show_u64 (chain, a) tip d) = Some tip"
  by (simp add: poll_start_def kv_get_def kv_set_def)

lemma poll_start_kv: "db_kv d = db_kv d' \<Longrightarrow> poll_start env chain a d = poll_start env chain a d'"
  by (simp add: poll_start_def kv_get_def)

text \<open>A poll that succeeds adds a row for every transfer Alchemy lists in either direction, whether or
  not the row is there already, and the next poll starts at the largest block of all of them.\<close>

theorem poll_outcome:
  assumes "fetch_transfers env chain a d = (Inr (), d')" "poll_start env chain a d = Some b"
    and "ae_block_number env = Inr latest" "saturating_sub b 1 \<noteq> latest"
    and "ae_transfers env (FromAddr a) b latest = Inr outgoing" "ae_transfers env (ToAddr a) b latest = Inr incoming"
  shows "db_txs d' = db_txs d @ map (\<lambda>x. (chain, stored_tx (tx_of_transfer x))) (outgoing @ incoming)
    \<and> poll_start env chain a d' = (let tip = last_block (map tx_of_transfer (incoming @ outgoing)) in Some (if 0 < tip then tip else b))"
proof -
  obtain last_tip where kv: "kv_get (kv_transactions_key env) read_u64 (chain, a) d = Inr last_tip"
    "b = (case last_tip of None \<Rightarrow> default_from_block chain | Some t \<Rightarrow> t)"
    using assms(2) by (auto simp: poll_start_def split: sum.splits option.splits)
  obtain out_ms in_ms where ms: "metadatas_of_transfers outgoing = Inr out_ms" "metadatas_of_transfers incoming = Inr in_ms"
    using assms(1,3-6) kv
    by (cases "metadatas_of_transfers outgoing"; cases "metadatas_of_transfers incoming")
      (simp_all add: fetch_transfers_def get_asset_transfers_def)
  let ?tip = "last_block (map tx_of_transfer incoming @ map tx_of_transfer outgoing)"
  let ?ins = "insert_transactions chain (map tx_of_transfer incoming) (insert_transactions chain (map tx_of_transfer outgoing) d)"
  let ?d1 = "save_erc20_metadatas chain in_ms (save_erc20_metadatas chain out_ms ?ins)"
  have d': "d' = (if 0 < ?tip then kv_set (kv_transactions_key env) show_u64 (chain, a) ?tip ?d1 else ?d1)"
    using assms(1,3-6) kv ms by (simp add: fetch_transfers_def get_asset_transfers_def Let_def split: if_splits)
  have ins: "?ins = d\<lparr>db_txs := db_txs d @ map (\<lambda>x. (chain, stored_tx (tx_of_transfer x))) (outgoing @ incoming)\<rparr>"
    by (simp add: insert_untraced tx_of_transfer_def)
  obtain m where d1: "?d1 = ?ins\<lparr>db_metadata := m\<rparr>"
  proof -
    obtain m1 where m1: "save_erc20_metadatas chain out_ms ?ins = ?ins\<lparr>db_metadata := m1\<rparr>"
      using save_metadatas_only by blast
    obtain m2 where "save_erc20_metadatas chain in_ms (?ins\<lparr>db_metadata := m1\<rparr>) = ?ins\<lparr>db_metadata := m1\<rparr>\<lparr>db_metadata := m2\<rparr>"
      using save_metadatas_only by blast
    with m1 that [of m2] show thesis by simp
  qed
  have kv: "db_kv ?d1 = db_kv d" and txs: "db_txs ?d1 = db_txs d @ map (\<lambda>x. (chain, stored_tx (tx_of_transfer x))) (outgoing @ incoming)"
    unfolding d1 unfolding ins by simp_all
  have "db_txs d' = db_txs ?d1" by (simp add: d' kv_set_def)
  moreover have "poll_start env chain a ?d1 = Some b" using assms(2) poll_start_kv [OF kv] by simp
  ultimately show ?thesis using txs by (simp add: d' Let_def)
qed

definition toy_alchemy :: alchemy_env where
  "toy_alchemy = \<lparr>ae_join = (\<lambda>u p. Some (u @ p)), ae_block_number = Inr 20000000,
    ae_transfers = (\<lambda>dir _ _. Inr (case dir of FromAddr _ \<Rightarrow> [\<lparr>as_block_num = 16000000, as_hash = 3, as_from = 5, as_to = Some 6,
      as_asset = None, as_contract = None, as_decimal = None\<rparr>] | ToAddr _ \<Rightarrow> [])),
    ae_native_balance = (\<lambda>_. Inr 0), ae_erc20_balances = (\<lambda>_. Inr []), ae_show = (\<lambda>_. [])\<rparr>"

text \<open>Polling twice while nothing happens lists the last block again.\<close>

theorem poll_outcome_witness:
  "\<exists>d1 d2. fetch_transfers toy_alchemy 1 5 empty_db = (Inr (), d1) \<and> fetch_transfers toy_alchemy 1 5 d1 = (Inr (), d2)
    \<and> length (db_txs d1) = 1 \<and> length (db_txs d2) = 2"
proof -
  have ok: "\<exists>d'. fetch_transfers toy_alchemy 1 5 d = (Inr (), d')" if "poll_start toy_alchemy 1 5 d = Some b" for d b
    using that by (auto simp: fetch_transfers_def poll_start_def get_asset_transfers_def toy_alchemy_def metadata_of_transfer_def Let_def
        split: sum.splits option.splits)
  have s0: "poll_start toy_alchemy 1 5 empty_db = Some 15537393"
    by (simp add: poll_start_def kv_get_def empty_db_def default_from_block_def NETWORKS_def)
  then obtain d1 where d1: "fetch_transfers toy_alchemy 1 5 empty_db = (Inr (), d1)" using ok by blast
  have one: "length (db_txs d1) = 1 \<and> poll_start toy_alchemy 1 5 d1 = Some 16000000"
    using poll_outcome [OF d1 s0, of 20000000] s0
    by (simp add: toy_alchemy_def saturating_sub_def last_block_def tx_of_transfer_def empty_db_def)
  then obtain d2 where d2: "fetch_transfers toy_alchemy 1 5 d1 = (Inr (), d2)" using ok by blast
  have "length (db_txs d2) = 2"
    using poll_outcome [OF d2, of 16000000 20000000] one by (simp add: toy_alchemy_def saturating_sub_def)
  with d1 d2 one show ?thesis by blast
qed

end
