(* ===== verification/Rpc_Tokens.thy ===== *)
theory Rpc_Tokens
  imports Rpc_Chains Db_Nfts Alchemy
begin

text \<open>
  \<open>wallet_watchAsset\<close> (\<open>crates/rpc/src/methods/token_add.rs\<close>): a site asks for a token to be listed.
  The token is looked up at Alchemy, checked, shown in a dialog, and saved when the user accepts.
  The state of a request is the program's and the database.
\<close>

section \<open>Parameters\<close>

record erc20_options =
  eo_address :: address
  eo_chain_id :: "u64 option"
  eo_name :: "string option"
  eo_symbol :: "string option"
  eo_decimals :: "u8 option"

text \<open>\<open>ERC721Options\<close> and \<open>ERC1155Options\<close> have the same fields.\<close>

record nft_options =
  no_address :: address
  no_chain_id :: "u64 option"
  no_token_id :: u256

datatype token_add = AddERC20 erc20_options | AddERC721 nft_options | AddERC1155 nft_options

fun token_chain_id :: "token_add \<Rightarrow> u64 option" where
  "token_chain_id (AddERC20 opts) = eo_chain_id opts"
| "token_chain_id (AddERC721 opts) = no_chain_id opts"
| "token_chain_id (AddERC1155 opts) = no_chain_id opts"

fun token_type :: "token_add \<Rightarrow> string" where
  "token_type (AddERC20 _) = ''ERC20''"
| "token_type (AddERC721 _) = ''ERC721''"
| "token_type (AddERC1155 _) = ''ERC1155''"

section \<open>What Alchemy answers\<close>

record erc20_metadata =
  em_decimals :: "u8 option"
  em_logo :: "string option"
  em_name :: "string option"
  em_symbol :: "string option"

record erc_contract =
  ec_address :: address
  ec_name :: string
  ec_symbol :: string
  ec_token_type :: string

record erc_metadata =
  er_contract :: erc_contract
  er_token_id :: u256
  er_image :: string
  er_token_uri :: string
  er_metadata :: json
  er_collection :: "string option option"
  er_balance :: "u256 option"

record erc_owner =
  eow_address :: string
  eow_balances :: "(string \<times> string) list"

text \<open>Deserializers, the three calls to Alchemy, the checksummed text of an address, numbers in text.\<close>

record token_env =
  ke_erc20 :: "json \<Rightarrow> string + erc20_options"
  ke_nft :: "json \<Rightarrow> string + nft_options"
  ke_type_error :: "json \<Rightarrow> string"
  ke_alchemy :: alchemy_env
  ke_erc20_metadata :: "u64 \<Rightarrow> address \<Rightarrow> erc20_metadata option"
  ke_erc_metadata :: "u64 \<Rightarrow> address \<Rightarrow> u256 \<Rightarrow> string \<Rightarrow> erc_metadata option"
  ke_erc_owners :: "u64 \<Rightarrow> address \<Rightarrow> erc_owner list option"
  ke_checksum :: "address \<Rightarrow> string"
  ke_u256 :: "string \<Rightarrow> u256 option"
  ke_erc20_payload :: "token_metadata \<Rightarrow> erc20_metadata \<Rightarrow> json"
  ke_erc_payload :: "erc_metadata \<Rightarrow> json"
  ke_json_text :: "json \<Rightarrow> string"

section \<open>Building\<close>

definition token_options :: "string \<Rightarrow> json \<Rightarrow> rpc_error + json" where
  "token_options type j = ok_or (TypeInvalid (type @ '' type is missing options field'')) (json_member ''options'' j)"

definition token_build :: "token_env \<Rightarrow> json \<Rightarrow> rpc_error + token_add" where
  "token_build ke params =
    (case extract_single_param params of
      None \<Rightarrow> Inl (RpcPanic ''index out of bounds'')
    | Some j \<Rightarrow>
        (case json_member ''type'' j of
          None \<Rightarrow> Inl (TypeInvalid ''Missing type field'')
        | Some type \<Rightarrow>
            (case as_str type of
              None \<Rightarrow> Inl (Serde (ke_type_error ke type))
            | Some t \<Rightarrow>
                if t \<notin> {''ERC20'', ''ERC721'', ''ERC1155''} then Inl (TypeInvalid t)
                else
                  (case token_options t j of
                    Inl e \<Rightarrow> Inl e
                  | Inr opts \<Rightarrow>
                      if t = ''ERC20'' then map_sum Serde AddERC20 (ke_erc20 ke opts)
                      else map_sum Serde (if t = ''ERC721'' then AddERC721 else AddERC1155) (ke_nft ke opts)))))"

section \<open>Lookups\<close>

type_synonym token_state = "rpc_world \<times> db"

text \<open>An error of \<open>get_alchemy\<close> or of the call is a \<open>ParseError\<close>; its panic stays one.\<close>

definition ask_alchemy :: "token_env \<Rightarrow> u64 \<Rightarrow> 'a option \<Rightarrow> rpc_world \<Rightarrow> rpc_error + 'a" where
  "ask_alchemy ke chain answer w =
    (case get_alchemy (ke_alchemy ke) chain (rw_settings w) of
      Inl SyncPanic \<Rightarrow> Inl (RpcPanic ''unsupported chain'')
    | Inl _ \<Rightarrow> Inl ParseError
    | Inr _ \<Rightarrow> ok_or ParseError answer)"

text \<open>\<open>map_err(|_| TokenInvalid)\<close> on a result that may be a panic.\<close>

definition or_token_invalid :: "rpc_error + 'a \<Rightarrow> rpc_error + 'a" where
  "or_token_invalid = map_sum (\<lambda>e. case e of RpcPanic m \<Rightarrow> RpcPanic m | _ \<Rightarrow> TokenInvalid) id"

definition get_erc_metadata :: "token_env \<Rightarrow> u64 \<Rightarrow> nft_options \<Rightarrow> string \<Rightarrow> rpc_world \<Rightarrow> rpc_error + erc_metadata" where
  "get_erc_metadata ke chain opts type =
    ask_alchemy ke chain (ke_erc_metadata ke chain (no_address opts) (no_token_id opts) type)"

definition get_erc_owners :: "token_env \<Rightarrow> u64 \<Rightarrow> address \<Rightarrow> rpc_world \<Rightarrow> rpc_error + erc_owner list" where
  "get_erc_owners ke chain a = ask_alchemy ke chain (ke_erc_owners ke chain a)"

section \<open>Checks\<close>

definition check_network :: "token_add \<Rightarrow> rpc_world \<Rightarrow> rpc_error + u64" where
  "check_network t w =
    (case rpc_current_network w of
      Inl e \<Rightarrow> Inl e
    | Inr n \<Rightarrow>
        if (case token_chain_id t of None \<Rightarrow> chain_id n | Some c \<Rightarrow> c) \<noteq> chain_id n then Inl NetworkInvalid
        else Inr (chain_id n))"

definition str_len :: "string option \<Rightarrow> nat" where
  "str_len s = (case s of None \<Rightarrow> 0 | Some t \<Rightarrow> length t)"

definition check_erc20_metadata :: "token_metadata \<Rightarrow> erc20_metadata \<Rightarrow> rpc_error + unit" where
  "check_erc20_metadata m am =
    (if em_symbol am = Some [] \<and> (tm_symbol m = None \<or> tm_symbol m = Some []) then Inl SymbolMissing
     else if 11 < str_len (em_symbol am) \<or> 11 < str_len (tm_symbol m) then Inl SymbolInvalid
     else if 36 < (case em_decimals am of None \<Rightarrow> 0 | Some n \<Rightarrow> n) \<or> 36 < (case tm_decimals m of None \<Rightarrow> 0 | Some n \<Rightarrow> n)
     then Inl DecimalsInvalid
     else Inr ())"

definition no_decimals :: "u8 option \<Rightarrow> bool" where
  "no_decimals n = (n = None \<or> n = Some 0)"

text \<open>What Alchemy says goes first.\<close>

definition set_erc20_metadata :: "token_metadata \<Rightarrow> erc20_metadata \<Rightarrow> token_metadata" where
  "set_erc20_metadata m am = \<lparr>tm_address = tm_address m,
    tm_name = (if em_name am = Some [] then tm_name m else em_name am),
    tm_symbol = (if em_symbol am = Some [] then tm_symbol m else em_symbol am),
    tm_decimals =
      (if no_decimals (em_decimals am) \<and> no_decimals (tm_decimals m) then Some 18
       else if no_decimals (em_decimals am) then tm_decimals m
       else em_decimals am)\<rparr>"

definition check_erc_type :: "token_add \<Rightarrow> erc_metadata \<Rightarrow> rpc_error + unit" where
  "check_erc_type t m =
    (if ec_token_type (er_contract m) \<noteq> token_type t then Inl (ErcTypeInvalid (token_type t) (ec_token_type (er_contract m)))
     else Inr ())"

text \<open>Owners are compared as texts with the checksummed address of the current wallet.\<close>

definition check_erc_owner :: "rpc_env \<Rightarrow> token_env \<Rightarrow> u64 \<Rightarrow> address \<Rightarrow> rpc_world \<Rightarrow> rpc_error + unit" where
  "check_erc_owner env ke chain a w =
    (case rpc_current_address env w of
      Inl e \<Rightarrow> Inl e
    | Inr me \<Rightarrow>
        (case get_erc_owners ke chain a w of
          Inl e \<Rightarrow> Inl e
        | Inr owners \<Rightarrow> if ke_checksum ke me \<notin> eow_address ` set owners then Inl ErcWrongOwner else Inr ()))"

definition get_erc1155_balances :: "rpc_env \<Rightarrow> token_env \<Rightarrow> u64 \<Rightarrow> nft_options \<Rightarrow> rpc_world \<Rightarrow> rpc_error + u256" where
  "get_erc1155_balances env ke chain opts w =
    (case rpc_current_address env w of
      Inl e \<Rightarrow> Inl e
    | Inr me \<Rightarrow>
        (case get_erc_owners ke chain (no_address opts) w of
          Inl e \<Rightarrow> Inl e
        | Inr owners \<Rightarrow>
            if ke_checksum ke me \<notin> eow_address ` set owners then Inl ErcWrongOwner
            else
              (case List.find (\<lambda>(i, _). i = show_dec (unat (no_token_id opts)))
                  (concat (map eow_balances (filter (\<lambda>x. eow_address x = ke_checksum ke me) owners))) of
                None \<Rightarrow> Inl ErcInvalid
              | Some (_, b) \<Rightarrow> ok_or ParseError (ke_u256 ke b))))"

section \<open>Saving\<close>

text \<open>The results of the statements are dropped.\<close>

definition on_accept_erc20 :: "rpc_env \<Rightarrow> u64 \<Rightarrow> token_metadata \<Rightarrow> token_state \<Rightarrow> (rpc_error + unit) \<times> token_state" where
  "on_accept_erc20 env chain m s =
    (case rpc_current_address env (fst s) of
      Inl e \<Rightarrow> (Inl e, s)
    | Inr me \<Rightarrow> (Inr (), fst s, save_erc20_balance chain (tm_address m) me 0 (save_erc20_metadata chain m (snd s))))"

definition on_accept_erc721 :: "rpc_env \<Rightarrow> token_env \<Rightarrow> u64 \<Rightarrow> erc_metadata \<Rightarrow> token_state \<Rightarrow> (rpc_error + unit) \<times> token_state" where
  "on_accept_erc721 env ke chain m s =
    (case rpc_current_address env (fst s) of
      Inl e \<Rightarrow> (Inl e, s)
    | Inr me \<Rightarrow>
        (let d1 = snd (save_erc721_token_data (ec_address (er_contract m)) chain (er_token_id m) me (er_token_uri m)
            (ke_json_text ke (er_metadata m)) (snd s)) in
          (Inr (), fst s,
           case er_collection m of
             None \<Rightarrow> d1
           | Some name \<Rightarrow> snd (save_erc721_collection (ec_address (er_contract m)) chain
               (case name of None \<Rightarrow> [] | Some n \<Rightarrow> n) (ec_symbol (er_contract m)) d1))))"

text \<open>\<open>expect\<close> on the balance, which \<open>run_erc1155\<close> has just set.\<close>

definition on_accept_erc1155 :: "rpc_env \<Rightarrow> token_env \<Rightarrow> u64 \<Rightarrow> erc_metadata \<Rightarrow> token_state \<Rightarrow> (rpc_error + unit) \<times> token_state" where
  "on_accept_erc1155 env ke chain m s =
    (case rpc_current_address env (fst s) of
      Inl e \<Rightarrow> (Inl e, s)
    | Inr me \<Rightarrow>
        (case er_balance m of
          None \<Rightarrow> (Inl (RpcPanic ''Error''), s)
        | Some b \<Rightarrow>
            (let d1 = snd (save_erc1155_token_data (ec_address (er_contract m)) chain (er_token_id m) me b (er_token_uri m)
                (ke_json_text ke (er_metadata m)) (snd s)) in
              (Inr (), fst s,
               case er_collection m of
                 None \<Rightarrow> d1
               | Some name \<Rightarrow> snd (save_erc1155_collection (ec_address (er_contract m)) chain
                   (case name of None \<Rightarrow> [] | Some n \<Rightarrow> n) (ec_symbol (er_contract m)) d1)))))"

section \<open>Running\<close>

definition ask_token :: "rpc_env \<Rightarrow> string \<Rightarrow> json \<Rightarrow> (token_state \<Rightarrow> (rpc_error + unit) \<times> token_state) \<Rightarrow> token_state
    \<Rightarrow> ((rpc_error + unit) \<times> token_state) option" where
  "ask_token env preset payload on_accept s =
    (if \<not> dl_open (re_dialog env preset) then Some (Inl (Ethui ''dialog''), s)
     else
       (case wait_answer (dl_recv (re_dialog env preset)) 0 of
         None \<Rightarrow> None
       | Some a \<Rightarrow>
           (let s1 = (rw_effect (DialogOpened preset payload) (fst s), snd s) in
             Some (case a of
               Accepts \<Rightarrow> on_accept s1
             | Closes \<Rightarrow> (Inl UserRejectedDialog, s1)
             | Gone \<Rightarrow> (Inr (), s1)))))"

definition run_erc20 :: "rpc_env \<Rightarrow> token_env \<Rightarrow> u64 \<Rightarrow> erc20_options \<Rightarrow> token_state \<Rightarrow> ((rpc_error + unit) \<times> token_state) option" where
  "run_erc20 env ke chain opts s =
    (case or_token_invalid (ask_alchemy ke chain (ke_erc20_metadata ke chain (eo_address opts)) (fst s)) of
      Inl e \<Rightarrow> Some (Inl e, s)
    | Inr am \<Rightarrow>
        (let m = \<lparr>tm_address = eo_address opts, tm_name = eo_name opts, tm_symbol = eo_symbol opts, tm_decimals = eo_decimals opts\<rparr> in
          case check_erc20_metadata m am of
            Inl e \<Rightarrow> Some (Inl e, s)
          | Inr _ \<Rightarrow> ask_token env ''erc20-add'' (ke_erc20_payload ke (set_erc20_metadata m am) am)
              (on_accept_erc20 env chain (set_erc20_metadata m am)) s))"

definition check_nft :: "rpc_env \<Rightarrow> token_env \<Rightarrow> u64 \<Rightarrow> token_add \<Rightarrow> nft_options \<Rightarrow> rpc_world \<Rightarrow> rpc_error + erc_metadata" where
  "check_nft env ke chain t opts w =
    (case or_token_invalid (get_erc_metadata ke chain opts (token_type t) w) of
      Inl e \<Rightarrow> Inl e
    | Inr m \<Rightarrow>
        (case check_erc_type t m of
          Inl e \<Rightarrow> Inl e
        | Inr _ \<Rightarrow> map_sum id (\<lambda>_. m) (check_erc_owner env ke chain (no_address opts) w)))"

definition run_erc721 :: "rpc_env \<Rightarrow> token_env \<Rightarrow> u64 \<Rightarrow> nft_options \<Rightarrow> token_state \<Rightarrow> ((rpc_error + unit) \<times> token_state) option" where
  "run_erc721 env ke chain opts s =
    (case check_nft env ke chain (AddERC721 opts) opts (fst s) of
      Inl e \<Rightarrow> Some (Inl e, s)
    | Inr m \<Rightarrow> ask_token env ''erc721-add'' (ke_erc_payload ke m) (on_accept_erc721 env ke chain m) s)"

definition run_erc1155 :: "rpc_env \<Rightarrow> token_env \<Rightarrow> u64 \<Rightarrow> nft_options \<Rightarrow> token_state \<Rightarrow> ((rpc_error + unit) \<times> token_state) option" where
  "run_erc1155 env ke chain opts s =
    (case check_nft env ke chain (AddERC1155 opts) opts (fst s) of
      Inl e \<Rightarrow> Some (Inl e, s)
    | Inr m \<Rightarrow>
        (case get_erc1155_balances env ke chain opts (fst s) of
          Inl e \<Rightarrow> Some (Inl e, s)
        | Inr b \<Rightarrow> ask_token env ''erc1155-add'' (ke_erc_payload ke (m\<lparr>er_balance := Some b\<rparr>))
            (on_accept_erc1155 env ke chain (m\<lparr>er_balance := Some b\<rparr>)) s))"

definition token_run :: "rpc_env \<Rightarrow> token_env \<Rightarrow> token_add \<Rightarrow> token_state \<Rightarrow> ((rpc_error + json) \<times> token_state) option" where
  "token_run env ke t s =
    (case check_network t (fst s) of
      Inl e \<Rightarrow> Some (Inl e, s)
    | Inr chain \<Rightarrow>
        map_option (map_prod (map_sum id (\<lambda>_. JBool True)) id)
          (case t of
            AddERC20 opts \<Rightarrow> run_erc20 env ke chain opts s
          | AddERC721 opts \<Rightarrow> run_erc721 env ke chain opts s
          | AddERC1155 opts \<Rightarrow> run_erc1155 env ke chain opts s))"

definition token_add_method :: "rpc_env \<Rightarrow> token_env \<Rightarrow> json \<Rightarrow> token_state \<Rightarrow> ((rpc_error + json) \<times> token_state) option" where
  "token_add_method env ke params s =
    (case token_build ke params of Inl e \<Rightarrow> Some (Inl e, s) | Inr t \<Rightarrow> token_run env ke t s)"

section \<open>Saved only when accepted\<close>

lemma or_token_invalid_simps [simp]:
  "or_token_invalid (Inr x) = Inr x" "is_ok (or_token_invalid r) = is_ok r" "or_token_invalid r = Inr x \<longleftrightarrow> r = Inr x"
  by (cases r; simp add: or_token_invalid_def)+

lemma ask_alchemy_Inr: "ask_alchemy ke chain answer w = Inr x \<Longrightarrow> answer = Some x \<and> get_alchemy (ke_alchemy ke) chain (rw_settings w) = Inr ()"
  by (auto simp: ask_alchemy_def ok_or_def split: sum.splits sync_error.splits option.splits)

text \<open>A handler of the user's answer that only changes the database, and only when it succeeds.\<close>

definition only_saves :: "(token_state \<Rightarrow> (rpc_error + unit) \<times> token_state) \<Rightarrow> bool" where
  "only_saves f = (\<forall>s r s'. f s = (r, s') \<longrightarrow> fst s' = fst s \<and> (is_ok r \<or> s' = s))"

lemma on_accept_saves:
  "only_saves (on_accept_erc20 env chain m)" "only_saves (on_accept_erc721 env ke chain x)" "only_saves (on_accept_erc1155 env ke chain x)"
  by (auto simp: only_saves_def on_accept_erc20_def on_accept_erc721_def on_accept_erc1155_def Let_def split: sum.splits option.splits)

definition token_preset :: "token_add \<Rightarrow> string" where
  "token_preset t = (case t of AddERC20 _ \<Rightarrow> ''erc20-add'' | AddERC721 _ \<Rightarrow> ''erc721-add'' | AddERC1155 _ \<Rightarrow> ''erc1155-add'')"

text \<open>What may become of the state: at most one dialog shown, and the database changed only after an acceptance.\<close>

definition token_outcome :: "rpc_env \<Rightarrow> string \<Rightarrow> token_state \<Rightarrow> bool \<Rightarrow> token_state \<Rightarrow> bool" where
  "token_outcome env preset s ok s' = (
    (fst s' = fst s \<or> (\<exists>j. fst s' = rw_effect (DialogOpened preset j) (fst s)))
    \<and> (snd s' \<noteq> snd s \<longrightarrow> ok \<and> accepts env preset))"

lemma token_outcome_same [simp]: "token_outcome env preset s ok s"
  by (simp add: token_outcome_def)

lemma ask_token_outcome:
  assumes "ask_token env preset payload f s = Some (r, s')" "only_saves f"
  shows "token_outcome env preset s (is_ok r) s'"
proof (cases "dl_open (re_dialog env preset)")
  case True
  let ?s1 = "(rw_effect (DialogOpened preset payload) (fst s), snd s)"
  from assms(1) True obtain a where a: "wait_answer (dl_recv (re_dialog env preset)) 0 = Some a"
    and r: "(r, s') = (case a of Accepts \<Rightarrow> f ?s1 | Closes \<Rightarrow> (Inl UserRejectedDialog, ?s1) | Gone \<Rightarrow> (Inr (), ?s1))"
    by (auto simp: ask_token_def Let_def split: option.splits)
  show ?thesis
  proof (cases a)
    case Accepts
    with r have "f ?s1 = (r, s')" by simp
    with assms(2) have "fst s' = fst ?s1" "is_ok r \<or> s' = ?s1" unfolding only_saves_def by blast+
    then show ?thesis using True a Accepts by (auto simp: token_outcome_def accepts_def)
  qed (use r in \<open>auto simp: token_outcome_def\<close>)
qed (use assms(1) in \<open>auto simp: ask_token_def\<close>)

lemma run_outcome:
  "run_erc20 env ke chain o20 s = Some (r, s') \<Longrightarrow> token_outcome env ''erc20-add'' s (is_ok r) s'"
  "run_erc721 env ke chain n s = Some (r, s') \<Longrightarrow> token_outcome env ''erc721-add'' s (is_ok r) s'"
  "run_erc1155 env ke chain n s = Some (r, s') \<Longrightarrow> token_outcome env ''erc1155-add'' s (is_ok r) s'"
  by (auto simp: run_erc20_def run_erc721_def run_erc1155_def Let_def split: sum.splits
      dest: ask_token_outcome [OF _ on_accept_saves(1)] ask_token_outcome [OF _ on_accept_saves(2)] ask_token_outcome [OF _ on_accept_saves(3)])

text \<open>C9. A site's request to watch a token never changes anything but the database, and the database only
  when the user accepted the dialog of that kind of token, the request then succeeds, and the token is on the chain of the
  current network.\<close>

theorem tokens_saved_only_when_accepted:
  assumes "token_run env ke t s = Some (r, s')"
  shows "(fst s' = fst s \<or> (\<exists>j. fst s' = rw_effect (DialogOpened (token_preset t) j) (fst s)))
    \<and> (snd s' \<noteq> snd s \<longrightarrow> r = Inr (JBool True) \<and> accepts env (token_preset t)
      \<and> (\<exists>n. rpc_current_network (fst s) = Inr n \<and> token_chain_id t \<in> {None, Some (chain_id n)}))"
proof (cases "check_network t (fst s)")
  case (Inl e)
  with assms show ?thesis by (auto simp: token_run_def)
next
  case (Inr chain)
  then obtain n where n: "rpc_current_network (fst s) = Inr n" "token_chain_id t \<in> {None, Some (chain_id n)}"
    by (auto simp: check_network_def split: sum.splits if_splits option.splits)
  from assms Inr obtain q where q: "r = map_sum id (\<lambda>_. JBool True) q"
    and run: "(case t of AddERC20 opts \<Rightarrow> run_erc20 env ke chain opts s | AddERC721 opts \<Rightarrow> run_erc721 env ke chain opts s
      | AddERC1155 opts \<Rightarrow> run_erc1155 env ke chain opts s) = Some (q, s')"
    by (auto simp: token_run_def)
  from run have out: "token_outcome env (token_preset t) s (is_ok q) s'"
    by (cases t) (auto simp: token_preset_def dest: run_outcome)
  show ?thesis using out n q unfolding token_outcome_def by (cases q) auto
qed

section \<open>What is saved\<close>

lemma checked_metadata:
  assumes "check_erc20_metadata m am = Inr ()"
  shows "str_len (tm_symbol (set_erc20_metadata m am)) \<le> 11
    \<and> (\<exists>n. tm_decimals (set_erc20_metadata m am) = Some n \<and> 0 < n \<and> n \<le> 36)"
  using assms
  by (auto simp: check_erc20_metadata_def set_erc20_metadata_def no_decimals_def str_len_def word_gt_0 not_less
      split: if_splits option.splits)

text \<open>An ERC20 token the user accepts is saved with metadata in bounds (a symbol of at most eleven
  bytes, one to thirty-six decimals), and for the current account, whose balance on record becomes zero whatever it was; no
  other row changes.\<close>

theorem accepted_erc20_saved:
  assumes "token_run env ke (AddERC20 opts) s = Some (Inr j, s')" "accepts env ''erc20-add''"
    and "rpc_current_network (fst s) = Inr n"
  shows "\<exists>m me. rpc_current_address env (fst s') = Inr me \<and> tm_address m = eo_address opts
    \<and> str_len (tm_symbol m) \<le> 11 \<and> (\<exists>k. tm_decimals m = Some k \<and> 0 < k \<and> k \<le> 36)
    \<and> get_erc20_metadata (eo_address opts) (chain_id n) (snd s') = Inr m
    \<and> read_erc20_balance (chain_id n) (eo_address opts) me (snd s') = Inr 0
    \<and> (\<forall>c t a. (c, t, a) \<noteq> (chain_id n, eo_address opts, me) \<longrightarrow> read_erc20_balance c t a (snd s') = read_erc20_balance c t a (snd s))"
proof -
  let ?m = "\<lparr>tm_address = eo_address opts, tm_name = eo_name opts, tm_symbol = eo_symbol opts, tm_decimals = eo_decimals opts\<rparr>"
  have net: "check_network (AddERC20 opts) (fst s) = Inr (chain_id n)"
    using assms(1,3) by (auto simp: token_run_def check_network_def split: if_splits)
  from assms(1) net obtain q where "run_erc20 env ke (chain_id n) opts s = Some (q, s')" and "map_sum id (\<lambda>_. JBool True) q = Inr j"
    by (auto simp: token_run_def)
  then have "run_erc20 env ke (chain_id n) opts s = Some (Inr (), s')" by (cases q) auto
  then obtain am where am: "check_erc20_metadata ?m am = Inr ()"
    and run: "ask_token env ''erc20-add'' (ke_erc20_payload ke (set_erc20_metadata ?m am) am)
      (on_accept_erc20 env (chain_id n) (set_erc20_metadata ?m am)) s = Some (Inr (), s')"
    by (auto simp: run_erc20_def Let_def split: sum.splits)
  let ?f = "set_erc20_metadata ?m am"
  let ?w = "rw_effect (DialogOpened ''erc20-add'' (ke_erc20_payload ke ?f am)) (fst s)"
  from run assms(2) obtain me where me: "rpc_current_address env ?w = Inr me"
    and s': "s' = (?w, save_erc20_balance (chain_id n) (tm_address ?f) me 0 (save_erc20_metadata (chain_id n) ?f (snd s)))"
    by (auto simp: ask_token_def accepts_def Let_def on_accept_erc20_def split: sum.splits)
  have a: "tm_address ?f = eo_address opts" by (simp add: set_erc20_metadata_def)
  have "get_erc20_metadata (eo_address opts) (chain_id n) (snd s') = Inr ?f"
    using a by (simp add: s' get_erc20_metadata_def save_erc20_metadata_def save_erc20_balance_def ok_or_def)
  then show ?thesis
    using checked_metadata [OF am] me a
    by (intro exI [of _ ?f] exI [of _ me]) (auto simp: s' read_erc20_balance_def save_erc20_metadata_def save_erc20_balance_def)
qed

text \<open>In the database the migrations leave, an NFT the user accepts is not saved, and the site is told it was.\<close>

lemma accepted_nft_not_saved:
  assumes "db_erc721 (snd s) = None" "db_erc1155 (snd s) = None" "t = AddERC721 opts \<or> t = AddERC1155 opts"
    and "accepts env (token_preset t)" "token_run env ke t s = Some (r, s')"
  shows "snd s' = snd s \<and> (fst s' \<noteq> fst s \<longrightarrow> r = Inr (JBool True))"
proof -
  have shown: "rpc_current_address env (rw_effect e w) = rpc_current_address env w" for e w
    by (simp add: rpc_current_address_def rw_effect_def)
  have me: "check_nft env ke chain t' opts (fst s) = Inr m \<Longrightarrow> \<exists>a. rpc_current_address env (fst s) = Inr a" for chain t' m
    by (auto simp: check_nft_def check_erc_owner_def split: sum.splits)
  show ?thesis
    using assms(3)
  proof
    assume t: "t = AddERC721 opts"
    show ?thesis
      using assms(1,4,5) me
      by (auto simp: t token_run_def run_erc721_def ask_token_def accepts_def token_preset_def Let_def on_accept_erc721_def shown
          save_erc721_token_data_def save_erc721_collection_def on_erc721_def on_table_def split: sum.splits option.splits)
  next
    assume t: "t = AddERC1155 opts"
    show ?thesis
      using assms(2,4,5) me
      by (auto simp: t token_run_def run_erc1155_def ask_token_def accepts_def token_preset_def Let_def on_accept_erc1155_def shown
          save_erc1155_token_data_def save_erc1155_collection_def on_erc1155_def on_table_def split: sum.splits option.splits)
  qed
qed

definition toy_token_env :: token_env where
  "toy_token_env = \<lparr>ke_erc20 = (\<lambda>_. Inl []), ke_nft = (\<lambda>_. Inl []), ke_type_error = (\<lambda>_. []), ke_alchemy = toy_alchemy,
    ke_erc20_metadata = (\<lambda>_ _. Some \<lparr>em_decimals = None, em_logo = None, em_name = Some ''Coin'', em_symbol = Some []\<rparr>),
    ke_erc_metadata = (\<lambda>_ _ _ _. None), ke_erc_owners = (\<lambda>_ _. None), ke_checksum = (\<lambda>_. []), ke_u256 = (\<lambda>_. None),
    ke_erc20_payload = (\<lambda>_ _. JNull), ke_erc_payload = (\<lambda>_. JNull), ke_json_text = (\<lambda>_. [])\<rparr>"

definition toy_token_world :: rpc_world where
  "toy_token_world = toy_rpc_world\<lparr>
    rw_conn := fresh_world\<lparr>w_nets := (w_nets fresh_world)\<lparr>nw_inner := nw_default\<lparr>sn_current := ''Mainnet''\<rparr>\<rparr>\<rparr>,
    rw_settings := (rw_settings toy_rpc_world)\<lparr>st_inner := settings_default\<lparr>alchemy_api_key := Some ''k''\<rparr>\<rparr>\<rparr>"

definition toy_coin :: erc20_options where
  "toy_coin = \<lparr>eo_address = 9, eo_chain_id = Some 1, eo_name = None, eo_symbol = Some ''COIN'', eo_decimals = None\<rparr>"


lemma toy_token_run:
  "map_option fst (token_run toy_rpc_env toy_token_env (AddERC20 toy_coin) (toy_token_world, empty_db)) = Some (Inr (JBool True))"
  by code_simp

lemma toy_token_network: "rpc_current_network toy_token_world = Inr (mainnet 0)"
  by code_simp

theorem accepted_erc20_saved_witness:
  "\<exists>m s'. token_run toy_rpc_env toy_token_env (AddERC20 toy_coin) (toy_token_world, empty_db) = Some (Inr (JBool True), s')
    \<and> get_erc20_metadata 9 1 (snd s') = Inr m \<and> (\<exists>k. tm_decimals m = Some k \<and> k \<le> 36)"
proof -
  obtain s' where run: "token_run toy_rpc_env toy_token_env (AddERC20 toy_coin) (toy_token_world, empty_db) = Some (Inr (JBool True), s')"
    using toy_token_run by (auto simp del: token_run_def)
  have "eo_address toy_coin = 9" "chain_id (mainnet 0) = 1" by code_simp+
  with accepted_erc20_saved [OF run toy_accepts, of "mainnet 0"] run toy_token_network show ?thesis by auto
qed

theorem tokens_saved_only_when_accepted_witness:
  "\<exists>s'. token_run toy_rpc_env toy_token_env (AddERC20 toy_coin) (toy_token_world, empty_db) = Some (Inr (JBool True), s')
    \<and> (snd s' \<noteq> empty_db \<longrightarrow> accepts toy_rpc_env ''erc20-add'')"
proof -
  obtain s' where run: "token_run toy_rpc_env toy_token_env (AddERC20 toy_coin) (toy_token_world, empty_db) = Some (Inr (JBool True), s')"
    using toy_token_run by auto
  from tokens_saved_only_when_accepted [OF run] run show ?thesis by (auto simp: token_preset_def)
qed

end
