(* ===== verification/Rpc_Handler.thy ===== *)
theory Rpc_Handler
  imports Rpc_Transactions Rpc_Tokens
begin

text \<open>
  The RPC handler as a whole (\<open>crates/rpc/src/lib.rs\<close>, \<open>methods/ethui\<close>): the table of methods a site
  can call, the two methods of ethui's own, and the handling of one request by its name.
\<close>

section \<open>The table of methods\<close>

datatype rpc_method =
    ProviderMethod
  | Accounts
  | ChainIdOf
  | SendTransactionM
  | EthSignM
  | EthSignTypedDataM
  | RequestPermissions
  | RevokePermissions
  | GetPermissions
  | ChainAddM
  | ChainUpdateM
  | SwitchChain
  | TokenAddM
  | MetamaskState
  | Unimplemented
  | EthuiState
  | AbiForContract
  | AddressAlias

definition provider_methods :: "string list" where
  "provider_methods = [''eth_blockNumber'', ''eth_sendRawTransaction'', ''eth_getBalance'', ''eth_getStorageAt'',
    ''eth_getTransactionCount'', ''eth_getCode'', ''eth_call'', ''eth_estimateGas'', ''eth_protocolVersion'', ''eth_syncing'',
    ''eth_mining'', ''net_version'', ''eth_getBlockTransactionCountByHash'', ''eth_getBlockTransactionCountByNumber'',
    ''eth_getUncleCountByBlockHash'', ''eth_getUncleCountByBlockNumber'', ''eth_getBlockByHash'', ''eth_getBlockByNumber'',
    ''eth_getTransactionByHash'', ''eth_getTransactionByBlockHashAndIndex'', ''eth_getTransactionByBlockNumberAndIndex'',
    ''eth_getTransactionReceipt'', ''eth_getUncleByBlockHashAndIndex'', ''eth_getUncleByBlockNumberAndIndex'', ''eth_newFilter'',
    ''eth_newBlockFilter'', ''eth_newPendingFilter'', ''eth_uninstallFilter'', ''eth_getFilterLogs'', ''eth_getLogs'']"

definition rpc_methods :: "(string, rpc_method) hmap" where
  "rpc_methods = map (\<lambda>n. (n, ProviderMethod)) provider_methods
    @ [(''eth_accounts'', Accounts), (''eth_requestAccounts'', Accounts), (''eth_chainId'', ChainIdOf),
       (''eth_sendTransaction'', SendTransactionM), (''eth_sign'', EthSignM), (''personal_sign'', EthSignM),
       (''eth_signTypedData'', EthSignTypedDataM), (''eth_signTypedData_v4'', EthSignTypedDataM),
       (''wallet_requestPermissions'', RequestPermissions), (''wallet_revokePermissions'', RevokePermissions),
       (''wallet_getPermissions'', GetPermissions), (''wallet_addEthereumChain'', ChainAddM),
       (''wallet_updateEthereumChain'', ChainUpdateM), (''wallet_switchEthereumChain'', SwitchChain),
       (''wallet_watchAsset'', TokenAddM), (''metamask_getProviderState'', MetamaskState)]
    @ map (\<lambda>n. (n, Unimplemented)) [''web3_clientVersion'', ''web3_sha3'', ''net_listening'', ''net_peerCount'', ''eth_gasPrice'',
       ''eth_signTransaction'']
    @ [(''ethui_getProviderState'', EthuiState), (''ethui_getContractAbi'', AbiForContract),
       (''ethui_getAddressAlias'', AddressAlias)]"

definition method_names :: "string list" where
  "method_names = hm_keys rpc_methods"

section \<open>The methods of ethui\<close>

text \<open>The environments of the methods; the deserializer of an address and the reading of an ABI.\<close>

record handler_env =
  he_rpc :: rpc_env
  he_tx :: tx_env
  he_chain :: chain_env
  he_token :: token_env
  he_address :: "json \<Rightarrow> string + address"
  he_read_abi :: "string \<Rightarrow> json"

definition address_param :: "handler_env \<Rightarrow> json \<Rightarrow> rpc_error + address" where
  "address_param he params =
    (case extract_single_param params of
      None \<Rightarrow> Inl (RpcPanic ''index out of bounds'')
    | Some j \<Rightarrow> map_sum Serde id (he_address he j))"

definition abi_for_contract :: "handler_env \<Rightarrow> json \<Rightarrow> ctx \<Rightarrow> token_state \<Rightarrow> rpc_error + json" where
  "abi_for_contract he params c s =
    (case address_param he params of
      Inl e \<Rightarrow> Inl e
    | Inr a \<Rightarrow> map_sum id (\<lambda>n. case get_contract_abi (he_read_abi he) (chain_id n) a (snd s) of Inl _ \<Rightarrow> JNull | Inr abi \<Rightarrow> abi)
        (rpc_network (he_rpc he) c (fst s)))"

definition address_alias :: "handler_env \<Rightarrow> json \<Rightarrow> rpc_world \<Rightarrow> rpc_error + json" where
  "address_alias he params w =
    map_sum id (\<lambda>a. case get_alias (rw_settings w) a of None \<Rightarrow> JNull | Some t \<Rightarrow> JStr t) (address_param he params)"

section \<open>One request\<close>

text \<open>A method answers, panics, or waits for the user for ever.\<close>

datatype rpc_answer = Answers "jsonrpc_error + json" | Panics string | Waits

definition answer_of :: "(address \<Rightarrow> string) \<Rightarrow> rpc_error + json \<Rightarrow> rpc_answer" where
  "answer_of show r =
    (case r of
      Inr j \<Rightarrow> Answers (Inr j)
    | Inl (RpcPanic m) \<Rightarrow> Panics m
    | Inl e \<Rightarrow> Answers (Inl (into_jsonrpc show e)))"

text \<open>A method that waits for ever leaves no state behind that later requests of the connection see.\<close>

definition on_world :: "(address \<Rightarrow> string) \<Rightarrow> json rpc_handler \<Rightarrow> token_state \<Rightarrow> rpc_answer \<times> token_state" where
  "on_world show h s = (case h (fst s) of (r, w) \<Rightarrow> (answer_of show r, w, snd s))"

text \<open>A method that waits for ever leaves what it had changed before; the dialog it waits for is not among the effects.\<close>

definition on_waiting :: "(address \<Rightarrow> string) \<Rightarrow> ((rpc_error + json) \<times> rpc_world) option \<Rightarrow> rpc_world \<Rightarrow> token_state
    \<Rightarrow> rpc_answer \<times> token_state" where
  "on_waiting show h waiting s = (case h of None \<Rightarrow> (Waits, waiting, snd s) | Some (r, w) \<Rightarrow> (answer_of show r, w, snd s))"

text \<open>The context is a copy, so what the permission methods put in it is lost.\<close>

fun run_method :: "handler_env \<Rightarrow> rpc_method \<Rightarrow> string \<Rightarrow> json \<Rightarrow> ctx \<Rightarrow> token_state \<Rightarrow> rpc_answer \<times> token_state" where
  "run_method he ProviderMethod name params c s =
    (case provider_handler (he_rpc he) name params c (fst s) of
      Inl e \<Rightarrow> (answer_of (re_show (he_rpc he)) (Inl e), s)
    | Inr r \<Rightarrow> (Answers r, s))"
| "run_method he Accounts name params c s = on_world (re_show (he_rpc he)) (rpc_accounts (he_rpc he)) s"
| "run_method he ChainIdOf name params c s = on_world (re_show (he_rpc he)) (rpc_chain_id (he_rpc he) c) s"
| "run_method he SendTransactionM name params c s =
    on_waiting (re_show (he_rpc he)) (send_transaction (he_rpc he) (he_tx he) params c (fst s)) (fst s) s"
| "run_method he EthSignM name params c s = on_world (re_show (he_rpc he)) (eth_sign (he_rpc he) params c) s"
| "run_method he EthSignTypedDataM name params c s = on_world (re_show (he_rpc he)) (eth_sign_typed_data (he_rpc he) params c) s"
| "run_method he RequestPermissions name params c s =
    (answer_of (re_show (he_rpc he)) (fst (rpc_request_permissions (he_rpc he) params c)), s)"
| "run_method he RevokePermissions name params c s =
    (answer_of (re_show (he_rpc he)) (fst (rpc_revoke_permissions (he_rpc he) params c)), s)"
| "run_method he GetPermissions name params c s = (Answers (Inr (rpc_get_permissions c)), s)"
| "run_method he ChainAddM name params c s =
    on_waiting (re_show (he_rpc he)) (chain_add (he_rpc he) (he_chain he) params (fst s)) (fst s) s"
| "run_method he ChainUpdateM name params c s =
    on_waiting (re_show (he_rpc he)) (chain_update (he_rpc he) (he_chain he) params (fst s))
      (chain_update_waits (he_rpc he) (he_chain he) params (fst s)) s"
| "run_method he SwitchChain name params c s = on_world (re_show (he_rpc he)) (rpc_switch_chain (he_rpc he) params c) s"
| "run_method he TokenAddM name params c s =
    (case token_add_method (he_rpc he) (he_token he) params s of
      None \<Rightarrow> (Waits, s)
    | Some (r, s1) \<Rightarrow> (answer_of (re_show (he_rpc he)) r, s1))"
| "run_method he MetamaskState name params c s = on_world (re_show (he_rpc he)) (metamask_provider_state (he_rpc he) c) s"
| "run_method he Unimplemented name params c s = on_world (re_show (he_rpc he)) rpc_unimplemented s"
| "run_method he EthuiState name params c s = on_world (re_show (he_rpc he)) (ethui_provider_state (he_rpc he) c) s"
| "run_method he AbiForContract name params c s = (answer_of (re_show (he_rpc he)) (abi_for_contract he params c s), s)"
| "run_method he AddressAlias name params c s = (answer_of (re_show (he_rpc he)) (address_alias he params (fst s)), s)"

text \<open>\<open>Handler::new\<close> and \<open>Handler::handle\<close>; \<open>jsonrpc_core\<close> answers a name that is not in the table.\<close>

definition handler_ctx :: "string option \<Rightarrow> ctx" where
  "handler_ctx d = ctx_default\<lparr>cx_domain := d\<rparr>"

definition rpc_handle :: "handler_env \<Rightarrow> string option \<Rightarrow> string \<Rightarrow> json \<Rightarrow> token_state \<Rightarrow> rpc_answer \<times> token_state" where
  "rpc_handle he d name params s =
    (case hm_get rpc_methods name of
      None \<Rightarrow> (Answers (Inl \<lparr>je_code = CodeMethodNotFound, je_message = ''Method not found'', je_data = None\<rparr>), s)
    | Some m \<Rightarrow> run_method he m name params (handler_ctx d) s)"

section \<open>What a request can change\<close>

lemma snd_on_world [simp]: "snd (on_world show h s) = (snd (h (fst s)), snd s)"
  by (simp add: on_world_def split: prod.split)

lemma fst_on_world [simp]: "fst (on_world show h s) = answer_of show (fst (h (fst s)))"
  by (simp add: on_world_def split: prod.split)

lemma reading_methods:
  "snd (rpc_accounts env w) = w" "snd (rpc_chain_id env c w) = w" "snd (metamask_provider_state env c w) = w"
  "snd (ethui_provider_state env c w) = w" "snd (rpc_unimplemented w) = w"
  by (simp_all add: rpc_accounts_def rpc_chain_id_def metamask_provider_state_def ethui_provider_state_def network_and_address_def
      rpc_unimplemented_def split: sum.split)

text \<open>A handler that leaves the connections and the settings alone, and one that leaves all but the connections alone.\<close>

definition keeps_conn :: "rpc_world \<Rightarrow> rpc_world \<Rightarrow> bool" where
  "keeps_conn w w' = (rw_conn w' = rw_conn w \<and> rw_settings w' = rw_settings w)"

definition keeps_wallets :: "rpc_world \<Rightarrow> rpc_world \<Rightarrow> bool" where
  "keeps_wallets w w' = (rw_wallets w' = rw_wallets w \<and> rw_settings w' = rw_settings w)"

lemma keeps_simps [simp]: "keeps_conn w w" "keeps_wallets w w" "keeps_conn w (rw_effect e w)" "keeps_wallets w (rw_effect e w)"
  "keeps_conn w (set_wallet_at i x w)"
  by (simp_all add: keeps_conn_def keeps_wallets_def rw_effect_def set_wallet_at_def)

lemma keeps_trans: "keeps_conn w v \<Longrightarrow> keeps_conn v u \<Longrightarrow> keeps_conn w u" "keeps_wallets w v \<Longrightarrow> keeps_wallets v u \<Longrightarrow> keeps_wallets w u"
  by (simp_all add: keeps_conn_def keeps_wallets_def)

lemma keeps_shows: "only_shows w w' \<Longrightarrow> keeps_conn w w'"
  by (auto simp: only_shows_def keeps_conn_def)

lemma sign_keeps: "keeps_conn w (snd (run_sign env b w))"
  by (cases b) (auto simp: run_sign_def sign_finish_def sign_dialog_def sign_with_def keeps_conn_def rw_effect_def set_wallet_at_def Let_def
      split: sum.splits prod.splits option.splits dialog_msg.splits if_splits)

lemma tx_send_keeps: "keeps_conn w (snd (tx_send env te n rs q w))"
  by (auto simp: tx_send_def build_provider_def keeps_conn_def rw_effect_def set_wallet_at_def Let_def
      split: sum.splits prod.splits option.splits if_splits)

lemma dialog_and_send_keeps:
  assumes "dialog_and_send env te t rs w = Some (r, w')"
  shows "keeps_conn w w'"
proof (cases "dl_open (re_dialog env ''tx-review'')")
  case True
  let ?w = "rw_effect (DialogOpened ''tx-review'' (tx_payload te t rs)) w"
  from assms True obtain q w1 where d: "tx_dialog (tx_dialog_turn env te (sx_network t) rs) (dl_recv (re_dialog env ''tx-review'')) 0
      (sx_request t) ?w = Some (q, w1)"
    and r: "(r, w') = (case q of Inl e \<Rightarrow> (Inl e, w1) | Inr q \<Rightarrow> tx_send env te (sx_network t) rs q
        (if rs_type rs = ''ledger'' then tell_dialog ''check-ledger'' None w1 else w1))"
    by (auto simp: dialog_and_send_def split: option.splits sum.splits)
  have "keeps_conn ?w w1" using tx_dialog_spec [OF d] by (auto intro: keeps_shows)
  then have w1: "keeps_conn w w1" "keeps_conn w (tell_dialog ''check-ledger'' None w1)"
    by (simp_all add: tell_dialog_def keeps_conn_def rw_effect_def)
  show ?thesis
  proof (cases q)
    case (Inr x)
    with r have "w' = snd (tx_send env te (sx_network t) rs x (if rs_type rs = ''ledger'' then tell_dialog ''check-ledger'' None w1 else w1))"
      by (simp add: prod_eq_iff)
    moreover have "keeps_conn w (if rs_type rs = ''ledger'' then tell_dialog ''check-ledger'' None w1 else w1)" using w1 by simp
    ultimately show ?thesis using keeps_trans(1) [OF _ tx_send_keeps] by (simp only:)
  qed (use r w1 in auto)
qed (use assms in \<open>simp add: dialog_and_send_def\<close>)

lemma send_transaction_keeps: "send_transaction env te params c w = Some (r, w') \<Longrightarrow> keeps_conn w w'"
  using tx_send_keeps [of w]
  by (auto simp: send_transaction_def run_send_tx_def send_tx_finish_def dest: dialog_and_send_keeps
      split: sum.splits option.splits prod.splits if_splits) (metis snd_conv)+

lemma on_networks_keeps: "keeps_wallets w (snd (on_networks h ce w))"
  by (simp add: on_networks_def keeps_wallets_def split: prod.split)

lemma ask_keeps:
  assumes "ask env preset payload k w = Some (r, w')" "\<And>a v. keeps_wallets v (snd (k a v))"
  shows "keeps_wallets w w'"
proof -
  consider "w' = w" | a where "k a (rw_effect (DialogOpened preset payload) w) = (r, w')"
    using assms(1) by (auto simp: ask_def split: if_splits option.splits)
  then show ?thesis
  proof cases
    case 2
    then have "w' = snd (k a (rw_effect (DialogOpened preset payload) w))" by simp
    with assms(2) show ?thesis using keeps_trans(2) [of w "rw_effect (DialogOpened preset payload) w"] by simp
  qed simp
qed

lemma answered_keeps:
  "keeps_wallets w (snd (case a of Accepts \<Rightarrow> map_prod f id (on_networks h ce w) | Closes \<Rightarrow> (x, w) | Gone \<Rightarrow> (y, w)))"
  by (cases a) (simp_all add: on_networks_keeps)

lemma chain_switch_keeps: "chain_switch_run env ce n w = Some (r, w') \<Longrightarrow> keeps_wallets w w'"
  by (auto simp: chain_switch_run_def split: sum.splits elim: ask_keeps intro: answered_keeps)

lemma chain_methods_keep:
  "chain_add env ce params w = Some (r, w') \<Longrightarrow> keeps_wallets w w'"
  "chain_update env ce params w = Some (r, w') \<Longrightarrow> keeps_wallets w w'"
proof -
  show "chain_add env ce params w = Some (r, w') \<Longrightarrow> keeps_wallets w w'"
    by (auto simp: chain_add_def chain_add_run_def split: sum.splits if_splits elim!: ask_keeps intro: answered_keeps)
  show "chain_update env ce params w = Some (r, w') \<Longrightarrow> keeps_wallets w w'"
    by (auto simp: chain_update_def chain_update_run_def split: sum.splits if_splits option.splits prod.splits
        dest!: ask_keeps [OF _ answered_keeps] chain_switch_keeps intro: keeps_trans)
qed

lemma chain_update_waits_keeps: "keeps_wallets w (chain_update_waits env ce params w)"
  by (auto simp: chain_update_waits_def split: sum.splits option.splits prod.splits dest!: ask_keeps [OF _ answered_keeps])

lemma rpc_switch_chain_keeps: "keeps_wallets w (snd (rpc_switch_chain env params c w))"
  by (auto simp: rpc_switch_chain_def keeps_wallets_def split: sum.splits prod.splits)

definition signing_methods :: "string list" where
  "signing_methods = [''eth_sendTransaction'', ''eth_sign'', ''personal_sign'', ''eth_signTypedData'', ''eth_signTypedData_v4'']"

definition chain_methods :: "string list" where
  "chain_methods = [''wallet_addEthereumChain'', ''wallet_updateEthereumChain'', ''wallet_switchEthereumChain'']"

lemma rpc_method_cases:
  assumes "hm_get rpc_methods name = Some m"
  obtains "name \<in> set signing_methods" "m \<in> {SendTransactionM, EthSignM, EthSignTypedDataM}"
    | "name \<in> set chain_methods" "m \<in> {ChainAddM, ChainUpdateM, SwitchChain}"
    | "name = ''wallet_watchAsset''" "m = TokenAddM"
    | "m \<notin> {SendTransactionM, EthSignM, EthSignTypedDataM, ChainAddM, ChainUpdateM, SwitchChain, TokenAddM}"
proof -
  have "list_all (\<lambda>(n, m). n \<in> set signing_methods \<and> m \<in> {SendTransactionM, EthSignM, EthSignTypedDataM}
      \<or> n \<in> set chain_methods \<and> m \<in> {ChainAddM, ChainUpdateM, SwitchChain} \<or> n = ''wallet_watchAsset'' \<and> m = TokenAddM
      \<or> m \<notin> {SendTransactionM, EthSignM, EthSignTypedDataM, ChainAddM, ChainUpdateM, SwitchChain, TokenAddM}) rpc_methods"
    by (simp add: rpc_methods_def provider_methods_def signing_methods_def chain_methods_def)
  from list_all_iff [THEN iffD1, OF this, THEN bspec, OF map_of_SomeD [OF assms]] that show thesis by auto
qed

lemma run_method_frame:
  defines "res he m name params d s \<equiv> snd (run_method he m name params (handler_ctx d) s)"
  shows "m \<in> {SendTransactionM, EthSignM, EthSignTypedDataM} \<Longrightarrow> keeps_conn (fst s) (fst (res he m name params d s)) \<and> snd (res he m name params d s) = snd s"
    "m \<in> {ChainAddM, ChainUpdateM, SwitchChain} \<Longrightarrow> keeps_wallets (fst s) (fst (res he m name params d s)) \<and> snd (res he m name params d s) = snd s"
    "m \<notin> {SendTransactionM, EthSignM, EthSignTypedDataM, ChainAddM, ChainUpdateM, SwitchChain, TokenAddM} \<Longrightarrow> res he m name params d s = s"
proof -
  show "m \<in> {SendTransactionM, EthSignM, EthSignTypedDataM} \<Longrightarrow> keeps_conn (fst s) (fst (res he m name params d s)) \<and> snd (res he m name params d s) = snd s"
    by (auto simp: res_def on_waiting_def eth_sign_def eth_sign_typed_data_def sign_keeps dest: send_transaction_keeps split: option.splits)
  show "m \<in> {ChainAddM, ChainUpdateM, SwitchChain} \<Longrightarrow> keeps_wallets (fst s) (fst (res he m name params d s)) \<and> snd (res he m name params d s) = snd s"
    by (auto simp: res_def on_waiting_def rpc_switch_chain_keeps chain_update_waits_keeps dest: chain_methods_keep split: option.splits)
  show "m \<notin> {SendTransactionM, EthSignM, EthSignTypedDataM, ChainAddM, ChainUpdateM, SwitchChain, TokenAddM} \<Longrightarrow> res he m name params d s = s"
    by (cases m) (simp_all add: res_def reading_methods split: sum.split)
qed

lemma token_add_keeps:
  assumes "token_add_method env ke params s = Some (r, s')"
  shows "rw_conn (fst s') = rw_conn (fst s) \<and> rw_wallets (fst s') = rw_wallets (fst s) \<and> rw_settings (fst s') = rw_settings (fst s)"
proof (cases "token_build ke params")
  case (Inr t)
  with assms have run: "token_run env ke t s = Some (r, s')" by (simp add: token_add_method_def)
  have "token_outcome env (token_preset t) s (is_ok r) s'"
  proof (cases "check_network t (fst s)")
    case (Inr chain)
    with run show ?thesis by (cases t) (auto simp: token_run_def token_preset_def dest: run_outcome)
  qed (use run in \<open>auto simp: token_run_def\<close>)
  then show ?thesis by (auto simp: token_outcome_def rw_effect_def)
qed (use assms in \<open>auto simp: token_add_method_def\<close>)

text \<open>C30. Whatever a site calls: no method changes the settings; only the methods that sign change the
  state of a wallet; only those of chains change a connection or the networks; only \<open>wallet_watchAsset\<close>
  changes the database; and every other name, known or not, changes nothing at all.\<close>

theorem methods_change_their_part:
  "let s' = snd (rpc_handle he d name params s) in
    rw_settings (fst s') = rw_settings (fst s)
    \<and> (rw_wallets (fst s') = rw_wallets (fst s) \<or> name \<in> set signing_methods)
    \<and> (rw_conn (fst s') = rw_conn (fst s) \<or> name \<in> set chain_methods)
    \<and> (snd s' = snd s \<or> name = ''wallet_watchAsset'')
    \<and> (s' = s \<or> name \<in> set (''wallet_watchAsset'' # signing_methods @ chain_methods))"
proof (cases "hm_get rpc_methods name")
  case None
  then show ?thesis by (simp add: rpc_handle_def Let_def)
next
  case (Some m)
  then have s': "snd (rpc_handle he d name params s) = snd (run_method he m name params (handler_ctx d) s)"
    by (simp add: rpc_handle_def)
  from Some show ?thesis
  proof (cases rule: rpc_method_cases)
    case 1
    then show ?thesis using run_method_frame(1) [OF 1(2), of s he name params d] by (simp add: Let_def s' keeps_conn_def)
  next
    case 2
    then show ?thesis using run_method_frame(2) [OF 2(2), of s he name params d] by (simp add: Let_def s' keeps_wallets_def)
  next
    case 3
    then show ?thesis
      using token_add_keeps [of "he_rpc he" "he_token he" params s] unfolding Let_def s'
      by (auto split: option.splits)
  next
    case 4
    then show ?thesis using run_method_frame(3) [OF 4, of he name params d s] by (simp add: Let_def s')
  qed
qed

section \<open>Switching\<close>

definition chain_param :: "rpc_env \<Rightarrow> json \<Rightarrow> u64 \<Rightarrow> bool" where
  "chain_param env params new = (\<exists>h rest. re_switch env params = Inr (h # rest) \<and> switch_chain_id h = Inr new)"

lemma switch_method: "hm_get rpc_methods ''wallet_switchEthereumChain'' = Some SwitchChain" "hm_get rpc_methods ''eth_chainId'' = Some ChainIdOf"
  by (simp_all add: rpc_methods_def provider_methods_def)

lemma handle_switch:
  assumes "chain_param (he_rpc he) params new"
  shows "rpc_handle he d ''wallet_switchEthereumChain'' params s =
    (case ctx_switch_chain (re_io (he_rpc he)) new (handler_ctx d) (rw_conn (fst s)) of
      (r, conn) \<Rightarrow> (answer_of (re_show (he_rpc he)) (map_sum (from_conn (he_rpc he)) (\<lambda>_. JNull) r), (fst s)\<lparr>rw_conn := conn\<rparr>, snd s))"
  using assms
  by (auto simp: rpc_handle_def switch_method chain_param_def on_world_def rpc_switch_chain_def switch_chain_params_def parse_params_def
      split: prod.split)

lemma contains_prefix: "starts_with p s \<Longrightarrow> contains_str p s"
  by (cases s) (auto simp: starts_with_def)

lemma invalid_chain_code: "code_number (rpc_error_code (from_conn env (InvalidChainId c))) = 4902"
proof -
  let ?m = "''Invalid chain ID '' @ show_dec (unat c)"
  have "map lower_char ''Invalid chain ID '' = ''invalid chain id '' " by code_simp
  then have "map lower_char ?m = ''invalid chain id'' @ '' '' @ map lower_char (show_dec (unat c))" by simp
  then have "contains_str ''invalid chain id'' (map lower_char ?m)" by (simp only:) (rule contains_prefix, simp add: starts_with_def)
  moreover have "rpc_error_code (Ethui m) = (if contains_str ''invalid chain id'' (map lower_char m) then CodeServer 4902 else CodeInternal)" for m
    by (simp add: rpc_error_code_def)
  ultimately show ?thesis by (simp only: from_conn_def conn_error.case if_True code_number.simps)
qed

text \<open>C39. A request to switch to a chain that no network has is answered with the error code 4902, which
  tells the site to add the chain first, and changes nothing.\<close>

theorem unknown_chain_refused:
  assumes "chain_param (he_rpc he) params new" "\<not> validate_chain_id (w_nets (rw_conn (fst s))) new"
    and "ctx_chain_id (handler_ctx d) (rw_conn (fst s)) = Inr now" "now \<noteq> new"
  shows "\<exists>e. rpc_handle he d ''wallet_switchEthereumChain'' params s = (Answers (Inl e), s) \<and> code_number (je_code e) = 4902"
proof -
  have "ctx_switch_chain (re_io (he_rpc he)) new (handler_ctx d) (rw_conn (fst s)) = (Inl (InvalidChainId new), rw_conn (fst s))"
    using assms(2-) by (simp add: ctx_switch_chain_def)
  then have "rpc_handle he d ''wallet_switchEthereumChain'' params s
      = (Answers (Inl (into_jsonrpc (re_show (he_rpc he)) (from_conn (he_rpc he) (InvalidChainId new)))), s)"
    by (simp add: handle_switch [OF assms(1)] answer_of_def from_conn_def)
  moreover have "je_code (into_jsonrpc (re_show (he_rpc he)) (from_conn (he_rpc he) (InvalidChainId new)))
      = rpc_error_code (from_conn (he_rpc he) (InvalidChainId new))"
    by (simp add: into_jsonrpc_def)
  ultimately show ?thesis using invalid_chain_code by metis
qed

text \<open>Between two requests the networks actor takes what was broadcast.\<close>

definition rw_deliver :: "token_state \<Rightarrow> token_state" where
  "rw_deliver s = ((fst s)\<lparr>rw_conn := deliver (rw_conn (fst s))\<rparr>, snd s)"

lemma deliver_nets:
  assumes "w_sent w = [] \<or> (\<exists>i other a. w_sent w = [ChainChanged i other a])"
  shows "nets (w_nets (deliver w)) = nets (w_nets w)"
  using assms nw_handle_nets [of "\<lambda>_. Inr False" IoOk "NwSetCurrent k" for k]
  by (auto simp: deliver_def map_filter_simps)

lemma network_of_chain:
  assumes "ctx_chain_id c w = Inr new" "validate_chain_id (w_nets w) new"
  shows "\<exists>n. ctx_network c w = Inr n \<and> chain_id n = new"
proof -
  from assms(2) obtain n where "nw_get (w_nets w) (KeyChainId new) = Some n" "chain_id n = new"
    by (cases "List.find (\<lambda>n. chain_id n = new) (hm_values (nets (w_nets w)))")
      (auto simp: validate_chain_id_def nw_get_def find_None_iff find_Some_iff list_ex_iff)
  with assms(1) show ?thesis by (auto simp: ctx_network_def ok_or_def)
qed

text \<open>A site with a domain that switches to a known chain is answered \<open>null\<close>, and once the networks
  actor has taken the news \<open>eth_chainId\<close> answers the chain in hexadecimal: text that reads back as the chain asked for.\<close>

theorem switch_roundtrip:
  assumes "chain_param (he_rpc he) params new" "validate_chain_id (w_nets (rw_conn (fst s))) new" "re_io (he_rpc he) = IoOk"
    and "nw_wf (w_nets (rw_conn (fst s)))" "w_sent (rw_conn (fst s)) = []"
    and "rpc_handle he (Some d) ''wallet_switchEthereumChain'' params s = (r, s')"
  shows "r = Answers (Inr JNull)
    \<and> (\<exists>t. rpc_handle he (Some d) ''eth_chainId'' any (rw_deliver s') = (Answers (Inr (JStr t)), rw_deliver s')
      \<and> switch_chain_id t = Inr new)"
proof -
  let ?w = "rw_conn (fst s)" and ?c = "handler_ctx (Some d)"
  have dom: "cx_domain ?c = Some d" by (simp add: handler_ctx_def)
  obtain q w' where sw: "ctx_switch_chain IoOk new ?c ?w = (q, w')" by fastforce
  note done_ = switch_chain_takes_effect [OF assms(4,2) dom assms(5) sw]
  have q: "q = Inr ()" "ctx_chain_id ?c (deliver w') = Inr new"
    using done_ [THEN conjunct1] done_ [THEN conjunct2, THEN conjunct1] by auto
  obtain now where now: "ctx_chain_id ?c ?w = Inr now"
    using sw q(1) by (cases "ctx_chain_id ?c ?w") (auto simp: ctx_switch_chain_def)
  have sent: "w_nets w' = w_nets ?w" "w_sent w' = [] \<or> (\<exists>i other a. w_sent w' = [ChainChanged i other a])"
    using switch_sends [OF now assms(2,5) sw] by auto
  have "validate_chain_id (w_nets (deliver w')) new"
    using deliver_nets [OF sent(2)] assms(2) by (simp add: validate_chain_id_def sent(1))
  from network_of_chain [OF q(2) this] obtain n where n: "ctx_network ?c (deliver w') = Inr n" "chain_id n = new" by blast
  have r: "r = Answers (Inr JNull)" "s' = ((fst s)\<lparr>rw_conn := w'\<rparr>, snd s)"
    using assms(6) sw q(1) by (auto simp: handle_switch [OF assms(1)] assms(3) answer_of_def)
  have "rpc_handle he (Some d) ''eth_chainId'' any (rw_deliver s') = (Answers (Inr (JStr (chain_id_hex n))), rw_deliver s')"
    using n by (simp add: rpc_handle_def switch_method on_world_def rpc_chain_id_def rpc_network_def r(2) rw_deliver_def answer_of_def)
  moreover have "switch_chain_id (chain_id_hex n) = Inr new"
    using n(2) by (simp add: switch_chain_id_def chain_id_hex_def strip_prefix_def starts_with_def from_str_radix_hex ok_or_def)
  ultimately show ?thesis using r(1) by blast
qed

definition toy_handler :: handler_env where
  "toy_handler = \<lparr>he_rpc = toy_rpc_env, he_tx = toy_tx_env, he_chain = toy_chain_env, he_token = toy_token_env,
    he_address = (\<lambda>_. Inl []), he_read_abi = (\<lambda>_. JNull)\<rparr>"

definition hex_text :: "u64 \<Rightarrow> string" where
  "hex_text c = ''0x'' @ show_hex (unat c)"

lemma switch_chain_hex [simp]: "switch_chain_id (hex_text c) = Inr c"
  by (simp add: hex_text_def switch_chain_id_def strip_prefix_def from_str_radix_hex ok_or_def)

definition toy_switching :: "u64 \<Rightarrow> handler_env" where
  "toy_switching c = \<lparr>he_rpc = toy_rpc_env\<lparr>re_switch := \<lambda>_. Inr [hex_text c]\<rparr>, he_tx = toy_tx_env, he_chain = toy_chain_env,
    he_token = toy_token_env, he_address = (\<lambda>_. Inl []), he_read_abi = (\<lambda>_. JNull)\<rparr>"

lemma toy_switching_param: "chain_param (he_rpc (toy_switching c)) params c" "re_io (he_rpc (toy_switching c)) = IoOk"
  by (simp_all add: chain_param_def toy_switching_def toy_rpc_env_def)

lemma toy_chains: "validate_chain_id (w_nets (rw_conn toy_rpc_world)) c \<longleftrightarrow> c \<in> {31337, 1, 11155111}" "w_sent (rw_conn toy_rpc_world) = []"
  "ctx_chain_id (handler_ctx None) (rw_conn toy_rpc_world) = Inr 31337"
proof -
  show "validate_chain_id (w_nets (rw_conn toy_rpc_world)) c \<longleftrightarrow> c \<in> {31337, 1, 11155111}"
    by (auto simp: validate_chain_id_def toy_world_nets types_defs)
  show "w_sent (rw_conn toy_rpc_world) = []" by (simp add: toy_rpc_world_def fresh_world_ok)
  show "ctx_chain_id (handler_ctx None) (rw_conn toy_rpc_world) = Inr 31337" by code_simp
qed

theorem switch_roundtrip_witness:
  "\<exists>s' t. rpc_handle (toy_switching 1) (Some ''a'') ''wallet_switchEthereumChain'' JNull (toy_rpc_world, empty_db) = (Answers (Inr JNull), s')
    \<and> fst (rpc_handle (toy_switching 1) (Some ''a'') ''eth_chainId'' JNull (rw_deliver s')) = Answers (Inr (JStr t))
    \<and> switch_chain_id t = Inr 1"
proof -
  obtain r s' where run: "rpc_handle (toy_switching 1) (Some ''a'') ''wallet_switchEthereumChain'' JNull (toy_rpc_world, empty_db) = (r, s')"
    by (rule prod.exhaust)
  from switch_roundtrip [OF toy_switching_param(1) _ toy_switching_param(2) _ _ run, of JNull] run show ?thesis
    by (auto simp: toy_chains toy_world_nets)
qed

theorem unknown_chain_refused_witness:
  "\<exists>e. fst (rpc_handle (toy_switching 7) None ''wallet_switchEthereumChain'' JNull (toy_rpc_world, empty_db)) = Answers (Inl e)
    \<and> code_number (je_code e) = 4902"
  using unknown_chain_refused [OF toy_switching_param(1), of "(toy_rpc_world, empty_db)" 7 None 31337 JNull] by (auto simp: toy_chains)

end
