(* ===== verification/Devnet.thy ===== *)
theory Devnet
  imports Db
begin

text \<open>
  Watching development nodes (\<open>crates/sync/devnet\<close>): which networks have a worker
  (\<open>tracker/mod.rs\<close>, \<open>init.rs\<close>), and what a worker sends to its consumer
  (\<open>tracker/worker.rs\<close>, \<open>http.rs\<close>, \<open>ws.rs\<close>, \<open>utils.rs\<close>). The node is a parameter, and so is the
  order in which a \<open>select!\<close> finds its branches ready.
\<close>

section \<open>Which networks are watched\<close>

text \<open>The spawned tasks, in order, each with the network it watches and whether it was not aborted;
  the table has the task of each watched network.\<close>

record devnet =
  dw_workers :: "(network_id, nat) hmap"
  dw_tasks :: "(network \<times> bool) list"

definition devnet_new :: devnet where
  "devnet_new = \<lparr>dw_workers = [], dw_tasks = []\<rparr>"

definition watch :: "network \<Rightarrow> devnet \<Rightarrow> devnet" where
  "watch n s =
    (if hm_contains (dw_workers s) (net_id n) then s
     else s\<lparr>dw_workers := hm_insert (net_id n) (length (dw_tasks s)) (dw_workers s), dw_tasks := dw_tasks s @ [(n, True)]\<rparr>)"

definition unwatch :: "network \<Rightarrow> devnet \<Rightarrow> devnet" where
  "unwatch n s =
    (case hm_get (dw_workers s) (net_id n) of
      None \<Rightarrow> s
    | Some t \<Rightarrow> s\<lparr>dw_workers := hm_remove (net_id n) (dw_workers s), dw_tasks := (dw_tasks s)[t := (fst (dw_tasks s ! t), False)]\<rparr>)"

definition devnet_receiver :: "probe \<Rightarrow> internal_msg \<Rightarrow> devnet \<Rightarrow> devnet" where
  "devnet_receiver probe m s =
    (case m of
      NetworkRemoved n \<Rightarrow> unwatch n s
    | NetworkAdded n \<Rightarrow> if is_dev probe n = Inr True then watch n (unwatch n s) else s
    | NetworkUpdated n \<Rightarrow> if is_dev probe n = Inr True then watch n (unwatch n s) else s
    | _ \<Rightarrow> s)"

fun devnet_run :: "(probe \<times> internal_msg) list \<Rightarrow> devnet \<Rightarrow> devnet" where
  "devnet_run [] s = s"
| "devnet_run ((probe, m) # ms) s = devnet_run ms (devnet_receiver probe m s)"

section \<open>The node\<close>

record block_header =
  bh_hash :: b256
  bh_number :: u64

record sync_info =
  si_number :: u64
  si_hash :: b256
  si_fork_block_number :: "u64 option"

datatype dev_error = NodeFails string | QuitWhileWaiting | Reverted | StreamEnded | ConsumerGone

text \<open>
  What a node answers: whether a connection succeeds, its blocks by number, the batches of new
  blocks that polling finds (each hash with the block the node then has for it), the headers of a
  subscription.
\<close>

record anvil =
  an_connect :: "url \<Rightarrow> bool"
  an_by_number :: "u64 \<Rightarrow> string + block_header option"
  an_watch_blocks :: "string + (b256 \<times> (string + block_header option)) list list"
  an_subscribe_blocks :: "string + block_header list"

text \<open>The latest block and the metadata of the node; without a fork there is no fork block.\<close>

definition try_get_sync_info :: "string + block_header option \<Rightarrow> string + u64 option \<Rightarrow> string + sync_info" where
  "try_get_sync_info latest metadata =
    (case latest of
      Inl e \<Rightarrow> Inl e
    | Inr None \<Rightarrow> Inl ''Failed to get latest block''
    | Inr (Some b) \<Rightarrow>
        map_sum id (\<lambda>f. \<lparr>si_number = bh_number b, si_hash = bh_hash b, si_fork_block_number = f\<rparr>) metadata)"

section \<open>Providers\<close>

datatype anvil_provider = AnvilHttp network | AnvilWs network

definition create_worker :: "network \<Rightarrow> anvil_provider" where
  "create_worker n = (if ws_url n \<noteq> None then AnvilWs n else AnvilHttp n)"

definition http_connects :: "anvil \<Rightarrow> network \<Rightarrow> dev_error + unit" where
  "http_connects N n = (if an_connect N (http_url n) then Inr () else Inl (NodeFails ''no connection''))"

definition ws_connects :: "anvil \<Rightarrow> network \<Rightarrow> dev_error + unit" where
  "ws_connects N n =
    (case ws_url n of
      None \<Rightarrow> Inl (NodeFails ''WebSocket URL not available'')
    | Some u \<Rightarrow> if an_connect N u then Inr () else Inl (NodeFails ''no connection''))"

fun provider_connects :: "anvil \<Rightarrow> anvil_provider \<Rightarrow> dev_error + unit" where
  "provider_connects N (AnvilHttp n) = http_connects N n"
| "provider_connects N (AnvilWs n) = ws_connects N n"

text \<open>Backfilling asks for the blocks after the fork one by one and leaves out those it does not get.\<close>

definition start_block :: "sync_info \<Rightarrow> u64" where
  "start_block i = (case si_fork_block_number i of None \<Rightarrow> 1 | Some f \<Rightarrow> f + 1)"

definition blocks_between :: "u64 \<Rightarrow> u64 \<Rightarrow> u64 list" where
  "blocks_between a b = map of_nat [unat a ..< Suc (unat b)]"

definition block_answers :: "anvil \<Rightarrow> u64 list \<Rightarrow> block_header list" where
  "block_answers N ns = List.map_filter (\<lambda>n. case an_by_number N n of Inr (Some b) \<Rightarrow> Some b | _ \<Rightarrow> None) ns"

definition http_backfill :: "anvil \<Rightarrow> network \<Rightarrow> sync_info \<Rightarrow> dev_error + block_header list" where
  "http_backfill N n i =
    (case http_connects N n of
      Inl e \<Rightarrow> Inl e
    | Inr _ \<Rightarrow> if si_number i < start_block i then Inr [] else Inr (block_answers N (blocks_between (start_block i) (si_number i))))"

definition ws_backfill :: "anvil \<Rightarrow> network \<Rightarrow> sync_info \<Rightarrow> dev_error + block_header list" where
  "ws_backfill N n i =
    (case ws_connects N n of
      Inl e \<Rightarrow> Inl e
    | Inr _ \<Rightarrow> Inr (block_answers N (blocks_between (start_block i) (si_number i))))"

fun backfill_blocks :: "anvil \<Rightarrow> anvil_provider \<Rightarrow> sync_info \<Rightarrow> dev_error + block_header list" where
  "backfill_blocks N (AnvilHttp n) i = http_backfill N n i"
| "backfill_blocks N (AnvilWs n) i = ws_backfill N n i"

definition http_subscribe :: "anvil \<Rightarrow> network \<Rightarrow> dev_error + block_header list" where
  "http_subscribe N n =
    (case http_connects N n of
      Inl e \<Rightarrow> Inl e
    | Inr _ \<Rightarrow> map_sum NodeFails
        (\<lambda>batches. concat (map (List.map_filter (\<lambda>(_, answer). case answer of Inr (Some b) \<Rightarrow> Some b | _ \<Rightarrow> None)) batches))
        (an_watch_blocks N))"

definition ws_subscribe :: "anvil \<Rightarrow> network \<Rightarrow> dev_error + block_header list" where
  "ws_subscribe N n =
    (case ws_connects N n of
      Inl e \<Rightarrow> Inl e
    | Inr _ \<Rightarrow> map_sum NodeFails id (an_subscribe_blocks N))"

fun subscribe_blocks :: "anvil \<Rightarrow> anvil_provider \<Rightarrow> dev_error + block_header list" where
  "subscribe_blocks N (AnvilHttp n) = http_subscribe N n"
| "subscribe_blocks N (AnvilWs n) = ws_subscribe N n"

section \<open>The worker\<close>

datatype dev_msg = Reset | CaughtUp | Block b256 u64

datatype stream_item = BlockHeader block_header | StreamMsg dev_msg

definition dev_msg_of :: "block_header \<Rightarrow> dev_msg" where
  "dev_msg_of h = Block (bh_hash h) (bh_number h)"

fun item_msg :: "stream_item \<Rightarrow> dev_msg" where
  "item_msg (BlockHeader h) = dev_msg_of h"
| "item_msg (StreamMsg m) = m"

definition base_delay :: u64 where
  "base_delay = 100"

text \<open>\<open>hash\<close> stands for the hash of the network's name, the number of retries and the time.\<close>

definition random_jitter :: "(u32 \<Rightarrow> u64) \<Rightarrow> u64 \<Rightarrow> u32 \<Rightarrow> u64" where
  "random_jitter hash max_jitter retry_count = hash retry_count mod max_jitter"

definition retry_delay :: "u32 \<Rightarrow> u64" where
  "retry_delay retry_count = base_delay * 2 ^ unat (min retry_count 6)"

text \<open>
  Waiting for the node: the quit signal comes, or an attempt answers or times out (\<open>None\<close>); after an
  attempt that failed the quit signal may come during the delay. The result is \<open>None\<close> while the
  worker waits; the delays are in milliseconds.
\<close>

datatype wait_event = WaitQuit | Attempt "(string + sync_info) option" bool

fun wait_for_node :: "(u32 \<Rightarrow> u64) \<Rightarrow> u32 \<Rightarrow> wait_event list \<Rightarrow> (dev_error + sync_info) option \<times> u64 list" where
  "wait_for_node hash n [] = (None, [])"
| "wait_for_node hash n (WaitQuit # es) = (Some (Inl QuitWhileWaiting), [])"
| "wait_for_node hash n (Attempt answer quits # es) =
    (case answer of
      Some (Inr i) \<Rightarrow> (Some (Inr i), [])
    | _ \<Rightarrow>
        (let retry_count = n + 1;
             delay = retry_delay retry_count;
             jitter = random_jitter hash (delay div 4) retry_count in
          if quits then (Some (Inl QuitWhileWaiting), [delay + jitter])
          else apsnd (Cons (delay + jitter)) (wait_for_node hash retry_count es)))"

text \<open>The node's answer when it is asked for a block by its hash: an error, or whether it has it.\<close>

type_synonym knows = "b256 \<Rightarrow> string + bool"

definition validate_checkpoint :: "knows \<Rightarrow> b256 option \<Rightarrow> dev_error + b256 option" where
  "validate_checkpoint knows checkpoint =
    (case checkpoint of
      None \<Rightarrow> Inr None
    | Some h \<Rightarrow>
        (case knows h of
          Inl e \<Rightarrow> Inl (NodeFails e)
        | Inr has \<Rightarrow> if has then Inr (Some h) else Inl Reverted))"

definition validate_and_update_checkpoint :: "knows \<Rightarrow> b256 option \<Rightarrow> b256 \<Rightarrow> dev_error + b256 option" where
  "validate_and_update_checkpoint knows checkpoint new_checkpoint =
    (case validate_checkpoint knows checkpoint of Inl e \<Rightarrow> Inl e | Inr _ \<Rightarrow> Inr (Some new_checkpoint))"

text \<open>
  The branches of the loop: the quit signal, the tick of the interval, the next item of the stream,
  nothing for three seconds. \<open>listens\<close> is whether the consumer's task is still there; the stream that
  has no more items has ended.
\<close>

datatype loop_event = LoopQuit | Tick knows | Next knows bool | LoopTimeout

definition send_msg :: "bool \<Rightarrow> dev_msg \<Rightarrow> dev_error + dev_msg" where
  "send_msg listens m = (if listens then Inr m else Inl ConsumerGone)"

definition take_item :: "knows \<Rightarrow> bool \<Rightarrow> b256 option \<Rightarrow> stream_item \<Rightarrow> dev_error + b256 option \<times> dev_msg" where
  "take_item knows listens checkpoint item =
    (case item of
      BlockHeader h \<Rightarrow>
        (case validate_and_update_checkpoint knows checkpoint (bh_hash h) of
          Inl e \<Rightarrow> Inl e
        | Inr checkpoint' \<Rightarrow> map_sum id (Pair checkpoint') (send_msg listens (dev_msg_of h)))
    | StreamMsg m \<Rightarrow> map_sum id (Pair checkpoint) (send_msg listens m))"

fun run_loop :: "loop_event list \<Rightarrow> b256 option \<Rightarrow> stream_item list \<Rightarrow> (dev_error + unit) option \<times> dev_msg list" where
  "run_loop [] checkpoint items = (None, [])"
| "run_loop (LoopQuit # es) checkpoint items = (Some (Inr ()), [])"
| "run_loop (LoopTimeout # es) checkpoint items = run_loop es checkpoint items"
| "run_loop (Tick knows # es) checkpoint items =
    (case validate_checkpoint knows checkpoint of
      Inl e \<Rightarrow> (Some (Inl e), [])
    | Inr checkpoint' \<Rightarrow> run_loop es checkpoint' items)"
| "run_loop (Next knows listens # es) checkpoint [] = (Some (Inl StreamEnded), [])"
| "run_loop (Next knows listens # es) checkpoint (item # items) =
    (case take_item knows listens checkpoint item of
      Inl e \<Rightarrow> (Some (Inl e), [])
    | Inr (checkpoint', m) \<Rightarrow> apsnd (Cons m) (run_loop es checkpoint' items))"

definition merged_stream :: "block_header list \<Rightarrow> block_header list \<Rightarrow> stream_item list" where
  "merged_stream backfill live = map BlockHeader backfill @ [StreamMsg CaughtUp] @ map BlockHeader live"

text \<open>What one run meets: while it waits, the node, and in the loop.\<close>

record run_input =
  ri_waits :: "wait_event list"
  ri_anvil :: anvil
  ri_loop :: "loop_event list"

definition run_once :: "(u32 \<Rightarrow> u64) \<Rightarrow> anvil_provider \<Rightarrow> run_input \<Rightarrow> (dev_error + unit) option \<times> dev_msg list" where
  "run_once hash p r = apsnd (Cons Reset)
    (case fst (wait_for_node hash 0 (ri_waits r)) of
      None \<Rightarrow> (None, [])
    | Some (Inl e) \<Rightarrow> (Some (Inl e), [])
    | Some (Inr i) \<Rightarrow>
        (case provider_connects (ri_anvil r) p of
          Inl e \<Rightarrow> (Some (Inl e), [])
        | Inr _ \<Rightarrow>
            (case backfill_blocks (ri_anvil r) p i of
              Inl e \<Rightarrow> (Some (Inl e), [])
            | Inr backfill \<Rightarrow>
                (case subscribe_blocks (ri_anvil r) p of
                  Inl e \<Rightarrow> (Some (Inl e), [])
                | Inr live \<Rightarrow> run_loop (ri_loop r) None (merged_stream backfill live)))))"

text \<open>
  Runs follow each other until one returns. The receiver of the quit signal may be polled only
  until it is ready: a run that waits after a run that was told to quit panics.
\<close>

datatype worker_end = StillRuns | Stopped | Panicked

fun run_worker :: "(u32 \<Rightarrow> u64) \<Rightarrow> anvil_provider \<Rightarrow> bool \<Rightarrow> run_input list \<Rightarrow> worker_end \<times> dev_msg list list" where
  "run_worker hash p told [] = (StillRuns, [])"
| "run_worker hash p told (r # rs) =
    (if told then (Panicked, [[Reset]])
     else case run_once hash p r of
       (None, ms) \<Rightarrow> (StillRuns, [ms])
     | (Some (Inr _), ms) \<Rightarrow> (Stopped, [ms])
     | (Some (Inl e), ms) \<Rightarrow> apsnd (Cons ms) (run_worker hash p (e = QuitWhileWaiting) rs))"

section \<open>One worker for each watched network\<close>

text \<open>The abstract table: what each identifier was last watched for.\<close>

fun watched :: "(probe \<times> internal_msg) list \<Rightarrow> (network_id \<rightharpoonup> network) \<Rightarrow> network_id \<rightharpoonup> network" where
  "watched [] w = w"
| "watched ((probe, m) # ms) w = watched ms
    (case m of
      NetworkRemoved n \<Rightarrow> w(net_id n := None)
    | NetworkAdded n \<Rightarrow> if is_dev probe n = Inr True then w(net_id n \<mapsto> n) else w
    | NetworkUpdated n \<Rightarrow> if is_dev probe n = Inr True then w(net_id n \<mapsto> n) else w
    | _ \<Rightarrow> w)"

definition live_networks :: "devnet \<Rightarrow> network list" where
  "live_networks s = map fst (filter snd (dw_tasks s))"

definition abs_watched :: "devnet \<Rightarrow> network_id \<rightharpoonup> network" where
  "abs_watched s i = map_option (\<lambda>t. fst (dw_tasks s ! t)) (hm_get (dw_workers s) i)"

text \<open>The table names exactly the tasks that were not aborted.\<close>

definition devnet_ok :: "devnet \<Rightarrow> bool" where
  "devnet_ok s \<longleftrightarrow>
    (\<forall>i t. hm_get (dw_workers s) i = Some t \<longrightarrow> t < length (dw_tasks s) \<and> snd (dw_tasks s ! t) \<and> net_id (fst (dw_tasks s ! t)) = i)
    \<and> (\<forall>t < length (dw_tasks s). snd (dw_tasks s ! t) \<longrightarrow> hm_get (dw_workers s) (net_id (fst (dw_tasks s ! t))) = Some t)"

lemma devnet_okD:
  assumes "devnet_ok s"
  shows "hm_get (dw_workers s) i = Some t \<Longrightarrow> t < length (dw_tasks s) \<and> snd (dw_tasks s ! t) \<and> net_id (fst (dw_tasks s ! t)) = i"
    and "t < length (dw_tasks s) \<Longrightarrow> snd (dw_tasks s ! t) \<Longrightarrow> hm_get (dw_workers s) (net_id (fst (dw_tasks s ! t))) = Some t"
  using assms unfolding devnet_ok_def by blast+

lemma watch_refines:
  assumes ok: "devnet_ok s" and new: "hm_get (dw_workers s) (net_id n) = None"
  shows "devnet_ok (watch n s)" "abs_watched (watch n s) = (abs_watched s)(net_id n \<mapsto> n)"
proof -
  let ?t = "length (dw_tasks s)"
  have eq: "watch n s = s\<lparr>dw_workers := hm_insert (net_id n) ?t (dw_workers s), dw_tasks := dw_tasks s @ [(n, True)]\<rparr>"
    using new by (simp add: watch_def hm_contains_def)
  show "devnet_ok (watch n s)"
    unfolding devnet_ok_def
  proof (intro conjI allI impI)
    fix i t
    assume "hm_get (dw_workers (watch n s)) i = Some t"
    then have "(i = net_id n \<and> t = ?t) \<or> hm_get (dw_workers s) i = Some t" by (auto simp: eq split: if_splits)
    with devnet_okD(1) [OF ok, of i t]
    show "t < length (dw_tasks (watch n s))" "snd (dw_tasks (watch n s) ! t)" "net_id (fst (dw_tasks (watch n s) ! t)) = i"
      by (auto simp: eq nth_append)
  next
    fix t
    assume "t < length (dw_tasks (watch n s))" "snd (dw_tasks (watch n s) ! t)"
    then show "hm_get (dw_workers (watch n s)) (net_id (fst (dw_tasks (watch n s) ! t))) = Some t"
      using devnet_okD(2) [OF ok, of t] new by (cases "t < ?t") (auto simp: eq nth_append)
  qed
  show "abs_watched (watch n s) = (abs_watched s)(net_id n \<mapsto> n)"
  proof
    fix i
    show "abs_watched (watch n s) i = ((abs_watched s)(net_id n \<mapsto> n)) i"
      using devnet_okD(1) [OF ok, of i] by (cases "hm_get (dw_workers s) i") (auto simp: abs_watched_def eq nth_append)
  qed
qed

lemma unwatch_refines:
  assumes ok: "devnet_ok s"
  shows "devnet_ok (unwatch n s)" "abs_watched (unwatch n s) = (abs_watched s)(net_id n := None)"
    and "hm_get (dw_workers (unwatch n s)) (net_id n) = None"
proof -
  show "hm_get (dw_workers (unwatch n s)) (net_id n) = None" by (simp add: unwatch_def split: option.splits)
  show "devnet_ok (unwatch n s)"
  proof (cases "hm_get (dw_workers s) (net_id n)")
    case (Some t)
    have other: "u \<noteq> t" if "hm_get (dw_workers s) i = Some u" "i \<noteq> net_id n" for i u
      using devnet_okD(1) [OF ok that(1)] devnet_okD(1) [OF ok Some] that(2) by auto
    have eq: "dw_workers (unwatch n s) = hm_remove (net_id n) (dw_workers s)"
      "dw_tasks (unwatch n s) = (dw_tasks s)[t := (fst (dw_tasks s ! t), False)]"
      by (simp_all add: unwatch_def Some)
    show ?thesis
      unfolding devnet_ok_def
    proof (intro conjI allI impI)
      fix i u
      assume "hm_get (dw_workers (unwatch n s)) i = Some u"
      then have u: "hm_get (dw_workers s) i = Some u" "i \<noteq> net_id n" by (auto simp: eq split: if_splits)
      from devnet_okD(1) [OF ok u(1)] other [OF u]
      show "u < length (dw_tasks (unwatch n s))" "snd (dw_tasks (unwatch n s) ! u)" "net_id (fst (dw_tasks (unwatch n s) ! u)) = i"
        by (auto simp: eq)
    next
      fix u
      assume u: "u < length (dw_tasks (unwatch n s))" "snd (dw_tasks (unwatch n s) ! u)"
      then have "u \<noteq> t" by (auto simp: eq)
      with u devnet_okD(2) [OF ok, of u] Some show "hm_get (dw_workers (unwatch n s)) (net_id (fst (dw_tasks (unwatch n s) ! u))) = Some u"
        by (auto simp: eq)
    qed
  qed (use ok in \<open>simp add: unwatch_def\<close>)
  show "abs_watched (unwatch n s) = (abs_watched s)(net_id n := None)"
  proof
    fix i
    show "abs_watched (unwatch n s) i = ((abs_watched s)(net_id n := None)) i"
    proof (cases "hm_get (dw_workers s) (net_id n)")
      case None
      then show ?thesis by (simp add: unwatch_def abs_watched_def)
    next
      case (Some t)
      show ?thesis
        using devnet_okD(1) [OF ok, of i] devnet_okD(1) [OF ok Some]
        by (cases "hm_get (dw_workers s) i") (auto simp: unwatch_def abs_watched_def Some nth_list_update)
    qed
  qed
qed

lemma devnet_run_refines:
  "devnet_ok s \<Longrightarrow> devnet_ok (devnet_run ms s) \<and> abs_watched (devnet_run ms s) = watched ms (abs_watched s)"
proof (induction ms s rule: devnet_run.induct)
  case (2 probe m ms s)
  have again: "devnet_ok (watch n (unwatch n s))" "abs_watched (watch n (unwatch n s)) = (abs_watched s)(net_id n \<mapsto> n)" for n
    using watch_refines [OF unwatch_refines(1) [OF "2.prems"] unwatch_refines(3) [OF "2.prems"], of n]
      unwatch_refines(2) [OF "2.prems", of n] by auto
  have "devnet_ok (devnet_receiver probe m s)" "watched ((probe, m) # ms) (abs_watched s) = watched ms (abs_watched (devnet_receiver probe m s))"
    by (simp_all add: devnet_receiver_def again unwatch_refines [OF "2.prems"] "2.prems" split: internal_msg.split)
  with "2.IH" show ?case by simp
qed simp

lemma live_networks_table:
  assumes ok: "devnet_ok s"
  shows "n \<in> set (live_networks s) \<longleftrightarrow> abs_watched s (net_id n) = Some n"
proof -
  have "n \<in> set (live_networks s) \<longleftrightarrow> (\<exists>t < length (dw_tasks s). snd (dw_tasks s ! t) \<and> fst (dw_tasks s ! t) = n)"
    unfolding live_networks_def set_map set_filter image_iff in_set_conv_nth by blast
  also have "\<dots> \<longleftrightarrow> (\<exists>t. hm_get (dw_workers s) (net_id n) = Some t \<and> fst (dw_tasks s ! t) = n)"
    using devnet_okD [OF ok] by blast
  also have "\<dots> \<longleftrightarrow> abs_watched s (net_id n) = Some n" by (simp add: abs_watched_def)
  finally show ?thesis .
qed

lemma live_networks_distinct:
  assumes ok: "devnet_ok s"
  shows "distinct (map net_id (live_networks s))"
proof -
  have "distinct (map (net_id \<circ> fst) (filter snd xs))"
    if "\<And>t u. t < length xs \<Longrightarrow> u < length xs \<Longrightarrow> snd (xs ! t) \<Longrightarrow> snd (xs ! u) \<Longrightarrow> net_id (fst (xs ! t)) = net_id (fst (xs ! u)) \<Longrightarrow> t = u"
    for xs :: "(network \<times> bool) list"
    using that
  proof (induction xs)
    case (Cons x xs)
    have "distinct (map (net_id \<circ> fst) (filter snd xs))"
    proof (rule Cons.IH)
      fix t u
      assume "t < length xs" "u < length xs" "snd (xs ! t)" "snd (xs ! u)" "net_id (fst (xs ! t)) = net_id (fst (xs ! u))"
      with Cons.prems [of "Suc t" "Suc u"] show "t = u" by simp
    qed
    moreover have "net_id (fst x) \<noteq> net_id (fst y)" if "snd x" "y \<in> set xs" "snd y" for y
    proof
      assume eq: "net_id (fst x) = net_id (fst y)"
      from that(2) obtain t where "t < length xs" "y = xs ! t" by (auto simp: in_set_conv_nth)
      with Cons.prems [of 0 "Suc t"] that eq show False by simp
    qed
    ultimately show ?case by (auto simp: comp_def)
  qed simp
  from this [of "dw_tasks s"] show ?thesis
    using devnet_okD(2) [OF ok] by (simp add: live_networks_def) (metis option.inject)
qed

text \<open>C28. After any messages, every identifier has at most one worker, and the networks that have one are
  exactly those which the last message about their identifier made watched: the network as it was
  added or updated when it was last found to be a development network, until it is removed.\<close>

theorem one_worker_per_network:
  "distinct (map net_id (live_networks (devnet_run ms devnet_new)))
    \<and> (n \<in> set (live_networks (devnet_run ms devnet_new))) = (watched ms Map.empty (net_id n) = Some n)"
proof -
  have "devnet_ok devnet_new" "abs_watched devnet_new = Map.empty"
    by (auto simp: devnet_ok_def devnet_new_def abs_watched_def fun_eq_iff)
  with devnet_run_refines [of devnet_new ms] have "devnet_ok (devnet_run ms devnet_new)"
    "abs_watched (devnet_run ms devnet_new) = watched ms Map.empty" by auto
  then show ?thesis using live_networks_distinct live_networks_table by metis
qed

text \<open>A network that stops being a development network keeps the worker of its old version.\<close>

lemma stale_worker_after_update:
  assumes "is_dev probe n = Inr True" "is_dev probe n' \<noteq> Inr True" "net_id n' = net_id n"
  shows "devnet_run [(probe, NetworkAdded n), (probe, NetworkUpdated n')] devnet_new
    = devnet_run [(probe, NetworkAdded n)] devnet_new"
  using assms by (simp add: devnet_receiver_def)

section \<open>Providers\<close>

lemma block_answers_member: "b \<in> set (block_answers N ns) \<longleftrightarrow> (\<exists>m \<in> set ns. an_by_number N m = Inr (Some b))"
  unfolding block_answers_def
proof (induction ns)
  case (Cons n ns)
  then show ?case by (cases "an_by_number N n") (auto simp: map_filter_simps split: option.splits)
qed (simp add: map_filter_simps)

text \<open>What the worker relies on in a provider: backfilling gives blocks of the node, in the order of
  their numbers, and leaves out none that the node answers.\<close>

locale block_source =
  fixes connects :: "anvil \<Rightarrow> network \<Rightarrow> dev_error + unit"
    and backfill :: "anvil \<Rightarrow> network \<Rightarrow> sync_info \<Rightarrow> dev_error + block_header list"
  assumes backfill_ok: "connects N n = Inr u \<Longrightarrow> backfill N n i = Inr (block_answers N (blocks_between (start_block i) (si_number i)))"
    and backfill_fails: "connects N n = Inl e \<Longrightarrow> backfill N n i = Inl e"
begin

lemma backfill_member:
  assumes "backfill N n i = Inr bs"
  shows "b \<in> set bs \<longleftrightarrow> (\<exists>m. start_block i \<le> m \<and> m \<le> si_number i \<and> an_by_number N m = Inr (Some b))"
proof -
  have "bs = block_answers N (blocks_between (start_block i) (si_number i))"
    using assms backfill_ok [of N n] backfill_fails [of N n] by (cases "connects N n") auto
  moreover have "m \<in> set (blocks_between x y) \<longleftrightarrow> x \<le> m \<and> m \<le> y" for m x y :: u64
  proof
    assume "x \<le> m \<and> m \<le> y"
    then have "unat m \<in> set [unat x ..< Suc (unat y)]" by (simp only: set_upt atLeastLessThan_iff less_Suc_eq_le word_le_nat_alt)
    then have "of_nat (unat m) \<in> set (blocks_between x y)" unfolding blocks_between_def set_map by (rule imageI)
    then show "m \<in> set (blocks_between x y)" by simp
  next
    assume "m \<in> set (blocks_between x y)"
    then obtain k where k: "m = of_nat k" "unat x \<le> k" "k \<le> unat y" by (auto simp: blocks_between_def)
    have "unat y < 2 ^ LENGTH(64)" by (rule unsigned_less)
    with k(3) have "k < 2 ^ 64" by simp
    then have "unat m = k" using k(1) by (simp add: unat_of_nat take_bit_nat_eq_self)
    with k show "x \<le> m \<and> m \<le> y" by (simp add: word_le_nat_alt)
  qed
  ultimately show ?thesis by (auto simp: block_answers_member)
qed

end

lemma no_blocks_between: "b < a \<Longrightarrow> blocks_between a b = []"
  by (simp add: blocks_between_def word_less_nat_alt)

interpretation http_source: block_source http_connects http_backfill
  by unfold_locales (simp_all add: http_backfill_def no_blocks_between block_answers_def map_filter_simps)

interpretation ws_source: block_source ws_connects ws_backfill
  by unfold_locales (simp_all add: ws_backfill_def)

lemma backfill_blocks_member:
  "backfill_blocks N p i = Inr bs \<Longrightarrow>
    b \<in> set bs \<longleftrightarrow> (\<exists>m. start_block i \<le> m \<and> m \<le> si_number i \<and> an_by_number N m = Inr (Some b))"
  by (cases p) (simp_all add: http_source.backfill_member ws_source.backfill_member)

section \<open>What a run sends\<close>

text \<open>The hashes of the blocks among messages, in order.\<close>

definition blocks_sent :: "dev_msg list \<Rightarrow> b256 list" where
  "blocks_sent ms = List.map_filter (\<lambda>m. case m of Block h _ \<Rightarrow> Some h | _ \<Rightarrow> None) ms"

text \<open>What the node answers each time the loop takes the next item of the stream.\<close>

fun next_answers :: "loop_event list \<Rightarrow> knows list" where
  "next_answers [] = []"
| "next_answers (Next knows listens # es) = knows # next_answers es"
| "next_answers (_ # es) = next_answers es"

text \<open>
  Every block among the messages, after a first one, was sent when the node had just answered that it still
  has the block sent before: the message of the place \<open>j\<close> is sent as the loop takes the item of that place.
\<close>

definition sent_checked :: "loop_event list \<Rightarrow> b256 list \<Rightarrow> dev_msg list \<Rightarrow> bool" where
  "sent_checked es first ms = (length ms \<le> length (next_answers es) \<and>
    (\<forall>j < length ms. \<forall>h n. ms ! j = Block h n \<longrightarrow> first @ blocks_sent (take j ms) \<noteq> [] \<longrightarrow>
      (next_answers es ! j) (last (first @ blocks_sent (take j ms))) = Inr True))"

lemma blocks_sent_simps [simp]:
  "blocks_sent [] = []"
  "blocks_sent (Reset # ms) = blocks_sent ms"
  "blocks_sent (CaughtUp # ms) = blocks_sent ms"
  "blocks_sent (Block h n # ms) = h # blocks_sent ms"
  by (simp_all add: blocks_sent_def map_filter_simps)

lemma validate_checkpoint_ok: "validate_checkpoint knows c = Inr c' \<Longrightarrow> c' = c \<and> (\<forall>h. c = Some h \<longrightarrow> knows h = Inr True)"
  by (auto simp: validate_checkpoint_def split: option.splits sum.splits if_splits)

lemma take_item_ok:
  assumes "take_item knows listens c item = Inr (c', m)"
  shows "m = item_msg item \<and> (case item of
      BlockHeader h \<Rightarrow> c' = Some (bh_hash h) \<and> m = Block (bh_hash h) (bh_number h) \<and> (\<forall>g. c = Some g \<longrightarrow> knows g = Inr True)
    | StreamMsg _ \<Rightarrow> c' = c)"
  using assms validate_checkpoint_ok [of knows c]
  by (auto simp: take_item_def validate_and_update_checkpoint_def send_msg_def dev_msg_of_def map_sum_eq_iff
      split: stream_item.splits sum.splits if_splits)

definition stream_ok :: "stream_item list \<Rightarrow> bool" where
  "stream_ok items \<longleftrightarrow> (\<forall>m. StreamMsg m \<in> set items \<longrightarrow> m = CaughtUp)"

lemma sent_checked_Nil [simp]: "sent_checked es first []"
  by (simp add: sent_checked_def)

lemma sent_checked_skip: "next_answers (e # es) = next_answers es \<Longrightarrow> sent_checked (e # es) first ms = sent_checked es first ms"
  by (simp add: sent_checked_def)

lemma sent_checked_next:
  assumes "sent_checked es (first @ blocks_sent [m]) ms"
    and "\<And>h n. m = Block h n \<Longrightarrow> first \<noteq> [] \<Longrightarrow> knows (last first) = Inr True"
  shows "sent_checked (Next knows listens # es) first (m # ms)"
proof -
  have cons: "blocks_sent (m # xs) = blocks_sent [m] @ blocks_sent xs" for xs
    by (cases m) simp_all
  have "(next_answers (Next knows listens # es) ! j) (last (first @ blocks_sent (take j (m # ms)))) = Inr True"
    if j: "j < length (m # ms)" "(m # ms) ! j = Block h n" "first @ blocks_sent (take j (m # ms)) \<noteq> []" for j h n
  proof (cases j)
    case 0
    with j assms(2) show ?thesis by simp
  next
    case (Suc i)
    with j assms(1) show ?thesis by (simp add: sent_checked_def cons [of "take i ms"])
  qed
  with assms(1) show ?thesis by (simp add: sent_checked_def)
qed

lemma run_loop_sends:
  "run_loop es c items = (r, ms) \<Longrightarrow> stream_ok items \<Longrightarrow>
    (\<exists>k. ms = map item_msg (take k items)) \<and> sent_checked es (case c of None \<Rightarrow> [] | Some g \<Rightarrow> [g]) ms"
proof (induction es c items arbitrary: r ms rule: run_loop.induct)
  case (3 es c items)
  then show ?case by (simp add: sent_checked_skip)
next
  case (4 knows es c items)
  show ?case
  proof (cases "validate_checkpoint knows c")
    case (Inl e)
    with "4.prems" show ?thesis by (auto intro: exI [of _ 0])
  next
    case (Inr c')
    from validate_checkpoint_ok [OF this] have "c' = c" by simp
    with "4.IH" [OF Inr] "4.prems" Inr show ?thesis by (simp add: sent_checked_skip)
  qed
next
  case (6 knows listens es c item items)
  let ?first = "case c of None \<Rightarrow> [] | Some g \<Rightarrow> [g]"
  show ?case
  proof (cases "take_item knows listens c item")
    case (Inl e)
    with "6.prems" show ?thesis by (auto intro: exI [of _ 0])
  next
    case (Inr q)
    obtain c' m where q: "q = (c', m)" by (cases q)
    obtain r' ms' where rec: "run_loop es c' items = (r', ms')" by (cases "run_loop es c' items")
    have ms: "ms = m # ms'" using "6.prems"(1) by (simp add: Inr q rec)
    have items: "stream_ok items" using "6.prems"(2) by (auto simp: stream_ok_def)
    have IH: "\<exists>k. ms' = map item_msg (take k items)" "sent_checked es (case c' of None \<Rightarrow> [] | Some g \<Rightarrow> [g]) ms'"
      using "6.IH" [OF Inr q [symmetric] rec items] q by auto
    note taken = take_item_ok [OF Inr [unfolded q]]
    from IH(1) obtain k where "ms' = map item_msg (take k items)" by blast
    with taken ms have "ms = map item_msg (take (Suc k) (item # items))" by simp
    moreover have "sent_checked (Next knows listens # es) ?first ms"
      unfolding ms
    proof (rule sent_checked_next)
      show "knows (last ?first) = Inr True" if "m = Block h n" "?first \<noteq> []" for h n
      proof -
        from that taken have "\<forall>g. c = Some g \<longrightarrow> knows g = Inr True"
          using "6.prems"(2) by (auto simp: stream_ok_def split: stream_item.splits)
        with that(2) show ?thesis by (cases c) simp_all
      qed
      have "sent_checked es [f, g] ms'" if "sent_checked es [g] ms'" for f g
        using that by (simp add: sent_checked_def)
      with IH(2) taken "6.prems"(2) show "sent_checked es (?first @ blocks_sent [m]) ms'"
        by (cases item) (auto simp: stream_ok_def split: option.splits)
    qed
    ultimately show ?thesis by blast
  qed
qed (auto intro: exI [of _ 0])

lemma stream_ok_merged: "stream_ok (merged_stream backfill live)"
  by (auto simp: stream_ok_def merged_stream_def)

lemma run_once_cases:
  assumes "run_once hash p r = (x, ms)"
  obtains "ms = [Reset]" "x \<noteq> Some (Inr ())"
  | i backfill live ms' where "fst (wait_for_node hash 0 (ri_waits r)) = Some (Inr i)"
      "backfill_blocks (ri_anvil r) p i = Inr backfill" "subscribe_blocks (ri_anvil r) p = Inr live"
      "run_loop (ri_loop r) None (merged_stream backfill live) = (x, ms')" "ms = Reset # ms'"
proof (cases "\<exists>i backfill live. fst (wait_for_node hash 0 (ri_waits r)) = Some (Inr i) \<and> provider_connects (ri_anvil r) p = Inr ()
    \<and> backfill_blocks (ri_anvil r) p i = Inr backfill \<and> subscribe_blocks (ri_anvil r) p = Inr live")
  case True
  then obtain i backfill live where i: "fst (wait_for_node hash 0 (ri_waits r)) = Some (Inr i)" "provider_connects (ri_anvil r) p = Inr ()"
    "backfill_blocks (ri_anvil r) p i = Inr backfill" "subscribe_blocks (ri_anvil r) p = Inr live" by blast
  obtain x' ms' where "run_loop (ri_loop r) None (merged_stream backfill live) = (x', ms')" by (rule prod.exhaust)
  with assms i show ?thesis by (intro that(2)) (auto simp: run_once_def)
next
  case False
  with assms show ?thesis
    by (intro that(1)) (auto simp: run_once_def split: option.splits sum.splits)
qed

text \<open>C29. A run sends a reset and then, if the node answers, a beginning of the stream it was given: the
  backfilled blocks in order, the notice that it has caught up, the new blocks, none left out and none
  twice. When a block is sent, the node has just answered, as its item was taken from the stream, that it still
  has the last block sent before it.\<close>

theorem run_sends_checked_stream:
  assumes "run_once hash p r = (x, ms)"
  shows "\<exists>sent. ms = Reset # sent
    \<and> (sent = [] \<or> (\<exists>i backfill live k. fst (wait_for_node hash 0 (ri_waits r)) = Some (Inr i)
        \<and> backfill_blocks (ri_anvil r) p i = Inr backfill \<and> subscribe_blocks (ri_anvil r) p = Inr live
        \<and> sent = map item_msg (take k (merged_stream backfill live))))
    \<and> (\<forall>j < length sent. \<forall>h n. sent ! j = Block h n \<longrightarrow> blocks_sent (take j sent) \<noteq> [] \<longrightarrow>
        j < length (next_answers (ri_loop r)) \<and> (next_answers (ri_loop r) ! j) (last (blocks_sent (take j sent))) = Inr True)"
  using assms
proof (cases rule: run_once_cases)
  case (2 i backfill live ms')
  from run_loop_sends [OF 2(4) stream_ok_merged] obtain k
    where k: "ms' = map item_msg (take k (merged_stream backfill live))" and c: "sent_checked (ri_loop r) [] ms'"
    by auto
  from c have "\<forall>j < length ms'. \<forall>h n. ms' ! j = Block h n \<longrightarrow> blocks_sent (take j ms') \<noteq> [] \<longrightarrow>
        j < length (next_answers (ri_loop r)) \<and> (next_answers (ri_loop r) ! j) (last (blocks_sent (take j ms'))) = Inr True"
    unfolding sent_checked_def by (simp add: less_le_trans)
  with 2(1-3,5) k show ?thesis by (intro exI [of _ ms']) blast
qed simp

definition toy_anvil :: anvil where
  "toy_anvil = \<lparr>an_connect = (\<lambda>_. True), an_by_number = (\<lambda>n. Inr (Some \<lparr>bh_hash = ucast n, bh_number = n\<rparr>)),
    an_watch_blocks = Inr [[(3, Inr (Some \<lparr>bh_hash = 3, bh_number = 3\<rparr>))], [(4, Inr None)]], an_subscribe_blocks = Inl ''none''\<rparr>"

definition toy_dev_run :: "knows \<Rightarrow> run_input" where
  "toy_dev_run knows = \<lparr>ri_waits = [Attempt None False, Attempt (Some (Inr \<lparr>si_number = 2, si_hash = 2, si_fork_block_number = None\<rparr>)) False],
    ri_anvil = toy_anvil,
    ri_loop = [Tick knows, Next knows True, Next knows True, Next knows True, Next knows True, LoopTimeout, LoopQuit]\<rparr>"

lemma toy_blocks_between: "blocks_between 1 2 = [1, 2]"
  by (simp add: blocks_between_def upt_conv_Cons)

lemma toy_dev_run_value:
  "run_once (\<lambda>_. 7) (AnvilHttp (anvil 0)) (toy_dev_run (\<lambda>h. Inr (h \<noteq> 3)))
    = (Some (Inr ()), [Reset, Block 1 1, Block 2 2, CaughtUp, Block 3 3])"
  by (simp add: run_once_def toy_dev_run_def toy_anvil_def http_backfill_def http_subscribe_def http_connects_def start_block_def
      toy_blocks_between block_answers_def merged_stream_def take_item_def validate_and_update_checkpoint_def validate_checkpoint_def
      send_msg_def dev_msg_of_def Let_def)

theorem run_sends_checked_stream_witness:
  "(next_answers (ri_loop (toy_dev_run (\<lambda>h. Inr (h \<noteq> 3)))) ! 3) 2 = Inr True"
proof -
  obtain sent where s: "[Reset, Block 1 1, Block 2 2, CaughtUp, Block 3 3] = Reset # sent"
    and c: "\<forall>j < length sent. \<forall>h n. sent ! j = Block h n \<longrightarrow> blocks_sent (take j sent) \<noteq> [] \<longrightarrow>
      j < length (next_answers (ri_loop (toy_dev_run (\<lambda>h. Inr (h \<noteq> 3)))))
      \<and> (next_answers (ri_loop (toy_dev_run (\<lambda>h. Inr (h \<noteq> 3)))) ! j) (last (blocks_sent (take j sent))) = Inr True"
    using run_sends_checked_stream [OF toy_dev_run_value] by blast
  have "sent = [Block 1 1, Block 2 2, CaughtUp, Block 3 3]" using s by simp
  with c [rule_format, of 3 3 3] show ?thesis by simp
qed

text \<open>The first block that comes after the last one sent is gone from the node ends the run.\<close>

definition lost_by :: "loop_event list \<Rightarrow> b256 \<Rightarrow> bool" where
  "lost_by es h \<longleftrightarrow> (\<forall>e \<in> set es. case e of Tick knows \<Rightarrow> knows h \<noteq> Inr True | Next knows _ \<Rightarrow> knows h \<noteq> Inr True | _ \<Rightarrow> True)"

lemma validate_lost: "knows h \<noteq> Inr True \<Longrightarrow> \<exists>e. validate_checkpoint knows (Some h) = Inl e"
  by (auto simp: validate_checkpoint_def split: sum.splits)

lemma lost_block_ends_run:
  "run_loop es (Some h) items = (r, ms) \<Longrightarrow> stream_ok items \<Longrightarrow> lost_by es h \<Longrightarrow>
    blocks_sent ms = [] \<and> ((\<exists>knows. Tick knows \<in> set es) \<longrightarrow> LoopQuit \<notin> set es \<longrightarrow> (\<exists>e. r = Some (Inl e)))"
proof (induction es "Some h" items arbitrary: r ms rule: run_loop.induct)
  case (4 knows es items)
  then obtain e where "validate_checkpoint knows (Some h) = Inl e" using validate_lost [of knows h] by (auto simp: lost_by_def)
  with 4 show ?case by auto
next
  case (6 knows listens es item items)
  obtain e where e: "validate_checkpoint knows (Some h) = Inl e"
    using validate_lost [of knows h] "6.prems"(3) by (auto simp: lost_by_def)
  show ?case
  proof (cases item)
    case (BlockHeader b)
    then have "take_item knows listens (Some h) item = Inl e" by (simp add: take_item_def validate_and_update_checkpoint_def e)
    with "6.prems" show ?thesis by auto
  next
    case (StreamMsg m)
    with "6.prems"(2) have m: "m = CaughtUp" by (simp add: stream_ok_def)
    show ?thesis
    proof (cases listens)
      case False
      with "6.prems" StreamMsg show ?thesis by (auto simp: take_item_def send_msg_def)
    next
      case True
      then have t: "take_item knows listens (Some h) item = Inr (Some h, CaughtUp)" by (simp add: take_item_def send_msg_def StreamMsg m)
      obtain r' ms' where rec: "run_loop es (Some h) items = (r', ms')" by (cases "run_loop es (Some h) items")
      have "blocks_sent ms' = [] \<and> ((\<exists>knows. Tick knows \<in> set es) \<longrightarrow> LoopQuit \<notin> set es \<longrightarrow> (\<exists>e. r' = Some (Inl e)))"
        using "6.hyps" [OF t refl rec] "6.prems"(2,3) by (auto simp: stream_ok_def lost_by_def)
      with "6.prems"(1) rec t show ?thesis by auto
    qed
  qed
qed (auto simp: lost_by_def)

lemma run_loop_append:
  "run_loop es c items = (None, before) \<Longrightarrow> stream_ok items \<Longrightarrow>
    \<exists>items'. stream_ok items' \<and> run_loop (es @ es') c items
      = apsnd (append before) (run_loop es' (if blocks_sent before = [] then c else Some (last (blocks_sent before))) items')"
proof (induction es c items arbitrary: before rule: run_loop.induct)
  case (1 c items)
  then show ?case by (intro exI [of _ items]) (auto simp: apsnd_def map_prod_def split_beta)
next
  case (4 knows es c items)
  then obtain c' where v: "validate_checkpoint knows c = Inr c'" by (cases "validate_checkpoint knows c") auto
  with validate_checkpoint_ok [OF v] "4.IH" [OF v] "4.prems" show ?case by auto
next
  case (6 knows listens es c item items)
  then obtain c' m where t: "take_item knows listens c item = Inr (c', m)" by (cases "take_item knows listens c item") auto
  obtain r' before' where rec: "run_loop es c' items = (r', before')" by (rule prod.exhaust)
  from "6.prems"(1) t rec have b: "r' = None" "before = m # before'" by auto
  have "stream_ok items" using "6.prems"(2) by (simp add: stream_ok_def)
  with "6.IH" [OF t refl, of before'] rec b obtain items'
    where items': "stream_ok items'" "run_loop (es @ es') c' items
      = apsnd (append before') (run_loop es' (if blocks_sent before' = [] then c' else Some (last (blocks_sent before'))) items')"
    by auto
  have "(if blocks_sent before' = [] then c' else Some (last (blocks_sent before')))
    = (if blocks_sent before = [] then c else Some (last (blocks_sent before)))"
  proof (cases item)
    case (BlockHeader h)
    with take_item_ok [OF t] b show ?thesis by auto
  next
    case (StreamMsg m')
    then have "m' = CaughtUp" using "6.prems"(2) by (simp add: stream_ok_def)
    with take_item_ok [OF t] StreamMsg have "c' = c" "m = CaughtUp" by simp_all
    with b show ?thesis by simp
  qed
  with items'(2) t b(2) have "run_loop ((Next knows listens # es) @ es') c (item # items)
    = apsnd (append before) (run_loop es' (if blocks_sent before = [] then c else Some (last (blocks_sent before))) items')"
    by (simp add: apsnd_def map_prod_def split_beta)
  with items'(1) show ?case by blast
qed auto

lemma blocks_sent_append [simp]: "blocks_sent (xs @ ys) = blocks_sent xs @ blocks_sent ys"
  by (simp add: blocks_sent_def List.map_filter_def)

text \<open>C8. After a block was sent that the node no longer has (it was reset, or went back to a snapshot), no
  further block is sent, whatever the stream brings, and the next check of the checkpoint ends the run
  with an error, unless the worker is told to quit: the run that follows begins with a reset.\<close>

theorem nothing_after_revert:
  assumes "run_loop (es @ es') None (merged_stream backfill live) = (x, ms)"
    and "run_loop es None (merged_stream backfill live) = (None, before)" "blocks_sent before \<noteq> []"
    and "lost_by es' (last (blocks_sent before))"
  shows "blocks_sent ms = blocks_sent before
    \<and> ((\<exists>knows. Tick knows \<in> set es') \<longrightarrow> LoopQuit \<notin> set es' \<longrightarrow> (\<exists>e. x = Some (Inl e)))"
proof -
  let ?h = "last (blocks_sent before)"
  from run_loop_append [OF assms(2) stream_ok_merged, of es'] assms(3) obtain items'
    where "stream_ok items'" and "run_loop (es @ es') None (merged_stream backfill live) = apsnd (append before) (run_loop es' (Some ?h) items')"
    by auto
  moreover obtain r' ms' where rec: "run_loop es' (Some ?h) items' = (r', ms')" by (rule prod.exhaust)
  ultimately show ?thesis using lost_block_ends_run [OF rec _ assms(4)] assms(1) by auto
qed

theorem nothing_after_revert_witness:
  "\<exists>e. fst (run_loop [Next (\<lambda>_. Inr True) True, Next (\<lambda>_. Inr True) True, Tick (\<lambda>_. Inr False)] None
    (merged_stream [] [\<lparr>bh_hash = 1, bh_number = 1\<rparr>, \<lparr>bh_hash = 2, bh_number = 2\<rparr>])) = Some (Inl e)"
proof -
  let ?es = "[Next (\<lambda>_. Inr True) True, Next (\<lambda>_. Inr True) True]" and ?es' = "[Tick (\<lambda>_. Inr False)]"
  let ?live = "[\<lparr>bh_hash = 1, bh_number = 1\<rparr>, \<lparr>bh_hash = 2, bh_number = 2\<rparr>]"
  note defs = merged_stream_def take_item_def validate_and_update_checkpoint_def validate_checkpoint_def send_msg_def dev_msg_of_def
  have "run_loop ?es None (merged_stream [] ?live) = (None, [CaughtUp, Block 1 1])" by (simp add: defs)
  from nothing_after_revert [OF surjective_pairing this, of ?es'] show ?thesis by (auto simp: lost_by_def)
qed

section \<open>Waiting\<close>

lemma retry_delay_values: "retry_delay n \<in> {100, 200, 400, 800, 1600, 3200, 6400}"
proof -
  have "unat (min n 6) \<le> 6" by (simp add: min_def word_le_nat_alt)
  then consider "unat (min n 6) = 0" | "unat (min n 6) = 1" | "unat (min n 6) = 2" | "unat (min n 6) = 3" | "unat (min n 6) = 4"
    | "unat (min n 6) = 5" | "unat (min n 6) = 6" by linarith
  then show ?thesis by cases (simp_all add: retry_delay_def base_delay_def)
qed

lemma jitter_less: "0 < m \<Longrightarrow> unat (random_jitter hash m n) < unat m"
  by (simp add: random_jitter_def unat_mod word_less_nat_alt)

lemma jitter_bounds: "100 \<le> retry_delay n + random_jitter hash (retry_delay n div 4) k \<and>
    retry_delay n + random_jitter hash (retry_delay n div 4) k < 8000"
proof -
  let ?d = "retry_delay n" let ?j = "random_jitter hash (?d div 4) k"
  have d: "unat ?d \<in> {100, 200, 400, 800, 1600, 3200, 6400}" "0 < ?d div 4" "unat (?d div 4) = unat ?d div 4"
    using retry_delay_values [of n] by auto
  then have j: "unat ?j < unat ?d div 4" using jitter_less [of "?d div 4" hash k] by simp
  have "unat (?d + ?j) = unat ?d + unat ?j" using d(1) j by (auto simp: unat_add_lem [symmetric])
  with d(1) j have "100 \<le> unat (?d + ?j) \<and> unat (?d + ?j) < 8000" by auto
  then show ?thesis by (simp add: word_le_nat_alt word_less_nat_alt)
qed

text \<open>The delays between the attempts to reach a node are at least a tenth of a second and less than
  eight seconds, with the jitter, however often it is tried.\<close>

theorem delays_bounded:
  "list_all (\<lambda>d. 100 \<le> d \<and> d < 8000) (snd (wait_for_node hash n es))"
proof (induction hash n es rule: wait_for_node.induct)
  case (3 hash n answer quits es)
  then show ?case by (auto simp: Let_def jitter_bounds split: option.splits sum.splits)
qed simp_all

section \<open>What a run misses\<close>

text \<open>Blocks that are mined after the latest block was asked for and before the subscription are not
  sent: the backfill ends before them and the subscription begins after them.\<close>

lemma blocks_between_missed:
  assumes "run_once hash p r = (x, ms)" "fst (wait_for_node hash 0 (ri_waits r)) = Some (Inr i)"
    and "\<And>n b. an_by_number (ri_anvil r) n = Inr (Some b) \<Longrightarrow> bh_number b = n"
    and "\<And>live. subscribe_blocks (ri_anvil r) p = Inr live \<Longrightarrow> \<forall>b \<in> set live. m < bh_number b"
    and "si_number i < n" "n \<le> m"
  shows "Block h n \<notin> set ms"
  using assms(1)
proof (cases rule: run_once_cases)
  case (2 j backfill live ms')
  with assms(2) have i: "j = i" by simp
  have "bh_number b \<noteq> n" if "b \<in> set backfill \<or> b \<in> set live" for b
    using that backfill_blocks_member [OF 2(2), of b] assms(3) assms(4) [OF 2(3)] assms(5,6) i by auto
  moreover from run_loop_sends [OF 2(4) stream_ok_merged] obtain k where "ms' = map item_msg (take k (merged_stream backfill live))" by auto
  then have "set ms' \<subseteq> item_msg ` set (merged_stream backfill live)" by (auto dest: in_set_takeD)
  ultimately show ?thesis using 2(5) by (fastforce simp: merged_stream_def dev_msg_of_def)
qed simp

text \<open>A worker that is told to quit while it waits for the node does not return: it starts again, sends a
  reset and panics.\<close>

lemma quit_while_waiting_restarts:
  "ri_waits r = WaitQuit # es \<Longrightarrow> run_worker hash p False (r # r' # rs) = (Panicked, [[Reset], [Reset]])"
  by (simp add: run_once_def)

end
