(* ===== verification/Sync.thy ===== *)
theory Sync
  imports Alchemy
begin

text \<open>
  The background synchronisation (\<open>crates/sync/src\<close>): messages of the bus that concern it, the worker that
  keeps one polling task for each account and chain, and the fetches of a full transaction and of a
  token's metadata. A task is a state of its own: it polls, then waits for its channel or for two
  minutes.
\<close>

section \<open>Messages\<close>

datatype sync_msg =
    TrackAddress address
  | UntrackAddress address
  | TrackNetwork u64
  | UntrackNetwork u64
  | PollAddress address
  | PollNetwork u64
  | FetchFullTx u64 b256

definition sync_msg_of :: "internal_msg \<Rightarrow> sync_msg option" where
  "sync_msg_of m =
    (case m of
      AddressAdded a \<Rightarrow> Some (TrackAddress a)
    | AddressRemoved a \<Rightarrow> Some (UntrackAddress a)
    | CurrentAddressChanged a \<Rightarrow> Some (PollAddress a)
    | NetworkAdded n \<Rightarrow> Some (TrackNetwork (chain_id n))
    | NetworkRemoved n \<Rightarrow> Some (UntrackNetwork (chain_id n))
    | CurrentNetworkChanged n \<Rightarrow> Some (PollNetwork (chain_id n))
    | FetchFullTxSync c h _ \<Rightarrow> Some (FetchFullTx c h)
    | _ \<Rightarrow> None)"

section \<open>The worker and its tasks\<close>

text \<open>A task ends when a poll fails; \<open>tk_sender\<close> is whether somebody still holds the sending end of its channel.\<close>

record sync_task =
  tk_addr :: address
  tk_chain :: u64
  tk_pending :: nat
  tk_sender :: bool
  tk_waits :: bool
  tk_ended :: bool

text \<open>The tasks are a list, a worker entry is the place of its task; \<open>sw_fetches\<close> is the metadata asked for.\<close>

record sync_worker =
  sw_addresses :: "address list"
  sw_chains :: "u64 list"
  sw_current :: "address option \<times> u64 option"
  sw_workers :: "(address \<times> u64, nat) hmap"
  sw_tasks :: "sync_task list"
  sw_fetches :: "(u64 \<times> address) list"

definition sync_new :: sync_worker where
  "sync_new = \<lparr>sw_addresses = [], sw_chains = [], sw_current = (None, None), sw_workers = [], sw_tasks = [], sw_fetches = []\<rparr>"

definition at_task :: "nat \<Rightarrow> (sync_task \<Rightarrow> sync_task) \<Rightarrow> sync_worker \<Rightarrow> sync_worker" where
  "at_task i f s = s\<lparr>sw_tasks := (sw_tasks s)[i := f (sw_tasks s ! i)]\<rparr>"

text \<open>Dropping an entry drops its handle, which leaves the task running, and its sender.\<close>

definition without_sender :: "sync_task \<Rightarrow> sync_task" where
  "without_sender t = t\<lparr>tk_sender := False\<rparr>"

definition drop_entries :: "((address \<times> u64) \<Rightarrow> bool) \<Rightarrow> sync_worker \<Rightarrow> sync_worker" where
  "drop_entries p s = s\<lparr>sw_workers := hm_retain (\<lambda>k _. \<not> p k) (sw_workers s),
    sw_tasks := map (\<lambda>i. if list_ex (\<lambda>(k, j). j = i \<and> p k) (sw_workers s) then without_sender (sw_tasks s ! i) else sw_tasks s ! i)
      [0..<length (sw_tasks s)]\<rparr>"

definition new_task :: "address \<Rightarrow> u64 \<Rightarrow> sync_task" where
  "new_task a c = \<lparr>tk_addr = a, tk_chain = c, tk_pending = 0, tk_sender = True, tk_waits = False, tk_ended = False\<rparr>"

text \<open>Inserting a new entry drops an old one of the pair.\<close>

definition spawn_task :: "address \<Rightarrow> u64 \<Rightarrow> sync_worker \<Rightarrow> sync_worker" where
  "spawn_task a c s =
    (let s1 = drop_entries (\<lambda>k. k = (a, c)) s in
      s1\<lparr>sw_workers := hm_insert (a, c) (length (sw_tasks s1)) (sw_workers s1),
        sw_tasks := sw_tasks s1 @ [new_task a c]\<rparr>)"

definition track_addr :: "address \<Rightarrow> sync_worker \<Rightarrow> sync_worker" where
  "track_addr a s = fold (spawn_task a) (sw_chains s) (s\<lparr>sw_addresses := List.insert a (sw_addresses s)\<rparr>)"

definition untrack_addr :: "address \<Rightarrow> sync_worker \<Rightarrow> sync_worker" where
  "untrack_addr a s = drop_entries (\<lambda>k. fst k = a) (s\<lparr>sw_addresses := removeAll a (sw_addresses s)\<rparr>)"

definition track_network :: "u64 \<Rightarrow> sync_worker \<Rightarrow> sync_worker" where
  "track_network c s =
    (if supports_network c
     then fold (\<lambda>a. spawn_task a c) (sw_addresses s) (s\<lparr>sw_chains := List.insert c (sw_chains s)\<rparr>)
     else s)"

definition untrack_network :: "u64 \<Rightarrow> sync_worker \<Rightarrow> sync_worker" where
  "untrack_network c s = drop_entries (\<lambda>k. snd k = c) (s\<lparr>sw_chains := removeAll c (sw_chains s)\<rparr>)"

definition poll_current :: "sync_worker \<Rightarrow> sync_worker" where
  "poll_current s =
    (case sw_current s of
      (Some a, Some c) \<Rightarrow>
        (case hm_get (sw_workers s) (a, c) of
          None \<Rightarrow> s
        | Some i \<Rightarrow> at_task i (\<lambda>t. t\<lparr>tk_pending := Suc (tk_pending t)\<rparr>) s)
    | _ \<Rightarrow> s)"

definition prioritize_addr :: "address \<Rightarrow> sync_worker \<Rightarrow> sync_worker" where
  "prioritize_addr a s = poll_current (s\<lparr>sw_current := (Some a, snd (sw_current s))\<rparr>)"

definition prioritize_network :: "u64 \<Rightarrow> sync_worker \<Rightarrow> sync_worker" where
  "prioritize_network c s =
    (if supports_network c then poll_current (s\<lparr>sw_current := (fst (sw_current s), Some c)\<rparr>) else s)"

text \<open>After every message, the metadata missing in the database is asked for.\<close>

definition update_erc20_metadata :: "db \<Rightarrow> sync_worker \<Rightarrow> sync_worker" where
  "update_erc20_metadata d s =
    s\<lparr>sw_fetches := sw_fetches s @ concat (map (\<lambda>c. map (Pair c) (get_erc20_missing_metadata c d))
      (filter supports_network (sw_chains s)))\<rparr>"

definition sync_handle :: "db \<Rightarrow> sync_msg \<Rightarrow> sync_worker \<Rightarrow> sync_worker" where
  "sync_handle d m s = update_erc20_metadata d
    (case m of
      TrackAddress a \<Rightarrow> track_addr a s
    | UntrackAddress a \<Rightarrow> untrack_addr a s
    | TrackNetwork c \<Rightarrow> track_network c s
    | UntrackNetwork c \<Rightarrow> untrack_network c s
    | PollAddress a \<Rightarrow> prioritize_addr a s
    | PollNetwork c \<Rightarrow> prioritize_network c s
    | FetchFullTx _ _ \<Rightarrow> s)"

section \<open>One task\<close>

text \<open>
  \<open>unit_worker\<close>: a poll that succeeds (or is skipped, without a key) leaves the task waiting, one
  that fails ends it. \<open>recv\<close> answers at once when a message is there and when the sender is gone.
\<close>

datatype wake = ByMessage | ByClosed | ByTimer

inductive task_step :: "sync_task \<Rightarrow> wake option \<Rightarrow> sync_task \<Rightarrow> bool" where
  task_polls: "\<not> tk_waits t \<Longrightarrow> \<not> tk_ended t \<Longrightarrow> task_step t None (t\<lparr>tk_waits := True\<rparr>)"
| task_fails: "\<not> tk_waits t \<Longrightarrow> \<not> tk_ended t \<Longrightarrow> task_step t None (t\<lparr>tk_ended := True\<rparr>)"
| task_message: "tk_waits t \<Longrightarrow> 0 < tk_pending t \<Longrightarrow>
    task_step t (Some ByMessage) (t\<lparr>tk_waits := False, tk_pending := tk_pending t - 1\<rparr>)"
| task_closed: "tk_waits t \<Longrightarrow> tk_pending t = 0 \<Longrightarrow> \<not> tk_sender t \<Longrightarrow> task_step t (Some ByClosed) (t\<lparr>tk_waits := False\<rparr>)"
| task_timer: "tk_waits t \<Longrightarrow> tk_pending t = 0 \<Longrightarrow> tk_sender t \<Longrightarrow> task_step t (Some ByTimer) (t\<lparr>tk_waits := False\<rparr>)"

section \<open>Fetches\<close>

record node_tx =
  no_from :: address
  no_to :: "address option"
  no_value :: u256
  no_input :: bytes
  no_gas_limit :: u64
  no_fees :: "(128 word \<times> 128 word) option"
  no_type :: u8
  no_nonce :: u64

record node_receipt =
  ne_block_number :: "u64 option"
  ne_index :: "u64 option"
  ne_success :: bool
  ne_gas_used :: u64

text \<open>The fees of an EIP-1559 transaction are its maximum and its priority fee; the second is not read.\<close>

definition full_tx :: "b256 \<Rightarrow> node_tx \<Rightarrow> node_receipt \<Rightarrow> tx" where
  "full_tx h t r = \<lparr>tx_hash = h, tx_trace_address = None, tx_from = no_from t, tx_to = no_to t,
    tx_block_number = ne_block_number r, tx_value = Some (no_value t), tx_data = Some (no_input t), tx_position = ne_index r,
    tx_status = (if ne_success r then 1 else 0), tx_deployed_contract = None, tx_gas_limit = Some (no_gas_limit t),
    tx_gas_used = Some (ne_gas_used r), tx_max_fee_per_gas = map_option fst (no_fees t),
    tx_max_priority_fee_per_gas = map_option fst (no_fees t), tx_nonce = Some (no_nonce t), tx_type = Some (ucast (no_type t)),
    tx_incomplete = False\<rparr>"

definition fetch_full_tx :: "(b256 \<Rightarrow> string + node_tx option) \<Rightarrow> (b256 \<Rightarrow> string + node_receipt option) \<Rightarrow> u64 \<Rightarrow> b256
    \<Rightarrow> (db, string, unit) handler" where
  "fetch_full_tx get_tx get_receipt chain h d =
    (case get_tx h of
      Inl e \<Rightarrow> (Inl e, d)
    | Inr t \<Rightarrow>
        (case get_receipt h of
          Inl e \<Rightarrow> (Inl e, d)
        | Inr r \<Rightarrow>
            (case (t, r) of
              (Some t', Some r') \<Rightarrow> (Inr (), insert_transaction chain (full_tx h t' r') d)
            | _ \<Rightarrow> (Inl ''TX not found'', d))))"

text \<open>The waiting request is answered only when the fetch succeeds.\<close>

definition fetch_full_tx_sync :: "(b256 \<Rightarrow> string + node_tx option) \<Rightarrow> (b256 \<Rightarrow> string + node_receipt option) \<Rightarrow> u64 \<Rightarrow> b256
    \<Rightarrow> db \<Rightarrow> bool \<times> db" where
  "fetch_full_tx_sync get_tx get_receipt chain h d =
    (if supports_network chain then map_prod is_ok id (fetch_full_tx get_tx get_receipt chain h d) else (False, d))"

text \<open>What a token answers of itself; each call may fail.\<close>

definition fetch_erc20_metadata :: "(address \<Rightarrow> string option \<times> string option \<times> u8 option) \<Rightarrow> u64 \<Rightarrow> address \<Rightarrow> db \<Rightarrow> db" where
  "fetch_erc20_metadata ask_token chain a d =
    (case ask_token a of
      (name, symbol, dec) \<Rightarrow>
        save_erc20_metadatas chain [\<lparr>tm_address = a, tm_name = name, tm_symbol = symbol, tm_decimals = dec\<rparr>] d)"

section \<open>Every pair has its task\<close>

definition entries_ok :: "sync_worker \<Rightarrow> bool" where
  "entries_ok s = (hm_ok (sw_workers s)
    \<and> (\<forall>k i. hm_get (sw_workers s) k = Some i \<longrightarrow> i < length (sw_tasks s)
        \<and> (tk_addr (sw_tasks s ! i), tk_chain (sw_tasks s ! i)) = k \<and> tk_sender (sw_tasks s ! i))
    \<and> (\<forall>i < length (sw_tasks s). tk_sender (sw_tasks s ! i)
        \<longrightarrow> hm_get (sw_workers s) (tk_addr (sw_tasks s ! i), tk_chain (sw_tasks s ! i)) = Some i))"

definition sync_inv :: "sync_worker \<Rightarrow> bool" where
  "sync_inv s = (entries_ok s \<and> set (hm_keys (sw_workers s)) = set (sw_addresses s) \<times> set (sw_chains s)
    \<and> (\<forall>c \<in> set (sw_chains s). supports_network c))"

text \<open>What the tasks do on their own, and the messages.\<close>

inductive sync_reaches :: "sync_worker \<Rightarrow> bool" where
  sync_starts: "sync_reaches sync_new"
| sync_message: "sync_reaches s \<Longrightarrow> sync_reaches (sync_handle d m s)"
| sync_task: "sync_reaches s \<Longrightarrow> i < length (sw_tasks s) \<Longrightarrow> task_step (sw_tasks s ! i) l t \<Longrightarrow>
    sync_reaches (s\<lparr>sw_tasks := (sw_tasks s)[i := t]\<rparr>)"

lemma at_task_frame [simp]:
  "sw_addresses (at_task i f s) = sw_addresses s" "sw_chains (at_task i f s) = sw_chains s"
  "sw_workers (at_task i f s) = sw_workers s" "length (sw_tasks (at_task i f s)) = length (sw_tasks s)"
  by (simp_all add: at_task_def)

lemma at_task_nth: "j < length (sw_tasks s) \<Longrightarrow> sw_tasks (at_task i f s) ! j = (if i = j then f (sw_tasks s ! j) else sw_tasks s ! j)"
  by (simp add: at_task_def)

lemma without_sender_simps [simp]:
  "tk_addr (without_sender t) = tk_addr t" "tk_chain (without_sender t) = tk_chain t" "\<not> tk_sender (without_sender t)"
  "without_sender (without_sender t) = without_sender t"
  by (simp_all add: without_sender_def)

lemma drop_entries_frame [simp]:
  "sw_addresses (drop_entries p s) = sw_addresses s" "sw_chains (drop_entries p s) = sw_chains s"
  "sw_workers (drop_entries p s) = hm_retain (\<lambda>k _. \<not> p k) (sw_workers s)"
  "length (sw_tasks (drop_entries p s)) = length (sw_tasks s)"
  by (simp_all add: drop_entries_def)

lemma drop_entries_nth:
  "j < length (sw_tasks s) \<Longrightarrow> sw_tasks (drop_entries p s) ! j
    = (if \<exists>k. (k, j) \<in> set (sw_workers s) \<and> p k then without_sender (sw_tasks s ! j) else sw_tasks s ! j)"
  by (force simp: drop_entries_def list_ex_iff)

definition task_key :: "sync_task \<Rightarrow> address \<times> u64" where
  "task_key t = (tk_addr t, tk_chain t)"

lemma task_key_simps [simp]: "task_key (without_sender t) = task_key t"
  by (simp add: task_key_def)

lemma entries_okD:
  assumes "entries_ok s"
  shows "hm_get (sw_workers s) k = Some i \<Longrightarrow> i < length (sw_tasks s) \<and> task_key (sw_tasks s ! i) = k \<and> tk_sender (sw_tasks s ! i)"
    "i < length (sw_tasks s) \<Longrightarrow> tk_sender (sw_tasks s ! i) \<Longrightarrow> hm_get (sw_workers s) (task_key (sw_tasks s ! i)) = Some i"
  using assms unfolding entries_ok_def task_key_def by blast+

lemma dropped_sender:
  assumes "entries_ok s" "i < length (sw_tasks s)"
  shows "tk_sender (sw_tasks (drop_entries p s) ! i) \<longleftrightarrow> tk_sender (sw_tasks s ! i) \<and> \<not> p (task_key (sw_tasks s ! i))"
    "task_key (sw_tasks (drop_entries p s) ! i) = task_key (sw_tasks s ! i)"
proof -
  have ok: "hm_ok (sw_workers s)" using assms(1) by (simp add: entries_ok_def)
  have "(\<exists>k. (k, i) \<in> set (sw_workers s) \<and> p k) \<longleftrightarrow> tk_sender (sw_tasks s ! i) \<and> p (task_key (sw_tasks s ! i))"
  proof
    assume "\<exists>k. (k, i) \<in> set (sw_workers s) \<and> p k"
    then obtain k where k: "hm_get (sw_workers s) k = Some i" "p k" by (auto simp: hm.entries_get [OF ok])
    then show "tk_sender (sw_tasks s ! i) \<and> p (task_key (sw_tasks s ! i))" using entries_okD(1) [OF assms(1) k(1)] by simp
  next
    assume "tk_sender (sw_tasks s ! i) \<and> p (task_key (sw_tasks s ! i))"
    then show "\<exists>k. (k, i) \<in> set (sw_workers s) \<and> p k"
      using entries_okD(2) [OF assms(1) assms(2)] hm.entries_get [OF ok] by blast
  qed
  then show "tk_sender (sw_tasks (drop_entries p s) ! i) \<longleftrightarrow> tk_sender (sw_tasks s ! i) \<and> \<not> p (task_key (sw_tasks s ! i))"
    "task_key (sw_tasks (drop_entries p s) ! i) = task_key (sw_tasks s ! i)"
    using assms(2) by (auto simp: drop_entries_nth)
qed

lemma entries_ok_drop:
  assumes "entries_ok s"
  shows "entries_ok (drop_entries p s)"
proof -
  have ok: "hm_ok (sw_workers s)" using assms by (simp add: entries_ok_def)
  have get: "hm_get (sw_workers (drop_entries p s)) k = (if p k then None else hm_get (sw_workers s) k)" for k
    by (simp add: hm_get_retain [OF ok] split: option.splits)
  show ?thesis
    unfolding entries_ok_def task_key_def [symmetric]
  proof (intro conjI allI impI)
    show "hm_ok (sw_workers (drop_entries p s))" using ok by simp
  next
    fix k i
    assume "hm_get (sw_workers (drop_entries p s)) k = Some i"
    then have g: "hm_get (sw_workers s) k = Some i" "\<not> p k" using get [of k] by (auto simp only: option.distinct split: if_splits)
    note e = entries_okD(1) [OF assms g(1)]
    show "i < length (sw_tasks (drop_entries p s))" using e by simp
    show "task_key (sw_tasks (drop_entries p s) ! i) = k" using e dropped_sender(2) [OF assms] by simp
    show "tk_sender (sw_tasks (drop_entries p s) ! i)" using e g(2) dropped_sender(1) [OF assms] by simp
  next
    fix i
    assume "i < length (sw_tasks (drop_entries p s))" "tk_sender (sw_tasks (drop_entries p s) ! i)"
    then have i: "i < length (sw_tasks s)" and sender: "tk_sender (sw_tasks s ! i)" and kept: "\<not> p (task_key (sw_tasks s ! i))"
      using dropped_sender(1) [OF assms, of i p] by simp_all
    show "hm_get (sw_workers (drop_entries p s)) (task_key (sw_tasks (drop_entries p s) ! i)) = Some i"
      by (simp only: get dropped_sender(2) [OF assms i] kept if_False entries_okD(2) [OF assms i sender])
  qed
qed

lemma keys_drop: "set (hm_keys (sw_workers (drop_entries p s))) = {k \<in> set (hm_keys (sw_workers s)). \<not> p k}"
  by (auto simp: hm_retain_def image_iff)

lemma spawn_task_frame [simp]: "sw_addresses (spawn_task a c s) = sw_addresses s" "sw_chains (spawn_task a c s) = sw_chains s"
  by (simp_all add: spawn_task_def Let_def)

lemma task_key_new: "task_key (new_task a c) = (a, c)"
  and new_task_sender: "tk_sender (new_task a c)"
  by (simp_all add: new_task_def task_key_def)

lemma entries_ok_spawn:
  assumes "entries_ok s"
  shows "entries_ok (spawn_task a c s)" "set (hm_keys (sw_workers (spawn_task a c s))) = insert (a, c) (set (hm_keys (sw_workers s)))"
proof -
  let ?d = "drop_entries (\<lambda>k. k = (a, c)) s"
  have d: "entries_ok ?d" by (rule entries_ok_drop [OF assms])
  have none: "hm_get (sw_workers ?d) (a, c) = None"
    using assms by (simp add: hm_get_retain entries_ok_def split: option.splits)
  have tasks: "sw_tasks (spawn_task a c s) = sw_tasks ?d @ [new_task a c]"
    and workers: "sw_workers (spawn_task a c s) = hm_insert (a, c) (length (sw_tasks ?d)) (sw_workers ?d)"
    by (simp_all add: spawn_task_def Let_def new_task_def)
  have get: "hm_get (sw_workers (spawn_task a c s)) k
    = (if k = (a, c) then Some (length (sw_tasks ?d)) else hm_get (sw_workers ?d) k)" for k
    by (simp only: workers hm.get_insert) simp
  show "entries_ok (spawn_task a c s)"
    unfolding entries_ok_def task_key_def [symmetric]
  proof (intro conjI allI impI)
    show "hm_ok (sw_workers (spawn_task a c s))" using d by (simp add: workers entries_ok_def)
  next
    fix k i
    assume "hm_get (sw_workers (spawn_task a c s)) k = Some i"
    then have "(k = (a, c) \<and> i = length (sw_tasks ?d)) \<or> hm_get (sw_workers ?d) k = Some i"
      unfolding get by (auto simp only: option.inject split: if_splits)
    then have "i < length (sw_tasks (spawn_task a c s)) \<and> task_key (sw_tasks (spawn_task a c s) ! i) = k
        \<and> tk_sender (sw_tasks (spawn_task a c s) ! i)"
    proof
      assume "k = (a, c) \<and> i = length (sw_tasks ?d)"
      then show ?thesis unfolding tasks by (simp only: nth_append_length task_key_new new_task_sender) simp
    next
      assume "hm_get (sw_workers ?d) k = Some i"
      from entries_okD(1) [OF d this] show ?thesis unfolding tasks by (simp only: nth_append if_True) simp
    qed
    then show "i < length (sw_tasks (spawn_task a c s))" "task_key (sw_tasks (spawn_task a c s) ! i) = k"
      "tk_sender (sw_tasks (spawn_task a c s) ! i)" by simp_all
  next
    fix i
    assume i: "i < length (sw_tasks (spawn_task a c s))" and sender: "tk_sender (sw_tasks (spawn_task a c s) ! i)"
    show "hm_get (sw_workers (spawn_task a c s)) (task_key (sw_tasks (spawn_task a c s) ! i)) = Some i"
    proof (cases "i = length (sw_tasks ?d)")
      case True
      then show ?thesis by (simp only: get tasks nth_append_length task_key_new if_True refl)
    next
      case False
      then have old: "i < length (sw_tasks ?d)" and at: "sw_tasks (spawn_task a c s) ! i = sw_tasks ?d ! i"
        using i by (simp_all add: tasks nth_append)
      then have "hm_get (sw_workers ?d) (task_key (sw_tasks ?d ! i)) = Some i"
        using entries_okD(2) [OF d old] sender by (simp only: at)
      then show ?thesis using none by (auto simp only: get at option.distinct split: if_splits)
    qed
  qed
  show "set (hm_keys (sw_workers (spawn_task a c s))) = insert (a, c) (set (hm_keys (sw_workers s)))"
    unfolding workers using keys_drop [of "\<lambda>k. k = (a, c)" s] by (simp only: AList.update_keys set_append if_distrib [of set]) auto
qed

lemma spawn_tasks:
  "entries_ok s \<Longrightarrow> entries_ok (fold (\<lambda>(a, c). spawn_task a c) ps s)"
  "entries_ok s \<Longrightarrow> set (hm_keys (sw_workers (fold (\<lambda>(a, c). spawn_task a c) ps s))) = set ps \<union> set (hm_keys (sw_workers s))"
  "sw_addresses (fold (\<lambda>(a, c). spawn_task a c) ps s) = sw_addresses s"
  "sw_chains (fold (\<lambda>(a, c). spawn_task a c) ps s) = sw_chains s"
  by (induction ps arbitrary: s) (auto simp: entries_ok_spawn simp del: set_map)

lemma track_addr_fold:
  "track_addr a s = fold (\<lambda>(a, c). spawn_task a c) (map (Pair a) (sw_chains s)) (s\<lparr>sw_addresses := List.insert a (sw_addresses s)\<rparr>)"
  by (simp add: track_addr_def fold_map comp_def)

lemma track_network_fold:
  "supports_network c \<Longrightarrow> track_network c s
    = fold (\<lambda>(a, c). spawn_task a c) (map (\<lambda>a. (a, c)) (sw_addresses s)) (s\<lparr>sw_chains := List.insert c (sw_chains s)\<rparr>)"
  by (simp add: track_network_def fold_map comp_def)

lemma entries_ok_fields [simp]:
  "entries_ok (s\<lparr>sw_addresses := as\<rparr>) = entries_ok s" "entries_ok (s\<lparr>sw_chains := cs\<rparr>) = entries_ok s"
  "entries_ok (s\<lparr>sw_current := cu\<rparr>) = entries_ok s" "entries_ok (s\<lparr>sw_fetches := fs\<rparr>) = entries_ok s"
  by (simp_all add: entries_ok_def)

lemma sync_inv_track_addr: "sync_inv s \<Longrightarrow> sync_inv (track_addr a s)"
  unfolding sync_inv_def track_addr_fold by (auto simp: spawn_tasks simp del: set_map) (auto simp: image_iff)

lemma sync_inv_track_network: "sync_inv s \<Longrightarrow> sync_inv (track_network c s)"
proof (cases "supports_network c")
  case True
  then show "sync_inv s \<Longrightarrow> ?thesis"
    unfolding sync_inv_def track_network_fold [OF True] by (auto simp: spawn_tasks simp del: set_map) (auto simp: image_iff)
qed (simp add: track_network_def)

lemma sync_inv_drop:
  assumes "sync_inv s" "\<And>a c. a \<in> set (sw_addresses s) \<Longrightarrow> c \<in> set (sw_chains s) \<Longrightarrow> p (a, c) \<longleftrightarrow> a \<notin> set as \<or> c \<notin> set cs"
    "set as \<subseteq> set (sw_addresses s)" "set cs \<subseteq> set (sw_chains s)"
  shows "sync_inv (drop_entries p (s\<lparr>sw_addresses := as, sw_chains := cs\<rparr>))"
proof -
  have "entries_ok (drop_entries p (s\<lparr>sw_addresses := as, sw_chains := cs\<rparr>))"
    using assms(1) by (intro entries_ok_drop) (simp add: sync_inv_def)
  moreover have "set (hm_keys (sw_workers (drop_entries p (s\<lparr>sw_addresses := as, sw_chains := cs\<rparr>)))) = set as \<times> set cs"
    using assms unfolding keys_drop sync_inv_def by (auto simp del: set_map drop_entries_frame)
  ultimately show ?thesis using assms(1,4) by (auto simp: sync_inv_def)
qed

lemma sync_inv_untrack:
  assumes "sync_inv s"
  shows "sync_inv (untrack_addr a s)" "sync_inv (untrack_network c s)"
proof -
  have "untrack_addr a s = drop_entries (\<lambda>k. fst k = a) (s\<lparr>sw_addresses := removeAll a (sw_addresses s), sw_chains := sw_chains s\<rparr>)"
    by (simp add: untrack_addr_def)
  moreover have "sync_inv (drop_entries (\<lambda>k. fst k = a) (s\<lparr>sw_addresses := removeAll a (sw_addresses s), sw_chains := sw_chains s\<rparr>))"
    by (rule sync_inv_drop [OF assms]) auto
  ultimately show "sync_inv (untrack_addr a s)" by (simp only:)
  have "untrack_network c s = drop_entries (\<lambda>k. snd k = c) (s\<lparr>sw_addresses := sw_addresses s, sw_chains := removeAll c (sw_chains s)\<rparr>)"
    by (simp add: untrack_network_def)
  moreover have "sync_inv (drop_entries (\<lambda>k. snd k = c) (s\<lparr>sw_addresses := sw_addresses s, sw_chains := removeAll c (sw_chains s)\<rparr>))"
    by (rule sync_inv_drop [OF assms]) auto
  ultimately show "sync_inv (untrack_network c s)" by (simp only:)
qed

text \<open>What a task does on its own changes neither its pair nor whether it has a sender.\<close>

lemma sync_inv_tasks:
  assumes "sync_inv s" "tk_addr t = tk_addr (sw_tasks s ! i)" "tk_chain t = tk_chain (sw_tasks s ! i)"
    "tk_sender t = tk_sender (sw_tasks s ! i)"
  shows "sync_inv (s\<lparr>sw_tasks := (sw_tasks s)[i := t]\<rparr>)"
proof -
  have same: "tk_addr ((sw_tasks s)[i := t] ! j) = tk_addr (sw_tasks s ! j)"
    "tk_chain ((sw_tasks s)[i := t] ! j) = tk_chain (sw_tasks s ! j)"
    "tk_sender ((sw_tasks s)[i := t] ! j) = tk_sender (sw_tasks s ! j)" for j
    using assms(2-) by (cases "i < length (sw_tasks s)"; cases "i = j"; simp add: list_update_beyond)+
  show ?thesis using assms(1) unfolding sync_inv_def entries_ok_def by (simp add: same)
qed

lemma sync_inv_poll: "sync_inv s \<Longrightarrow> sync_inv (poll_current s)"
  unfolding poll_current_def at_task_def by (auto split: option.splits prod.splits intro!: sync_inv_tasks)

lemma sync_inv_fields [simp]: "sync_inv (s\<lparr>sw_current := cu\<rparr>) = sync_inv s" "sync_inv (s\<lparr>sw_fetches := fs\<rparr>) = sync_inv s"
  by (simp_all add: sync_inv_def)

lemma sync_inv_handle: "sync_inv s \<Longrightarrow> sync_inv (sync_handle d m s)"
  by (cases m) (simp_all add: sync_handle_def update_erc20_metadata_def sync_inv_track_addr sync_inv_track_network
    sync_inv_untrack prioritize_addr_def prioritize_network_def sync_inv_poll)

lemma sync_inv_reaches: "sync_reaches s \<Longrightarrow> sync_inv s"
proof (induction rule: sync_reaches.induct)
  case sync_starts
  show ?case by (simp add: sync_new_def sync_inv_def entries_ok_def)
next
  case (sync_message s d m)
  then show ?case by (simp add: sync_inv_handle)
next
  case (sync_task s i l t)
  from sync_task.hyps(3) show ?case by (cases rule: task_step.cases) (use sync_task.IH in \<open>auto intro: sync_inv_tasks\<close>)
qed

text \<open>C31. At every moment the worker has exactly one entry for each tracked account on each tracked (and
  supported) chain, and that entry is the place of a task of this very pair; a task that still has its sender is the one
  of its pair's entry, so no pair has two tasks the worker can reach.\<close>

theorem one_task_per_pair:
  assumes "sync_reaches s"
  shows "set (hm_keys (sw_workers s)) = set (sw_addresses s) \<times> set (sw_chains s)
    \<and> distinct (hm_keys (sw_workers s))
    \<and> (\<forall>c \<in> set (sw_chains s). supports_network c)
    \<and> (\<forall>a c i. hm_get (sw_workers s) (a, c) = Some i \<longrightarrow> i < length (sw_tasks s) \<and> task_key (sw_tasks s ! i) = (a, c))
    \<and> (\<forall>i < length (sw_tasks s). tk_sender (sw_tasks s ! i) \<longleftrightarrow> hm_get (sw_workers s) (task_key (sw_tasks s ! i)) = Some i)"
proof -
  have inv: "sync_inv s" by (rule sync_inv_reaches [OF assms])
  then have ok: "entries_ok s" by (simp add: sync_inv_def)
  show ?thesis
  proof (intro conjI allI impI ballI iffI)
    show "set (hm_keys (sw_workers s)) = set (sw_addresses s) \<times> set (sw_chains s)" using inv by (simp add: sync_inv_def)
    show "distinct (hm_keys (sw_workers s))" using ok by (simp add: entries_ok_def)
  qed (use inv entries_okD [OF ok] in \<open>auto simp only: sync_inv_def\<close>)
qed

definition two_accounts :: sync_worker where
  "two_accounts = sync_handle empty_db (UntrackAddress 1) (sync_handle empty_db (TrackNetwork 1)
    (sync_handle empty_db (TrackAddress 2) (sync_handle empty_db (TrackAddress 1) sync_new)))"

lemma two_accounts_value:
  "hm_keys (sw_workers two_accounts) = [(2, 1)]" "length (sw_tasks two_accounts) = 2"
  by code_simp+

theorem one_task_per_pair_witness:
  "sync_reaches two_accounts \<and> {(2, 1)} = set (sw_addresses two_accounts) \<times> set (sw_chains two_accounts)
    \<and> hm_get (sw_workers two_accounts) (task_key (sw_tasks two_accounts ! 1)) \<noteq> Some 1"
proof -
  have r: "sync_reaches two_accounts" unfolding two_accounts_def by (intro sync_message sync_starts)
  have "\<not> tk_sender (sw_tasks two_accounts ! 1)" by code_simp
  then show ?thesis using r one_task_per_pair [OF r] by (simp add: two_accounts_value)
qed

text \<open>A task alone, for any number of polls.\<close>

inductive task_run :: "sync_task \<Rightarrow> wake list \<Rightarrow> sync_task \<Rightarrow> bool" where
  run_stays: "task_run t [] t"
| run_step: "task_run t ws t' \<Longrightarrow> task_step t' w t'' \<Longrightarrow> task_run t (ws @ (case w of None \<Rightarrow> [] | Some x \<Rightarrow> [x])) t''"

text \<open>A task whose entry was dropped is not stopped: it never waits for the timer again, and unless a poll fails it
  polls again and again with no pause, any number of times.\<close>

theorem dropped_tasks_never_rest:
  assumes "\<not> tk_sender t"
  shows "(\<forall>ws t'. task_run t ws t' \<longrightarrow> \<not> tk_sender t' \<and> ByTimer \<notin> set ws)
    \<and> (\<not> tk_ended t \<longrightarrow> (\<forall>n. \<exists>ws t'. task_run t ws t' \<and> n \<le> length ws \<and> \<not> tk_ended t'))"
proof (intro conjI allI impI)
  have never: "\<not> tk_sender t' \<and> ByTimer \<notin> set ws" if "task_run t ws t'" for ws t'
    using that assms
  proof (induction rule: task_run.induct)
    case (run_step t ws t' w t'')
    from run_step.hyps(2) run_step.IH [OF run_step.prems] show ?case by (cases rule: task_step.cases) auto
  qed simp
  then show "\<not> tk_sender t'" "ByTimer \<notin> set ws" if "task_run t ws t'" for ws t' using that by simp_all
next
  fix n
  assume live: "\<not> tk_ended t"
  show "\<exists>ws t'. task_run t ws t' \<and> n \<le> length ws \<and> \<not> tk_ended t'"
  proof -
    have "\<exists>ws t'. task_run t ws t' \<and> n \<le> length ws \<and> \<not> tk_ended t' \<and> \<not> tk_sender t' \<and> tk_waits t'"
    proof (induction n)
      case 0
      show ?case
      proof (cases "tk_waits t")
        case True
        then show ?thesis using live assms run_stays by blast
      next
        case False
        then have "task_run t [] (t\<lparr>tk_waits := True\<rparr>)" using run_step [OF run_stays task_polls] live by fastforce
        then show ?thesis using live assms by fastforce
      qed
    next
      case (Suc n)
      then obtain ws t' where r: "task_run t ws t'" "n \<le> length ws" "\<not> tk_ended t'" "\<not> tk_sender t'" "tk_waits t'" by blast
      obtain w u where w: "task_step t' (Some w) u" "\<not> tk_ended u" "\<not> tk_sender u" "\<not> tk_waits u"
        using task_message [of t'] task_closed [of t'] r by (cases "tk_pending t'") fastforce+
      have "task_run t (ws @ [w]) u" using run_step [OF r(1) w(1)] by simp
      from run_step [OF this task_polls [OF w(4,2)]] have "task_run t (ws @ [w]) (u\<lparr>tk_waits := True\<rparr>)" by simp
      then show ?case using r(2) w(2,3) by fastforce
    qed
    then show ?thesis by blast
  qed
qed

theorem dropped_tasks_never_rest_witness:
  "\<not> tk_sender (sw_tasks two_accounts ! 1)
    \<and> (\<exists>ws t'. task_run (sw_tasks two_accounts ! 1) ws t' \<and> 1000 \<le> length ws \<and> \<not> tk_ended t')"
proof -
  have a: "\<not> tk_sender (sw_tasks two_accounts ! 1)" by code_simp
  have b: "\<not> tk_ended (sw_tasks two_accounts ! 1)" by code_simp
  show ?thesis using a b dropped_tasks_never_rest [OF a] by blast
qed

end
