(* ===== verification/Proxy_Detect.thy ===== *)
theory Proxy_Detect
  imports Ethui_Types
begin

text \<open>
  Detecting proxies (\<open>crates/proxy-detect\<close>): seven detectors, each of which asks the node about a
  contract, and the order in which they are tried. The node is a parameter.
\<close>

section \<open>The node\<close>

text \<open>An answer of the node that is an error, or no answer.\<close>

datatype node_error = ErrorAnswer string | NoAnswer string

record proxy_node =
  pn_code :: "address \<Rightarrow> node_error + bytes"
  pn_storage :: "address \<Rightarrow> 256 word \<Rightarrow> node_error + u256"
  pn_call :: "address \<Rightarrow> bytes \<Rightarrow> node_error + bytes"

datatype proxy_type =
    Eip1167 address
  | Eip1967Direct address
  | Eip1967Beacon address
  | OpenZeppelin address
  | Eip897 address
  | Safe address
  | Comptroller address

fun implementation :: "proxy_type \<Rightarrow> address" where
  "implementation (Eip1167 a) = a"
| "implementation (Eip1967Direct a) = a"
| "implementation (Eip1967Beacon a) = a"
| "implementation (OpenZeppelin a) = a"
| "implementation (Eip897 a) = a"
| "implementation (Safe a) = a"
| "implementation (Comptroller a) = a"

text \<open>A failed request, or a panic: an index or a slice out of range, a slice of the wrong length.\<close>

datatype detect_error = DetectNode node_error | DetectPanic

type_synonym detected = "detect_error + proxy_type option"

section \<open>Reading bytes\<close>

definition nat_of_bytes :: "bytes \<Rightarrow> nat" where
  "nat_of_bytes bs = foldl (\<lambda>n b. n * 256 + unat b) 0 bs"

definition u256_to_address :: "u256 \<Rightarrow> address" where
  "u256_to_address w = ucast w"

definition bytes_to_b256_fallible :: "bytes \<Rightarrow> 256 word option" where
  "bytes_to_b256_fallible bs = (if length bs = 32 then Some (of_nat (nat_of_bytes bs)) else None)"

definition storage_slot_as_address :: "proxy_node \<Rightarrow> address \<Rightarrow> 256 word \<Rightarrow> node_error + address option" where
  "storage_slot_as_address N a slot =
    (case pn_storage N a slot of
      Inl (ErrorAnswer _) \<Rightarrow> Inr None
    | Inl e \<Rightarrow> Inl e
    | Inr w \<Rightarrow> Inr (if w \<noteq> 0 then Some (u256_to_address w) else None))"

section \<open>Minimal proxies\<close>

definition EIP1167_PREFIX :: bytes where
  "EIP1167_PREFIX = [0x36, 0x3d, 0x3d, 0x37, 0x3d, 0x3d, 0x3d, 0x36, 0x3d]"

definition EIP1167_SUFFIX :: bytes where
  "EIP1167_SUFFIX = [0x57, 0xfd, 0x5b, 0xf3]"

definition bytes_start :: "bytes \<Rightarrow> bytes \<Rightarrow> bool" where
  "bytes_start p bs = (take (length p) bs = p)"

text \<open>The byte after the prefix pushes the address, of one to twenty bytes.\<close>

definition eip1167_of_code :: "bytes \<Rightarrow> detect_error + address option" where
  "eip1167_of_code code =
    (if \<not> bytes_start EIP1167_PREFIX code then Inr None
     else if length code \<le> 9 then Inl DetectPanic
     else
       (let n = unat (code ! 9) - 0x5f in
         if \<not> (1 \<le> n \<and> n \<le> 20) then Inr None
         else if length code < 10 + n + 11 then Inl DetectPanic
         else if \<not> bytes_start EIP1167_SUFFIX (drop (10 + n + 11) code) then Inr None
         else Inr (Some (of_nat (nat_of_bytes (take n (drop 10 code)))))))"

definition detect_eip1167_minimal_proxy :: "proxy_node \<Rightarrow> address \<Rightarrow> detected" where
  "detect_eip1167_minimal_proxy N a =
    (case pn_code N a of
      Inl e \<Rightarrow> Inl (DetectNode e)
    | Inr code \<Rightarrow> map_sum id (map_option Eip1167) (eip1167_of_code code))"

section \<open>Proxies that keep the implementation in a slot\<close>

definition EIP1967_LOGIC_SLOT :: "256 word" where
  "EIP1967_LOGIC_SLOT = 0x360894a13ba1a3210667c828492db98dca3e2076cc3735a920a3ca505d382bbc"

definition EIP1967_BEACON_SLOT :: "256 word" where
  "EIP1967_BEACON_SLOT = 0xa3f0ad74e5423aebfd80d3ef4346578335a9a72aeaee59ff6cb3582b35133d50"

definition OPEN_ZEPPELIN_PREFIX :: "256 word" where
  "OPEN_ZEPPELIN_PREFIX = 0x7050c9e0f4ca769c69bd3a8ef740bc37934f8e2c036e5a723fd8ee048ed3f8c3"

text \<open>\<open>if let Ok(Some(addr))\<close>: a failed request counts as an empty slot.\<close>

definition slot_proxy :: "256 word \<Rightarrow> (address \<Rightarrow> proxy_type) \<Rightarrow> proxy_node \<Rightarrow> address \<Rightarrow> detected" where
  "slot_proxy slot kind N a =
    (case storage_slot_as_address N a slot of
      Inr (Some b) \<Rightarrow> Inr (Some (kind b))
    | _ \<Rightarrow> Inr None)"

definition detect_eip1967_direct_proxy :: "proxy_node \<Rightarrow> address \<Rightarrow> detected" where
  "detect_eip1967_direct_proxy = slot_proxy EIP1967_LOGIC_SLOT Eip1967Direct"

definition detect_open_zeppelin_proxy :: "proxy_node \<Rightarrow> address \<Rightarrow> detected" where
  "detect_open_zeppelin_proxy = slot_proxy OPEN_ZEPPELIN_PREFIX OpenZeppelin"

text \<open>Four bytes of a method, padded to thirty-two.\<close>

definition selector :: "bytes \<Rightarrow> bytes" where
  "selector s = s @ replicate 28 0"

definition IMPLEMENTATION :: bytes where
  "IMPLEMENTATION = selector [0x5c, 0x60, 0xda, 0x1b]"

definition CHILD_IMPLEMENTATION :: bytes where
  "CHILD_IMPLEMENTATION = selector [0xda, 0x52, 0x57, 0x16]"

definition MASTER_COPY :: bytes where
  "MASTER_COPY = selector [0xa6, 0x19, 0x48, 0x6e]"

definition COMPTROLLER_IMPLEMENTATION :: bytes where
  "COMPTROLLER_IMPLEMENTATION = selector [0xbb, 0x82, 0xaa, 0x5e]"

text \<open>\<open>B256::from_slice\<close> panics on a slice that is not thirty-two bytes long.\<close>

definition beacon_answer :: "bytes \<Rightarrow> detected" where
  "beacon_answer bs =
    (case bytes_to_b256_fallible bs of
      None \<Rightarrow> Inl DetectPanic
    | Some w \<Rightarrow> Inr (Some (Eip1967Beacon (u256_to_address w))))"

definition detect_eip1967_beacon_proxy :: "proxy_node \<Rightarrow> address \<Rightarrow> detected" where
  "detect_eip1967_beacon_proxy N a =
    (case storage_slot_as_address N a EIP1967_BEACON_SLOT of
      Inr (Some b) \<Rightarrow>
        (case pn_call N b IMPLEMENTATION of
          Inr v \<Rightarrow> beacon_answer v
        | Inl _ \<Rightarrow>
            (case pn_call N b CHILD_IMPLEMENTATION of
              Inr v \<Rightarrow> beacon_answer v
            | Inl _ \<Rightarrow> Inr None))
    | _ \<Rightarrow> Inr None)"

section \<open>Proxies that tell the implementation\<close>

definition call_proxy :: "bytes \<Rightarrow> (address \<Rightarrow> proxy_type) \<Rightarrow> proxy_node \<Rightarrow> address \<Rightarrow> detected" where
  "call_proxy input kind N a =
    (case pn_call N a input of
      Inl (ErrorAnswer _) \<Rightarrow> Inr None
    | Inl e \<Rightarrow> Inl (DetectNode e)
    | Inr v \<Rightarrow> Inr (map_option (\<lambda>w. kind (u256_to_address w)) (bytes_to_b256_fallible v)))"

definition detect_eip897_proxy :: "proxy_node \<Rightarrow> address \<Rightarrow> detected" where
  "detect_eip897_proxy = call_proxy IMPLEMENTATION Eip897"

definition detect_safe_proxy :: "proxy_node \<Rightarrow> address \<Rightarrow> detected" where
  "detect_safe_proxy = call_proxy MASTER_COPY Safe"

definition detect_comptroller_proxy :: "proxy_node \<Rightarrow> address \<Rightarrow> detected" where
  "detect_comptroller_proxy = call_proxy COMPTROLLER_IMPLEMENTATION Comptroller"

section \<open>All of them\<close>

fun first_detected :: "(proxy_node \<Rightarrow> address \<Rightarrow> detected) list \<Rightarrow> proxy_node \<Rightarrow> address \<Rightarrow> detected" where
  "first_detected [] N a = Inr None"
| "first_detected (f # fs) N a =
    (case f N a of
      Inl e \<Rightarrow> Inl e
    | Inr (Some p) \<Rightarrow> Inr (Some p)
    | Inr None \<Rightarrow> first_detected fs N a)"

definition detect_proxy :: "proxy_node \<Rightarrow> address \<Rightarrow> detected" where
  "detect_proxy = first_detected [detect_eip1167_minimal_proxy, detect_eip1967_direct_proxy, detect_eip1967_beacon_proxy,
    detect_open_zeppelin_proxy, detect_eip897_proxy, detect_safe_proxy, detect_comptroller_proxy]"

section \<open>The code of a minimal proxy\<close>

text \<open>What is taken for a minimal proxy of an address of \<open>length abs\<close> bytes: the prefix, the push, the address,
  any eleven bytes, the suffix and anything after it.\<close>

definition accepted_code :: "bytes \<Rightarrow> bytes \<Rightarrow> bytes \<Rightarrow> bytes" where
  "accepted_code as mid rest = EIP1167_PREFIX @ [of_nat (0x5f + length as)] @ as @ mid @ EIP1167_SUFFIX @ rest"

text \<open>The code of EIP 1167 for an address, whole: the target of the jump moves with the length of the address.\<close>

definition eip1167_code :: "bytes \<Rightarrow> bytes" where
  "eip1167_code as = [0x36, 0x3d, 0x3d, 0x37, 0x3d, 0x3d, 0x3d, 0x36, 0x3d] @ [of_nat (0x5f + length as)] @ as
    @ [0x5a, 0xf4, 0x3d, 0x82, 0x80, 0x3e, 0x90, 0x3d, 0x91, 0x60, of_nat (0x17 + length as)] @ [0x57, 0xfd, 0x5b, 0xf3]"

lemma push_byte: "n \<le> 20 \<Longrightarrow> unat (of_nat (0x5f + n) :: 8 word) = 0x5f + n"
  by (subst unat_of_nat) simp

lemma accepted_code_detected:
  assumes "1 \<le> length as" "length as \<le> 20" "length mid = 11"
  shows "eip1167_of_code (accepted_code as mid rest) = Inr (Some (of_nat (nat_of_bytes as)))"
proof -
  let ?code = "accepted_code as mid rest"
  have at: "?code ! 9 = of_nat (0x5f + length as)" by (simp add: accepted_code_def EIP1167_PREFIX_def)
  have n: "unat (?code ! 9) - 0x5f = length as" unfolding at push_byte [OF assms(2)] by simp
  have len: "length ?code = 10 + length as + 11 + 4 + length rest"
    by (simp add: accepted_code_def EIP1167_PREFIX_def EIP1167_SUFFIX_def assms)
  let ?front = "EIP1167_PREFIX @ [of_nat (0x5f + length as)] @ as @ mid"
  have "?code = ?front @ EIP1167_SUFFIX @ rest" "length ?front = 10 + length as + 11"
    using assms(3) by (simp_all add: accepted_code_def EIP1167_PREFIX_def)
  then have "drop (10 + length as + 11) ?code = EIP1167_SUFFIX @ rest" by (metis append_eq_conv_conj)
  moreover have "take (length as) (drop 10 ?code) = as" by (simp add: accepted_code_def EIP1167_PREFIX_def)
  moreover have "bytes_start EIP1167_PREFIX ?code" by (simp add: bytes_start_def accepted_code_def)
  ultimately show ?thesis
    unfolding eip1167_of_code_def Let_def n using assms(1,2) by (simp add: len bytes_start_def)
qed

lemma drop_split: "drop m xs = take n (drop m xs) @ drop (m + n) xs"
  using append_take_drop_id [of n "drop m xs", symmetric] by (simp only: drop_drop add.commute [of n m])

lemma detected_accepted_code:
  assumes "eip1167_of_code code = Inr (Some a)"
  shows "\<exists>as mid rest. 1 \<le> length as \<and> length as \<le> 20 \<and> length mid = 11 \<and> code = accepted_code as mid rest"
proof -
  let ?n = "unat (code ! 9) - 0x5f"
  have pre: "bytes_start EIP1167_PREFIX code" "9 < length code" and n: "1 \<le> ?n" "?n \<le> 20" "10 + ?n + 11 \<le> length code"
    and suf: "bytes_start EIP1167_SUFFIX (drop (10 + ?n + 11) code)"
    using assms by (auto simp: eip1167_of_code_def Let_def split: if_splits)
  let ?as = "take ?n (drop 10 code)" and ?mid = "take 11 (drop (10 + ?n) code)" and ?rest = "drop 4 (drop (10 + ?n + 11) code)"
  have push: "code ! 9 = of_nat (0x5f + length ?as)"
  proof -
    have "length ?as = ?n" using n by simp
    then have "0x5f + length ?as = unat (code ! 9)" using n by simp
    then have "of_nat (0x5f + length ?as) = (of_nat (unat (code ! 9)) :: 8 word)" by simp
    then show ?thesis by simp
  qed
  have lens: "length EIP1167_PREFIX = 9" "length EIP1167_SUFFIX = 4" by (simp_all add: EIP1167_PREFIX_def EIP1167_SUFFIX_def)
  have "code = take 9 code @ code ! 9 # drop 10 code" using id_take_nth_drop [OF pre(2)] by simp
  also have "take 9 code = EIP1167_PREFIX" using pre(1) lens(1) by (simp only: bytes_start_def)
  also have "drop 10 code = ?as @ drop (10 + ?n) code" by (rule drop_split)
  also have "drop (10 + ?n) code = ?mid @ drop (10 + ?n + 11) code" by (rule drop_split)
  also have "drop (10 + ?n + 11) code = EIP1167_SUFFIX @ ?rest"
    using suf append_take_drop_id [of 4 "drop (10 + ?n + 11) code"] lens(2) unfolding bytes_start_def by metis
  finally have "code = accepted_code ?as ?mid ?rest" using push by (simp add: accepted_code_def)
  moreover have "length ?as = ?n" "length ?mid = 11" using n by simp_all
  ultimately show ?thesis using n by metis
qed

lemma others_not_minimal:
  "first_detected [detect_eip1967_direct_proxy, detect_eip1967_beacon_proxy, detect_open_zeppelin_proxy, detect_eip897_proxy,
      detect_safe_proxy, detect_comptroller_proxy] N a \<noteq> Inr (Some (Eip1167 b))"
proof -
  have slot: "slot_proxy sl kind N a \<noteq> Inr (Some (Eip1167 b))" if "\<And>c. kind c \<noteq> Eip1167 b" for sl kind
    using that by (auto simp: slot_proxy_def split: sum.splits option.splits)
  have call: "call_proxy input kind N a \<noteq> Inr (Some (Eip1167 b))" if "\<And>c. kind c \<noteq> Eip1167 b" for input kind
    using that by (auto simp: call_proxy_def split: sum.splits node_error.splits)
  have beacon: "detect_eip1967_beacon_proxy N a \<noteq> Inr (Some (Eip1167 b))"
    by (auto simp: detect_eip1967_beacon_proxy_def beacon_answer_def split: sum.splits option.splits)
  have more: "first_detected (f # fs) N a \<noteq> Inr (Some (Eip1167 b))"
    if "f N a \<noteq> Inr (Some (Eip1167 b))" "first_detected fs N a \<noteq> Inr (Some (Eip1167 b))" for f fs
    using that by (auto split: sum.splits option.splits)
  show ?thesis
    by (intro more beacon)
      (simp_all add: detect_eip1967_direct_proxy_def detect_open_zeppelin_proxy_def detect_eip897_proxy_def detect_safe_proxy_def
        detect_comptroller_proxy_def slot call)
qed

lemma eip1167_code_accepted:
  "\<exists>mid. length mid = 11 \<and> eip1167_code as = accepted_code as mid []"
  by (intro exI [of _ "[0x5a, 0xf4, 0x3d, 0x82, 0x80, 0x3e, 0x90, 0x3d, 0x91, 0x60, of_nat (0x17 + length as)]"])
    (simp add: eip1167_code_def accepted_code_def EIP1167_PREFIX_def EIP1167_SUFFIX_def)

text \<open>C40. A contract is found to be a minimal proxy for an address exactly when its code is the prefix of EIP 1167, a push of
  that address in one to twenty bytes, any eleven bytes, the suffix, and anything else; no other detection gives
  this answer. So every code of EIP 1167 is found, with the address that it pushes (the short ones of vanity addresses
  included); the eleven bytes between and what follows, which EIP 1167 fixes, are not looked at.\<close>

theorem minimal_proxies_recognised:
  assumes "pn_code N a = Inr code"
  shows "(detect_proxy N a = Inr (Some (Eip1167 b))) = (\<exists>as mid rest. 1 \<le> length as \<and> length as \<le> 20 \<and> length mid = 11
        \<and> code = accepted_code as mid rest \<and> b = of_nat (nat_of_bytes as))
    \<and> (\<forall>as. 1 \<le> length as \<longrightarrow> length as \<le> 20 \<longrightarrow> code = eip1167_code as \<longrightarrow>
        detect_proxy N a = Inr (Some (Eip1167 (of_nat (nat_of_bytes as)))))"
proof -
  have of_code: "detect_eip1167_minimal_proxy N a = map_sum id (map_option Eip1167) (eip1167_of_code code)"
    using assms by (simp add: detect_eip1167_minimal_proxy_def)
  have first: "(detect_proxy N a = Inr (Some (Eip1167 b))) = (eip1167_of_code code = Inr (Some b))" for b
    using others_not_minimal [of N a b]
    by (cases "eip1167_of_code code") (auto simp: detect_proxy_def of_code simp del: first_detected.simps(2)
      simp: first_detected.simps(2) [of detect_eip1167_minimal_proxy] split: option.splits)
  have shape: "(eip1167_of_code code = Inr (Some b)) = (\<exists>as mid rest. 1 \<le> length as \<and> length as \<le> 20 \<and> length mid = 11
        \<and> code = accepted_code as mid rest \<and> b = of_nat (nat_of_bytes as))" for b
    using detected_accepted_code [of code b] accepted_code_detected by fastforce
  show ?thesis
    unfolding first shape using eip1167_code_accepted by (metis (no_types))
qed

theorem minimal_proxies_recognised_witness:
  "detect_proxy \<lparr>pn_code = (\<lambda>_. Inr (eip1167_code [0xbe, 0xef])), pn_storage = (\<lambda>_ _. Inr 0), pn_call = (\<lambda>_ _. Inr [])\<rparr> 7
    = Inr (Some (Eip1167 0xbeef))"
proof -
  let ?N = "\<lparr>pn_code = (\<lambda>_. Inr (eip1167_code [0xbe, 0xef])), pn_storage = (\<lambda>_ _. Inr 0), pn_call = (\<lambda>_ _. Inr [])\<rparr>"
  have "pn_code ?N 7 = Inr (eip1167_code [0xbe, 0xef])" by simp
  from minimal_proxies_recognised [OF this] have "detect_proxy ?N 7 = Inr (Some (Eip1167 (of_nat (nat_of_bytes [0xbe, 0xef]))))"
    by auto
  then show ?thesis by (simp add: nat_of_bytes_def)
qed

text \<open>Code that is no minimal proxy is taken for one: here the bytes that would make the call are zero.\<close>

lemma other_code_taken:
  assumes "pn_code N a = Inr (accepted_code [1] [0, 0, 0, 0, 0, 0, 0, 0, 0, 0, 0] [])"
  shows "detect_eip1167_minimal_proxy N a = Inr (Some (Eip1167 1))" "accepted_code [1] [0, 0, 0, 0, 0, 0, 0, 0, 0, 0, 0] [] \<noteq> eip1167_code as"
proof -
  show "detect_eip1167_minimal_proxy N a = Inr (Some (Eip1167 1))"
    using accepted_code_detected [of "[1]" "[0, 0, 0, 0, 0, 0, 0, 0, 0, 0, 0]" "[]"] assms
    by (simp add: detect_eip1167_minimal_proxy_def nat_of_bytes_def)
  show "accepted_code [1] [0, 0, 0, 0, 0, 0, 0, 0, 0, 0, 0] [] \<noteq> eip1167_code as"
  proof
    assume eq: "accepted_code [1] [0, 0, 0, 0, 0, 0, 0, 0, 0, 0, 0] [] = eip1167_code as"
    then have "length as = 1" by (auto simp: accepted_code_def eip1167_code_def EIP1167_PREFIX_def EIP1167_SUFFIX_def dest: arg_cong [of _ _ length])
    then obtain x where "as = [x]" by (auto simp: length_Suc_conv)
    with eq show False by (simp add: accepted_code_def eip1167_code_def EIP1167_PREFIX_def EIP1167_SUFFIX_def)
  qed
qed

text \<open>Code that is cut off after the prefix, and a beacon without code, end the detection with a panic.\<close>

lemma cut_code_panics:
  "pn_code N a = Inr EIP1167_PREFIX \<Longrightarrow> detect_proxy N a = Inl DetectPanic"
  by (simp add: detect_proxy_def detect_eip1167_minimal_proxy_def eip1167_of_code_def bytes_start_def EIP1167_PREFIX_def)

lemma beacon_without_code_panics:
  assumes "pn_code N a = Inr code" "\<not> bytes_start EIP1167_PREFIX code" "pn_storage N a EIP1967_LOGIC_SLOT = Inr 0"
    and "pn_storage N a EIP1967_BEACON_SLOT = Inr w" "w \<noteq> 0" "pn_call N (u256_to_address w) IMPLEMENTATION = Inr []"
  shows "detect_proxy N a = Inl DetectPanic"
  using assms
  by (simp add: detect_proxy_def detect_eip1167_minimal_proxy_def eip1167_of_code_def detect_eip1967_direct_proxy_def slot_proxy_def
      storage_slot_as_address_def detect_eip1967_beacon_proxy_def beacon_answer_def bytes_to_b256_fallible_def)

end
