(* ===== verification/Devnet_Consumer.thy ===== *)
theory Devnet_Consumer
  imports Devnet Sync Proxy_Detect
begin

text \<open>
  What becomes of the messages of a worker (\<open>crates/sync/devnet\<close>): the consumer
  (\<open>tracker/consumer.rs\<close>), the events that traces and logs expand to (\<open>expanders.rs\<close>), and the
  consumers of the runs of a worker, tasks that work side by side on their own channels: any
  interleaving of what the runs send with what the consumers take is a run of the pool.
\<close>

section \<open>Traces and logs\<close>

datatype trace_action =
    CallAction address address u256 bytes u64
  | CreateAction address u256 u64
  | SelfdestructAction
  | RewardAction

datatype trace_output = CallOutput u64 | CreateOutput address u64

record dev_trace =
  dt_transaction_hash :: "b256 option"
  dt_transaction_position :: "u64 option"
  dt_block_number :: "u64 option"
  dt_trace_address :: "u64 list"
  dt_action :: trace_action
  dt_result :: "trace_output option"

record rpc_log =
  lo_address :: address
  lo_topics :: "b256 list"
  lo_data :: bytes
  lo_block_number :: "u64 option"

text \<open>The node, and the decoder that the \<open>sol!\<close> macro generates for the transfers of a token.\<close>

record dev_node =
  dn_connects :: bool
  dn_trace_block :: "u64 \<Rightarrow> string + dev_trace list"
  dn_logs :: "b256 \<Rightarrow> string + rpc_log list"
  dn_tx :: "b256 \<Rightarrow> string + node_tx option"
  dn_receipt :: "b256 \<Rightarrow> string + node_receipt option"
  dn_contracts :: proxy_node
  dn_token :: "address \<Rightarrow> string option \<times> string option \<times> u8 option"
  dn_transfer :: "rpc_log \<Rightarrow> (address \<times> address \<times> u256) option"

datatype expand_error = ExpandFails | ExpandPanics

definition dev_transaction :: "dev_node \<Rightarrow> b256 \<Rightarrow> expand_error + node_tx \<times> node_receipt" where
  "dev_transaction N h =
    (case dn_tx N h of
      Inr (Some t) \<Rightarrow> (case dn_receipt N h of Inr (Some r) \<Rightarrow> Inr (t, r) | _ \<Rightarrow> Inl ExpandFails)
    | _ \<Rightarrow> Inl ExpandFails)"

text \<open>The priority fee of a row is the maximum fee.\<close>

definition trace_tx :: "dev_trace \<Rightarrow> b256 \<Rightarrow> node_tx \<Rightarrow> node_receipt \<Rightarrow> address \<Rightarrow> address option \<Rightarrow> u256 \<Rightarrow> bytes
    \<Rightarrow> address option \<Rightarrow> u64 \<Rightarrow> u64 \<Rightarrow> tx" where
  "trace_tx tr h t r sender recipient v data deployed gas gas_used =
    \<lparr>tx_hash = h, tx_trace_address = Some (dt_trace_address tr), tx_from = sender, tx_to = recipient,
     tx_block_number = dt_block_number tr, tx_value = Some v, tx_data = Some data, tx_position = dt_transaction_position tr,
     tx_status = (if ne_success r then 1 else 0), tx_deployed_contract = deployed, tx_gas_limit = Some gas,
     tx_gas_used = Some gas_used, tx_max_fee_per_gas = map_option fst (no_fees t),
     tx_max_priority_fee_per_gas = map_option fst (no_fees t), tx_nonce = Some (no_nonce t), tx_type = Some (ucast (no_type t)),
     tx_incomplete = False\<rparr>"

definition expand_trace :: "dev_node \<Rightarrow> dev_trace \<Rightarrow> expand_error + event list" where
  "expand_trace N tr =
    (case dt_transaction_hash tr of
      None \<Rightarrow> Inl ExpandPanics
    | Some h \<Rightarrow>
        (case dev_transaction N h of
          Inl e \<Rightarrow> Inl e
        | Inr (t, r) \<Rightarrow>
            (case (dt_action tr, dt_result tr) of
              (CreateAction sender v gas, Some (CreateOutput a gas_used)) \<Rightarrow>
                (case detect_proxy (dn_contracts N) a of
                  Inl DetectPanic \<Rightarrow> Inl ExpandPanics
                | Inl _ \<Rightarrow> Inl ExpandFails
                | Inr proxy \<Rightarrow> Inr
                    [TxEvent (trace_tx tr h t r sender None v [] (Some a) gas gas_used),
                     ContractDeployed \<lparr>cd_address = a,
                       cd_code = (case pn_code (dn_contracts N) a of Inl _ \<Rightarrow> None | Inr code \<Rightarrow> Some code),
                       cd_block_number = dt_block_number tr, cd_proxy_for = map_option implementation proxy\<rparr>])
            | (CallAction sender recipient v input gas, Some (CallOutput gas_used)) \<Rightarrow>
                Inr (if dt_trace_address tr = [] then [TxEvent (trace_tx tr h t r sender (Some recipient) v input None gas gas_used)] else [])
            | _ \<Rightarrow> Inr [])))"

text \<open>Traces that fail are left out; one that panics ends the consumer (\<open>None\<close>).\<close>

definition expand_traces :: "dev_node \<Rightarrow> dev_trace list \<Rightarrow> event list option" where
  "expand_traces N trs =
    (if Inl ExpandPanics \<in> set (map (expand_trace N) trs) then None
     else Some (concat (map (\<lambda>tr. case expand_trace N tr of Inl _ \<Rightarrow> [] | Inr es \<Rightarrow> es) trs)))"

definition expand_log :: "dev_node \<Rightarrow> rpc_log \<Rightarrow> event option" where
  "expand_log N l =
    (case lo_block_number l of
      None \<Rightarrow> None
    | Some b \<Rightarrow> map_option (\<lambda>(sender, recipient, v). ERC20Transfer
        \<lparr>et_from = sender, et_to = recipient, et_value = v, et_contract = lo_address l, et_block_number = b\<rparr>) (dn_transfer N l))"

definition expand_logs :: "dev_node \<Rightarrow> rpc_log list \<Rightarrow> event list" where
  "expand_logs N ls = List.map_filter (expand_log N) ls"

section \<open>The consumer\<close>

record consumer =
  co_id :: network_id
  co_caught_up :: bool

definition consumer_new :: "network_id \<Rightarrow> consumer" where
  "consumer_new i = \<lparr>co_id = i, co_caught_up = False\<rparr>"

datatype process_end = Processed | ProcessFails | ProcessPanics

definition token_metadata_of :: "dev_node \<Rightarrow> address \<Rightarrow> token_metadata" where
  "token_metadata_of N a = (case dn_token N a of (name, symbol, dec) \<Rightarrow>
    \<lparr>tm_address = a, tm_name = name, tm_symbol = symbol, tm_decimals = dec\<rparr>)"

definition save_missing_metadata :: "dev_node \<Rightarrow> u64 \<Rightarrow> db \<Rightarrow> db" where
  "save_missing_metadata N chain d =
    fold (\<lambda>a. save_erc20_metadata chain (token_metadata_of N a)) (get_erc20_missing_metadata chain d) d"

definition dev_notices :: "sent list" where
  "dev_notices = [Notify TxsUpdated, Notify BalancesUpdated, Notify ContractsUpdated, Bus ContractFound]"

text \<open>A block: the traces of its number, the logs of its hash; what was saved before a failure stays.\<close>

definition process_block :: "dev_node \<Rightarrow> network_id \<Rightarrow> b256 \<Rightarrow> u64 \<Rightarrow> db \<Rightarrow> process_end \<times> db" where
  "process_block N i h n d =
    (case dn_trace_block N n of
      Inl _ \<Rightarrow> (ProcessFails, d)
    | Inr trs \<Rightarrow>
        (case expand_traces N trs of
          None \<Rightarrow> (ProcessPanics, d)
        | Some trace_events \<Rightarrow>
            (case dn_logs N h of
              Inl _ \<Rightarrow> (ProcessFails, d)
            | Inr ls \<Rightarrow>
                (case save_events i trace_events d of
                  (Inl _, d1) \<Rightarrow> (ProcessFails, d1)
                | (Inr _, d1) \<Rightarrow>
                    (case save_events i (expand_logs N ls) d1 of
                      (Inl _, d2) \<Rightarrow> (ProcessFails, d2)
                    | (Inr _, d2) \<Rightarrow> (Processed, d2))))))"

definition dev_process :: "dev_node \<Rightarrow> dev_msg \<Rightarrow> consumer \<times> db \<Rightarrow> process_end \<times> (consumer \<times> db) \<times> sent list" where
  "dev_process N m s =
    (case s of (c, d) \<Rightarrow>
      if \<not> dn_connects N then (ProcessFails, (c, d), [])
      else
        let (e, c1, d1, notify) =
          (case m of
            Reset \<Rightarrow> (Processed, c, truncate_events (co_id c) d, True)
          | CaughtUp \<Rightarrow> (Processed, c\<lparr>co_caught_up := True\<rparr>, d, True)
          | Block h n \<Rightarrow> (case process_block N (co_id c) h n d of (e, d1) \<Rightarrow> (e, c, d1, co_caught_up c)))
        in if e = Processed
          then (Processed, (c1, save_missing_metadata N (id_chain_id (co_id c)) d1), if notify then dev_notices else [])
          else (e, (c1, d1), []))"

text \<open>The messages of a channel, each with the node as it is when the message is taken. Failures are
  logged; after a panic nothing is taken any more.\<close>

fun dev_consume :: "(dev_node \<times> dev_msg) list \<Rightarrow> consumer \<times> db \<Rightarrow> bool \<times> (consumer \<times> db) \<times> sent list" where
  "dev_consume [] s = (True, s, [])"
| "dev_consume ((N, m) # q) s =
    (case dev_process N m s of
      (e, s1, notices) \<Rightarrow>
        if e = ProcessPanics then (False, s1, notices)
        else (case dev_consume q s1 of (alive, s2, notices') \<Rightarrow> (alive, s2, notices @ notices')))"

section \<open>The consumers of a worker\<close>





text \<open>A run starts; the current run sends, which fails when its task is gone; a task takes its next message.\<close>

datatype pool_event = RunStarts | RunSends dev_msg | TaskTakes nat dev_node




section \<open>A reset undoes what was written\<close>

lemma hm_retain_insert: "(\<And>v. \<not> p k v) \<Longrightarrow> hm_retain p (hm_insert k v m) = hm_retain p m"
  by (induction m) (auto simp: hm_retain_def)

lemma truncate_insert_transaction: "truncate_events i (insert_transaction (id_chain_id i) t d) = truncate_events i d"
  by (simp add: truncate_events_def remove_contracts_def remove_transactions_def insert_transaction_def)

lemma truncate_put_contract: "truncate_events i (put_contract (a, id_chain_id i, id_dedup_id i) new upd d) = truncate_events i d"
  by (simp add: truncate_events_def remove_contracts_def remove_transactions_def put_contract_def hm_retain_insert)

lemma truncate_insert_contract: "truncate_events i (insert_contract_with_abi i a code abi name proxy_for d) = truncate_events i d"
  by (simp add: insert_contract_with_abi_def truncate_put_contract Let_def split: option.splits)

lemma truncate_save_balance: "truncate_events i (save_erc20_balance (id_chain_id i) contract owner b d) = truncate_events i d"
  by (simp add: truncate_events_def remove_contracts_def remove_transactions_def save_erc20_balance_def hm_retain_insert)

lemma truncate_save_metadata: "truncate_events i (save_erc20_metadata (id_chain_id i) m d) = truncate_events i d"
  by (simp add: truncate_events_def remove_contracts_def remove_transactions_def save_erc20_metadata_def hm_retain_insert)

lemmas truncate_undoes = truncate_insert_transaction truncate_insert_contract truncate_save_balance truncate_save_metadata

lemma truncate_truncate: "truncate_events i (truncate_events i d) = truncate_events i d"
  by (simp add: truncate_events_def remove_contracts_def remove_transactions_def hm_retain_def filter_filter)

lemma truncate_transfer: "truncate_events i (snd (process_erc20_transfer (id_chain_id i) contract sender recipient v d)) = truncate_events i d"
  by (auto simp: process_erc20_transfer_def truncate_undoes map_sum_eq_iff split: sum.splits if_splits)

lemma truncate_save_event: "truncate_events i (snd (save_event i e d)) = truncate_events i d"
  by (cases e) (simp_all add: save_event_def truncate_undoes truncate_transfer)

lemma truncate_save_events: "truncate_events i (snd (save_events i es d)) = truncate_events i d"
proof -
  have "keeps (\<lambda>d'. truncate_events i d' = truncate_events i d) (save_events i es)"
    unfolding save_events_def by (rule keeps_run_seq) (auto simp: keeps_def truncate_save_event)
  then show ?thesis by (simp add: keeps_def)
qed

lemma truncate_missing_metadata: "truncate_events i (save_missing_metadata N (id_chain_id i) d) = truncate_events i d"
proof -
  have "truncate_events i (fold (\<lambda>a. save_erc20_metadata (id_chain_id i) (token_metadata_of N a)) as d) = truncate_events i d" for as
    by (induction as arbitrary: d) (simp_all add: truncate_undoes)
  then show ?thesis by (simp add: save_missing_metadata_def)
qed

lemma truncate_process_block: "truncate_events i (snd (process_block N i h n d)) = truncate_events i d"
proof -
  have "save_events i es d = (r, d') \<Longrightarrow> truncate_events i d' = truncate_events i d" for es d r d'
    using truncate_save_events [of i es d] by simp
  then show ?thesis by (auto simp: process_block_def split: sum.splits option.splits prod.splits)
qed

lemma truncate_process:
  "co_id (fst (fst (snd (dev_process N m (c, d))))) = co_id c"
  "truncate_events (co_id c) (snd (fst (snd (dev_process N m (c, d))))) = truncate_events (co_id c) d"
proof -
  have block: "truncate_events (co_id c) d1 = truncate_events (co_id c) d" if "process_block N (co_id c) h n d = (e, d1)" for h n e d1
    using truncate_process_block [of "co_id c" N h n d] that by simp
  show "co_id (fst (fst (snd (dev_process N m (c, d))))) = co_id c"
    by (auto simp: dev_process_def split: dev_msg.splits prod.splits)
  show "truncate_events (co_id c) (snd (fst (snd (dev_process N m (c, d))))) = truncate_events (co_id c) d"
    by (auto simp: dev_process_def truncate_missing_metadata truncate_truncate block split: dev_msg.splits prod.splits)
qed

lemma truncate_consume:
  "truncate_events (co_id c) (snd (fst (snd (dev_consume q (c, d))))) = truncate_events (co_id c) d"
proof (induction q arbitrary: c d)
  case (Cons x q)
  obtain N m where x: "x = (N, m)" by (cases x)
  obtain e c1 d1 ns where p: "dev_process N m (c, d) = (e, (c1, d1), ns)" by (metis prod.exhaust)
  have "co_id c1 = co_id c" "truncate_events (co_id c) d1 = truncate_events (co_id c) d"
    using truncate_process [where N = N and m = m and c = c and d = d] by (simp_all add: p)
  with Cons.IH [of c1 d1] show ?case by (simp add: x p split_beta)
qed simp






definition sends_in :: "pool_event list \<Rightarrow> dev_msg list" where
  "sends_in es = List.map_filter (\<lambda>e. case e of RunSends m \<Rightarrow> Some m | _ \<Rightarrow> None) es"

lemma sends_in_simps [simp]:
  "sends_in [] = []" "sends_in (RunSends m # es) = m # sends_in es" "sends_in (TaskTakes k N # es) = sends_in es"
  by (simp_all add: sends_in_def map_filter_simps)




lemma missing_metadata_txs [simp]: "db_txs (save_missing_metadata N chain d) = db_txs d"
proof -
  have "db_txs (fold (\<lambda>a. save_erc20_metadata chain (token_metadata_of N a)) as e) = db_txs e" for as and e :: db
    by (induction as arbitrary: e) (simp_all add: save_erc20_metadata_def)
  then show ?thesis by (simp add: save_missing_metadata_def)
qed








section \<open>A consumer that is behind\<close>

text \<open>The consumer of an earlier run empties its channel whenever it gets to it: a block that it takes after
  the reset of the next run stays.\<close>

lemma late_block_survives:
  assumes "dn_connects N'" "process_block N' i h n (snd (fst (snd (dev_process N Reset (consumer_new i, d))))) = (Processed, d')"
  shows "db_txs (snd (fst (snd (dev_process N' (Block h n) (consumer_new i, snd (fst (snd (dev_process N Reset (consumer_new i, d))))))))) = db_txs d'"
  using assms by (simp add: dev_process_def consumer_new_def)

text \<open>A trace without a transaction ends the consumer.\<close>

lemma reward_trace_panics:
  assumes "dn_connects N" "dn_trace_block N n = Inr trs" "tr \<in> set trs" "dt_transaction_hash tr = None"
  shows "dev_consume ((N, Block h n) # q) (c, d) = (False, (c, d), [])"
proof -
  have "expand_trace N tr = Inl ExpandPanics" by (simp add: expand_trace_def assms(4))
  then have "expand_traces N trs = None" using assms(3) unfolding expand_traces_def by (force simp: image_iff)
  then show ?thesis by (simp add: dev_process_def process_block_def assms)
qed

end
