(* ===== verification/Sol_Projects.thy ===== *)
theory Sol_Projects
  imports Prelude "HOL-Library.Sublist" "HOL-Library.List_Lexorder" "HOL-Library.Char_ord"
begin

text \<open>
  Finding the projects below the watched directories (\<open>find_project_roots\<close> in
  \<open>crates/sol-artifacts/src/actor/mod.rs\<close>). A path is the list of its components; the file system
  below a directory is a tree, with the names that exist in each directory and its subdirectories in
  the order in which they are read. Paths are ordered component by component, as \<open>PathBuf\<close> is.
\<close>

type_synonym path = "string list"

datatype dir = Dir (dir_names: "string list") (dir_subdirs: "(string \<times> dir) list")

definition PROJECT_CONFIG_FILES :: "string list" where
  "PROJECT_CONFIG_FILES = [''foundry.toml'', ''hardhat.config.ts'', ''hardhat.config.js'', ''hardhat.config.cjs'']"

definition BLACKLISTED_DIRS :: "string list" where
  "BLACKLISTED_DIRS = [''node_modules'', ''target'', ''build'', ''dist'', ''coverage'', ''__pycache__'', ''venv'', ''cache'',
    ''tmp'', ''out'', ''artifacts'', ''dependencies'']"

section \<open>Walking\<close>

definition is_hidden :: "nat \<Rightarrow> string \<Rightarrow> bool" where
  "is_hidden depth name = (0 < depth \<and> prefix ''.'' name)"

definition enters :: "nat \<Rightarrow> string \<Rightarrow> bool" where
  "enters depth name = (\<not> is_hidden depth name \<and> name \<notin> set BLACKLISTED_DIRS)"

definition file_name :: "path \<Rightarrow> string" where
  "file_name p = (if p = [] then ''/'' else last p)"

text \<open>The directories that the walker yields: a directory before its subdirectories; one that is not
  entered is left out with all below it.\<close>

fun walk :: "nat \<Rightarrow> path \<Rightarrow> dir \<Rightarrow> (path \<times> string list) list"
  and walk_subdirs :: "nat \<Rightarrow> path \<Rightarrow> (string \<times> dir) list \<Rightarrow> (path \<times> string list) list" where
  "walk depth p (Dir names subs) =
    (if enters depth (file_name p) then (p, names) # walk_subdirs (Suc depth) p subs else [])"
| "walk_subdirs depth p [] = []"
| "walk_subdirs depth p ((n, d) # subs) = walk depth (p @ [n]) d @ walk_subdirs depth p subs"

definition has_config :: "string list \<Rightarrow> bool" where
  "has_config names = list_ex (\<lambda>f. f \<in> set names) PROJECT_CONFIG_FILES"

text \<open>A directory is added unless it is one that was found or lies below one.\<close>

definition insert_outer :: "path list \<Rightarrow> path \<Rightarrow> path list" where
  "insert_outer found p = (if list_ex (\<lambda>q. prefix q p) found then found else found @ [p])"

definition projects_below :: "path \<Rightarrow> dir \<Rightarrow> path list" where
  "projects_below root t = foldl (\<lambda>found (p, names). if has_config names then insert_outer found p else found) [] (walk 0 root t)"

text \<open>All roots; one whose directory cannot be read has nothing below it.\<close>

definition find_project_roots :: "(path \<Rightarrow> dir option) \<Rightarrow> path list \<Rightarrow> path list" where
  "find_project_roots tree roots =
    foldl insert_outer [] (sort (concat (map (\<lambda>r. case tree r of None \<Rightarrow> [] | Some t \<Rightarrow> projects_below r t) roots)))"

section \<open>What is found\<close>

text \<open>The directories with a configuration file that the walks reach.\<close>

definition configured :: "(path \<Rightarrow> dir option) \<Rightarrow> path list \<Rightarrow> path set" where
  "configured tree roots = {p. \<exists>r t names. r \<in> set roots \<and> tree r = Some t \<and> (p, names) \<in> set (walk 0 r t) \<and> has_config names}"

definition outermost :: "path set \<Rightarrow> path set" where
  "outermost C = {p \<in> C. \<forall>q \<in> C. prefix q p \<longrightarrow> q = p}"

lemma outermost_cover:
  assumes sub: "F \<subseteq> C" and cover: "\<And>p. p \<in> C \<Longrightarrow> \<exists>q \<in> F. prefix q p"
  shows "outermost F = outermost C"
proof (intro equalityI subsetI)
  fix p
  assume p: "p \<in> outermost F"
  have "q = p" if q: "q \<in> C" "prefix q p" for q
  proof -
    from cover [OF q(1)] obtain q' where q': "q' \<in> F" "prefix q' q" by blast
    with q(2) have "prefix q' p" by (metis prefix_order.trans)
    with p q' have "q' = p" by (simp add: outermost_def)
    with q(2) q'(2) show ?thesis by (metis prefix_order.antisym)
  qed
  with p sub show "p \<in> outermost C" by (auto simp: outermost_def)
next
  fix p
  assume p: "p \<in> outermost C"
  then obtain q where q: "q \<in> F" "prefix q p" using cover unfolding outermost_def by blast
  with p sub have "q = p" by (auto simp: outermost_def)
  with p q sub show "p \<in> outermost F" by (auto simp: outermost_def)
qed

lemma prefix_le: "prefix (p :: path) q \<Longrightarrow> p \<le> q"
proof (induction p arbitrary: q)
  case (Cons x p)
  then show ?case by (cases q) auto
qed simp

lemma insert_outer_set: "set (insert_outer found p) = set found \<union> (if \<exists>q \<in> set found. prefix q p then {} else {p})"
  by (auto simp: insert_outer_def list_ex_iff)

lemma foldl_insert_outer:
  "set found \<subseteq> set (foldl insert_outer found ps) \<and> set (foldl insert_outer found ps) \<subseteq> set found \<union> set ps
    \<and> (\<forall>p \<in> set ps. \<exists>q \<in> set (foldl insert_outer found ps). prefix q p)"
proof (induction ps arbitrary: found)
  case (Cons p ps)
  have "\<exists>q \<in> set (insert_outer found p). prefix q p" by (auto simp: insert_outer_set)
  with Cons [of "insert_outer found p"] show ?case by (auto simp: insert_outer_set split: if_splits)
qed simp

lemma projects_below_fold:
  "projects_below root t = foldl insert_outer [] (map fst (filter (has_config \<circ> snd) (walk 0 root t)))"
proof -
  have "foldl (\<lambda>found (p, names). if has_config names then insert_outer found p else found) found ws
      = foldl insert_outer found (map fst (filter (has_config \<circ> snd) ws))" for found ws
    by (induction ws arbitrary: found) auto
  then show ?thesis by (simp add: projects_below_def)
qed

lemma projects_below_set: "p \<in> set (projects_below r t) \<Longrightarrow> \<exists>names. (p, names) \<in> set (walk 0 r t) \<and> has_config names"
proof -
  let ?ws = "map fst (filter (has_config \<circ> snd) (walk 0 r t))"
  assume "p \<in> set (projects_below r t)"
  then have "p \<in> set (foldl insert_outer [] ?ws)" by (simp only: projects_below_fold)
  moreover have "set (foldl insert_outer [] ?ws) \<subseteq> set [] \<union> set ?ws" using foldl_insert_outer by (rule conjunct2 [THEN conjunct1])
  ultimately have "p \<in> set ?ws" by auto
  then show ?thesis by auto
qed

lemma kept_Cons: "Q p \<Longrightarrow> A \<union> {x \<in> set (p # ps). Q x} = insert p A \<union> {x \<in> set ps. Q x}"
  by auto

text \<open>Over a sorted list, what is kept is what has nothing of the list above it.\<close>

lemma foldl_insert_outer_sorted:
  assumes "sorted ps" "\<And>q p. q \<in> set found \<Longrightarrow> p \<in> set ps \<Longrightarrow> prefix p q \<Longrightarrow> p = q"
  shows "set (foldl insert_outer found ps) = set found \<union> {p \<in> set ps. \<forall>q \<in> set found \<union> set ps. prefix q p \<longrightarrow> q = p}"
  using assms
proof (induction ps arbitrary: found)
  case (Cons p ps)
  have after: "p \<le> p'" if "p' \<in> set ps" for p' using Cons.prems(1) that by simp
  have above: "p' = p" if "p' \<in> set ps" "prefix p' p" for p'
    using prefix_le [OF that(2)] after [OF that(1)] by simp
  have IH: "set (foldl insert_outer (insert_outer found p) ps)
      = set (insert_outer found p) \<union> {p' \<in> set ps. \<forall>q \<in> set (insert_outer found p) \<union> set ps. prefix q p' \<longrightarrow> q = p'}"
  proof (rule Cons.IH)
    show "sorted ps" using Cons.prems(1) by simp
    show "p' = q" if "q \<in> set (insert_outer found p)" "p' \<in> set ps" "prefix p' q" for q p'
      using that Cons.prems(2) above by (auto simp: insert_outer_set split: if_splits)
  qed
  show ?case
  proof (cases "\<exists>q \<in> set found. prefix q p")
    case True
    then obtain q where q: "q \<in> set found" "prefix q p" by blast
    have same: "set (insert_outer found p) = set found" using True by (simp add: insert_outer_set)
    have extra: "(\<forall>x \<in> set found \<union> set (p # ps). prefix x p' \<longrightarrow> x = p') \<longleftrightarrow> (\<forall>x \<in> set found \<union> set ps. prefix x p' \<longrightarrow> x = p')" for p'
    proof (intro iffI ballI impI)
      fix x
      assume all: "\<forall>x \<in> set found \<union> set ps. prefix x p' \<longrightarrow> x = p'" and x: "x \<in> set found \<union> set (p # ps)" "prefix x p'"
      show "x = p'"
      proof (cases "x = p")
        case True
        with x q have "prefix q p'" by (metis prefix_order.trans)
        with all q have "q = p'" by blast
        with q True x show ?thesis by (metis prefix_order.antisym)
      qed (use all x in auto)
    qed auto
    have "p \<in> set found" if "\<forall>x \<in> set found \<union> set ps. prefix x p \<longrightarrow> x = p" using that q by blast
    then have "set found \<union> {p' \<in> set (p # ps). \<forall>x \<in> set found \<union> set ps. prefix x p' \<longrightarrow> x = p'}
        = set found \<union> {p' \<in> set ps. \<forall>x \<in> set found \<union> set ps. prefix x p' \<longrightarrow> x = p'}" by auto
    then show ?thesis using IH by (simp only: same extra foldl_Cons)
  next
    case False
    have same: "set (insert_outer found p) = insert p (set found)" using False by (auto simp: insert_outer_set)
    have dom: "insert p (set found) \<union> set ps = set found \<union> set (p # ps)" by auto
    have "\<forall>x \<in> set found \<union> set (p # ps). prefix x p \<longrightarrow> x = p"
    proof (intro ballI impI)
      fix x
      assume "x \<in> set found \<union> set (p # ps)" "prefix x p"
      with False above show "x = p" by (cases "x \<in> set found") auto
    qed
    then have kept: "set found \<union> {p' \<in> set (p # ps). \<forall>x \<in> set found \<union> set (p # ps). prefix x p' \<longrightarrow> x = p'}
        = insert p (set found) \<union> {p' \<in> set ps. \<forall>x \<in> set found \<union> set (p # ps). prefix x p' \<longrightarrow> x = p'}"
      by (rule kept_Cons)
    have "set (foldl insert_outer found (p # ps)) = set (foldl insert_outer (insert_outer found p) ps)" by (rule arg_cong [OF foldl_Cons])
    also have "\<dots> = insert p (set found) \<union> {p' \<in> set ps. \<forall>x \<in> set found \<union> set (p # ps). prefix x p' \<longrightarrow> x = p'}"
      using IH unfolding same dom .
    also note kept [symmetric]
    finally show ?thesis .
  qed
qed simp

text \<open>C23. The projects found are exactly the outermost of the directories with a configuration file
  that the walks reach, over all the watched directories: a project inside another one is left out,
  whether the same walk reaches it or the walk of another watched directory.\<close>

theorem project_roots_are_outermost:
  "set (find_project_roots tree roots) = outermost (configured tree roots)"
proof -
  let ?below = "\<lambda>r. case tree r of None \<Rightarrow> [] | Some t \<Rightarrow> projects_below r t"
  define F where "F = set (concat (map ?below roots))"
  have sub: "F \<subseteq> configured tree roots"
  proof
    fix p
    assume "p \<in> F"
    then obtain r where "r \<in> set roots" "p \<in> set (?below r)" unfolding F_def by auto
    moreover from this(2) obtain t where "tree r = Some t" "p \<in> set (projects_below r t)" by (cases "tree r") auto
    ultimately show "p \<in> configured tree roots" using projects_below_set unfolding configured_def by blast
  qed
  have cover: "\<exists>q \<in> F. prefix q p" if "p \<in> configured tree roots" for p
  proof -
    from that obtain r t names where r: "r \<in> set roots" "tree r = Some t" "(p, names) \<in> set (walk 0 r t)" "has_config names"
      unfolding configured_def by blast
    then have "p \<in> set (map fst (filter (has_config \<circ> snd) (walk 0 r t)))" by force
    then obtain q where "q \<in> set (projects_below r t)" "prefix q p" using foldl_insert_outer [of "[]"] unfolding projects_below_fold by blast
    with r show ?thesis unfolding F_def by force
  qed
  have "set (find_project_roots tree roots) = outermost F"
    unfolding find_project_roots_def F_def outermost_def by (subst foldl_insert_outer_sorted) auto
  also have "\<dots> = outermost (configured tree roots)" using sub cover by (rule outermost_cover)
  finally show ?thesis .
qed

section \<open>What is not entered\<close>

lemma walk_below:
  "(p, names) \<in> set (walk depth q t) \<Longrightarrow> \<exists>rest. p = q @ rest \<and> (\<forall>c \<in> set rest. c \<notin> set BLACKLISTED_DIRS \<and> \<not> prefix ''.'' c)"
  "(p, names) \<in> set (walk_subdirs (Suc depth) q subs) \<Longrightarrow>
    \<exists>rest. p = q @ rest \<and> (\<forall>c \<in> set rest. c \<notin> set BLACKLISTED_DIRS \<and> \<not> prefix ''.'' c)"
proof (induction depth q t and "Suc depth" q subs arbitrary: and depth rule: walk_walk_subdirs.induct)
  case (1 depth q ns subs)
  then show ?case by (auto split: if_splits)
next
  case (3 q n d subs)
  show ?case
  proof (cases "(p, names) \<in> set (walk (Suc depth) (q @ [n]) d)")
    case True
    then have "enters (Suc depth) n" by (cases d) (auto simp: file_name_def split: if_splits)
    then have "n \<notin> set BLACKLISTED_DIRS" "\<not> prefix ''.'' n" by (auto simp: enters_def is_hidden_def)
    with "3.hyps"(1) [OF True] show ?thesis by (metis append_assoc append_Cons append_Nil set_ConsD)
  next
    case False
    with 3 show ?thesis by simp
  qed
qed simp

text \<open>A watched directory whose own name is in the list is not entered at all.\<close>

lemma blacklisted_root_is_empty: "file_name r \<in> set BLACKLISTED_DIRS \<Longrightarrow> projects_below r t = []"
  by (cases t) (simp add: projects_below_def enters_def)

end
