(* ===== verification/Sol_Artifacts.thy ===== *)
theory Sol_Artifacts
  imports Sol_Projects Json Db_Contracts
begin

text \<open>
  The index of compiled contracts (\<open>crates/sol-artifacts\<close>): reading an artifact (\<open>abi.rs\<close>), comparing
  code (\<open>utils.rs\<close>), and the actor that keeps the index and names the contracts of the database
  (\<open>actor/mod.rs\<close>, \<open>init.rs\<close>). The file system, the watcher, the settings and the nodes are a
  parameter; a hash set is a list in the order in which it is iterated.
\<close>

section \<open>Artifacts\<close>

record sol_artifact =
  sa_path :: path
  sa_project :: string
  sa_solidity_file :: string
  sa_name :: string
  sa_code :: bytes
  sa_abi :: json
  sa_method_identifiers :: json

text \<open>A failure, which the caller may drop, or a panic, which ends the message.\<close>

datatype sol_error = SolFails string | SolPanic

record sol_env =
  se_tree :: "path \<Rightarrow> dir option"
  se_exists :: "path \<Rightarrow> bool"
  se_glob :: "path \<Rightarrow> string + path list"
  se_read :: "path \<Rightarrow> json option option"
  se_bytes :: "string \<Rightarrow> bytes option"
  se_text :: "json \<Rightarrow> string"
  se_code :: "u64 \<Rightarrow> address \<Rightarrow> bytes option"
  se_foundry_finished :: "string + bool"
  se_watch :: "path \<Rightarrow> bool"
  se_unwatch :: "path \<Rightarrow> bool"
  se_queues :: bool

text \<open>\<open>Path::extension\<close> is what follows the last dot, unless the name begins with it.\<close>

definition json_extension :: "string \<Rightarrow> bool" where
  "json_extension name = (suffix ''.json'' name \<and> 5 < length name)"

definition artifact_code :: "sol_env \<Rightarrow> json \<Rightarrow> bytes option" where
  "artifact_code env j =
    Option.bind (case as_str (json_get ''object'' (json_get ''deployedBytecode'' j)) of
        Some t \<Rightarrow> Some t
      | None \<Rightarrow> as_str (json_get ''deployedBytecode'' j))
      (se_bytes env)"

text \<open>The components from the end are the contract, its source file, the output directory, the project.
  \<open>None\<close> is the error; opening a file that exists but cannot be opened is a panic.\<close>

definition artifact_of_path :: "sol_env \<Rightarrow> path \<Rightarrow> sol_error + sol_artifact option" where
  "artifact_of_path env p =
    (if \<not> se_exists env p \<or> length p < 4 \<or> \<not> json_extension (file_name p) then Inr None
     else
       (case se_read env p of
         None \<Rightarrow> Inl SolPanic
       | Some None \<Rightarrow> Inr None
       | Some (Some j) \<Rightarrow>
           (case artifact_code env j of
             None \<Rightarrow> Inr None
           | Some code \<Rightarrow>
               if json_is_null (json_get ''abi'' j) then Inr None
               else Inr (Some \<lparr>sa_path = p, sa_project = p ! (length p - 4), sa_solidity_file = p ! (length p - 2),
                 sa_name = take (length (last p) - 5) (last p), sa_code = code, sa_abi = json_get ''abi'' j,
                 sa_method_identifiers = json_get ''methodIdentifiers'' j\<rparr>))))"

text \<open>An event of the watcher: whether it only tells of an access, and the paths it is about.\<close>

record fs_event =
  fe_access :: bool
  fe_paths :: "path list"

definition artifact_of_event :: "sol_env \<Rightarrow> fs_event \<Rightarrow> sol_error + sol_artifact option" where
  "artifact_of_event env e =
    (if fe_access e then Inr None
     else case fe_paths e of [] \<Rightarrow> Inl SolPanic | p # _ \<Rightarrow> artifact_of_path env p)"

section \<open>Comparing code\<close>

text \<open>How many of the compared bytes differ, and how many are compared. The quotient is a \<open>f64\<close>: for lengths
  below \<open>2 ^ 50\<close> it is below 0.2 exactly when five times the first number is below the second.
  With nothing to compare the score is one.\<close>

definition diff_score :: "bytes \<Rightarrow> bytes \<Rightarrow> nat \<times> nat" where
  "diff_score a b =
    (let cutoff_len = min (length a) (length b) in
      if cutoff_len = 0 then (1, 1)
      else (length (filter (\<lambda>(x, y). x \<noteq> y) (zip (take cutoff_len a) (take cutoff_len b))), cutoff_len))"

definition below_threshold :: "nat \<times> nat \<Rightarrow> bool" where
  "below_threshold s = (5 * fst s < snd s)"

section \<open>The actor\<close>

datatype sol_msg =
    UpdateRoots "path list"
  | PollProjectRoots
  | NewContract
  | ProcessDebouncedEvents "fs_event list"
  | UpdateContracts

text \<open>What it tells others; a message to itself that its full mailbox refuses is lost.\<close>

datatype sol_effect = FinishFoundry | NotifyContracts | NotQueued sol_msg

text \<open>The map of artifacts is a \<open>BTreeMap\<close>, so it is read in the order of the paths. \<open>so_mailbox\<close> are the
  messages it has sent to itself.\<close>

record sol_actor =
  so_roots :: "path list"
  so_project_roots :: "path list"
  so_watched :: "path list"
  so_abis :: "(path, sol_artifact) hmap"
  so_triggers :: nat
  so_mailbox :: "sol_msg list"
  so_effects :: "sol_effect list"

definition sol_new :: sol_actor where
  "sol_new = \<lparr>so_roots = [], so_project_roots = [], so_watched = [], so_abis = [], so_triggers = 0, so_mailbox = [], so_effects = []\<rparr>"

type_synonym 'a sol_handler = "(sol_actor, sol_error, 'a) handler"

definition insert_abi :: "sol_artifact \<Rightarrow> sol_actor \<Rightarrow> sol_actor" where
  "insert_abi a s = s\<lparr>so_abis := hm_insert (sa_path a) a (so_abis s)\<rparr>"

definition remove_abi :: "path \<Rightarrow> sol_actor \<Rightarrow> sol_actor" where
  "remove_abi p s = s\<lparr>so_abis := hm_remove p (so_abis s)\<rparr>"

definition fetch_abis :: "sol_actor \<Rightarrow> sol_artifact list" where
  "fetch_abis s = map snd (sort_key fst (so_abis s))"

definition get_abi_for :: "sol_actor \<Rightarrow> bytes \<Rightarrow> sol_artifact option" where
  "get_abi_for s code = List.find (\<lambda>a. below_threshold (diff_score (sa_code a) code)) (fetch_abis s)"

definition queue_own :: "sol_env \<Rightarrow> sol_msg \<Rightarrow> sol_actor \<Rightarrow> sol_actor" where
  "queue_own env m s =
    (if se_queues env then s\<lparr>so_mailbox := so_mailbox s @ [m]\<rparr> else s\<lparr>so_effects := so_effects s @ [NotQueued m]\<rparr>)"

definition trigger_update_contracts :: "sol_env \<Rightarrow> sol_actor \<Rightarrow> sol_actor" where
  "trigger_update_contracts env s = queue_own env UpdateContracts (s\<lparr>so_triggers := so_triggers s + 1\<rparr>)"

section \<open>Scanning projects\<close>

definition output_dir :: "sol_env \<Rightarrow> path \<Rightarrow> path option" where
  "output_dir env root =
    (if se_exists env (root @ [''out'']) then Some (root @ [''out''])
     else if se_exists env (root @ [''artifacts'', ''contracts'']) then Some (root @ [''artifacts'', ''contracts''])
     else None)"

definition skip_patterns :: "string list" where
  "skip_patterns = [''build-info'', ''cache'', ''temp'', ''tmp'']"

text \<open>The name of the parent directory, which is that of the source file, must not contain a pattern.\<close>

definition skipped :: "path \<Rightarrow> bool" where
  "skipped p = (2 \<le> length p \<and> list_ex (\<lambda>t. sublist t (p ! (length p - 2))) skip_patterns)"

fun read_artifacts :: "sol_env \<Rightarrow> path list \<Rightarrow> sol_error + sol_artifact list" where
  "read_artifacts env [] = Inr []"
| "read_artifacts env (p # ps) =
    (case artifact_of_path env p of
      Inl e \<Rightarrow> Inl e
    | Inr a \<Rightarrow> map_sum id (\<lambda>as. case a of None \<Rightarrow> as | Some x \<Rightarrow> x # as) (read_artifacts env ps))"

text \<open>\<open>se_glob\<close> are the files \<open>*.sol/*.json\<close> below a directory.\<close>

definition scan_project :: "sol_env \<Rightarrow> path \<Rightarrow> unit sol_handler" where
  "scan_project env root s =
    (case output_dir env root of
      None \<Rightarrow> (Inr (), s)
    | Some out_dir \<Rightarrow>
        (case map_sum SolFails id (se_glob env out_dir) of
          Inl e \<Rightarrow> (Inl e, s)
        | Inr paths \<Rightarrow>
            (case read_artifacts env (filter (\<lambda>p. \<not> skipped p) paths) of
              Inl e \<Rightarrow> (Inl e, s)
            | Inr as \<Rightarrow>
                (let s1 = fold insert_abi as s in
                  case se_foundry_finished env of
                    Inl e \<Rightarrow> (Inl (SolFails e), s1)
                  | Inr finished \<Rightarrow>
                      (Inr (), trigger_update_contracts env
                        (if so_abis s1 \<noteq> [] \<and> \<not> finished then s1\<lparr>so_effects := so_effects s1 @ [FinishFoundry]\<rparr> else s1))))))"

definition watch_dir :: "sol_env \<Rightarrow> path \<Rightarrow> unit sol_handler" where
  "watch_dir env p s =
    (if se_watch env p then (Inr (), s\<lparr>so_watched := so_watched s @ [p]\<rparr>) else (Inl (SolFails ''watch''), s))"

definition unwatch_dir :: "sol_env \<Rightarrow> path \<Rightarrow> unit sol_handler" where
  "unwatch_dir env p s =
    (if se_unwatch env p then (Inr (), s\<lparr>so_watched := removeAll p (so_watched s)\<rparr>) else (Inl (SolFails ''unwatch''), s))"

text \<open>\<open>project_roots\<close> is read and not written.\<close>

definition update_project_roots :: "sol_env \<Rightarrow> unit sol_handler" where
  "update_project_roots env s =
    (let new_roots = find_project_roots (se_tree env) (so_roots s);
         to_remove = filter (\<lambda>p. p \<notin> set new_roots) (so_project_roots s);
         to_add = filter (\<lambda>p. p \<notin> set (so_project_roots s)) new_roots in
      run_seq (map (scan_project env) to_add
        @ map (\<lambda>p. unwatch_dir env (p @ [''out''])) to_remove
        @ map (\<lambda>p. watch_dir env (p @ [''out''])) to_add) s)"

definition sol_add_path :: "sol_env \<Rightarrow> path \<Rightarrow> unit sol_handler" where
  "sol_add_path env p s =
    (if p \<in> set (so_roots s) then (Inr (), s) else update_project_roots env (s\<lparr>so_roots := so_roots s @ [p]\<rparr>))"

definition sol_remove_path :: "sol_env \<Rightarrow> path \<Rightarrow> unit sol_handler" where
  "sol_remove_path env p s =
    (if p \<in> set (so_roots s) then update_project_roots env (s\<lparr>so_roots := removeAll p (so_roots s)\<rparr>) else (Inr (), s))"

section \<open>Messages\<close>

text \<open>\<open>let _ =\<close>: a failure is dropped, a panic is not.\<close>

definition drop_failure :: "unit sol_handler \<Rightarrow> unit sol_handler" where
  "drop_failure h s = (case h s of (Inl (SolFails _), s') \<Rightarrow> (Inr (), s') | r \<Rightarrow> r)"

definition update_roots :: "sol_env \<Rightarrow> path list \<Rightarrow> unit sol_handler" where
  "update_roots env roots s =
    (let to_remove = filter (\<lambda>p. p \<notin> set roots) (so_roots s);
         to_add = filter (\<lambda>p. p \<notin> set (so_roots s)) roots in
      run_seq (map (\<lambda>p. drop_failure (sol_remove_path env p)) to_remove
        @ map (\<lambda>p. drop_failure (sol_add_path env p)) to_add
        @ [step (queue_own env PollProjectRoots)]) s)"

definition process_event :: "sol_env \<Rightarrow> fs_event \<Rightarrow> unit sol_handler" where
  "process_event env e s =
    (case fe_paths e of
      [] \<Rightarrow> (Inl SolPanic, s)
    | p # _ \<Rightarrow>
        (case artifact_of_event env e of
          Inl x \<Rightarrow> (Inl x, s)
        | Inr None \<Rightarrow> (Inr (), remove_abi p s)
        | Inr (Some a) \<Rightarrow> (Inr (), insert_abi a s)))"

definition process_debounced_events :: "sol_env \<Rightarrow> fs_event list \<Rightarrow> unit sol_handler" where
  "process_debounced_events env es = run_seq (map (process_event env) es @ [step (trigger_update_contracts env)])"

text \<open>The code of a contract: what is stored, or else what the node has.\<close>

definition contract_code :: "sol_env \<Rightarrow> u64 \<Rightarrow> address \<Rightarrow> bytes option \<Rightarrow> bytes option" where
  "contract_code env chain a code =
    (case code of Some c \<Rightarrow> if c \<noteq> [] then Some c else se_code env chain a | None \<Rightarrow> se_code env chain a)"

definition matched_contracts :: "sol_env \<Rightarrow> sol_actor \<Rightarrow> ((u64 \<times> u64) \<times> address \<times> bytes option) list
    \<Rightarrow> ((u64 \<times> u64) \<times> address \<times> bytes \<times> sol_artifact) list" where
  "matched_contracts env s cs = List.map_filter (\<lambda>((chain, dedup), a, code).
    case contract_code env chain a code of
      None \<Rightarrow> None
    | Some c \<Rightarrow> map_option (\<lambda>abi. ((chain, dedup), a, c, abi)) (get_abi_for s c)) cs"

definition name_contract :: "sol_env \<Rightarrow> (u64 \<times> u64) \<times> address \<times> bytes \<times> sol_artifact \<Rightarrow> db \<Rightarrow> db" where
  "name_contract env m d = (case m of (i, a, c, abi) \<Rightarrow>
    insert_contract_with_abi (network_id_from i) a (Some c) (Some (se_text env (sa_abi abi))) (Some (sa_name abi)) None d)"

text \<open>The counter is decremented without a check, which panics at zero (in a release build it wraps); only
  the message that brings it to zero does the work.\<close>

definition update_contracts :: "sol_env \<Rightarrow> (sol_actor \<times> db, sol_error, unit) handler" where
  "update_contracts env w =
    (case w of (s, d) \<Rightarrow>
      if so_triggers s = 0 then (Inl SolPanic, w)
      else
        (let s1 = s\<lparr>so_triggers := so_triggers s - 1\<rparr> in
          if so_triggers s1 > 0 then (Inr (), s1, d)
          else
            (let ms = matched_contracts env s1 (get_incomplete_contracts d) in
              (Inr (), if ms \<noteq> [] then s1\<lparr>so_effects := so_effects s1 @ [NotifyContracts]\<rparr> else s1, fold (name_contract env) ms d))))"

definition on_actor :: "unit sol_handler \<Rightarrow> (sol_actor \<times> db, sol_error, unit) handler" where
  "on_actor h w = (case h (fst w) of (r, s) \<Rightarrow> (r, s, snd w))"

fun sol_handle :: "sol_env \<Rightarrow> sol_msg \<Rightarrow> (sol_actor \<times> db, sol_error, unit) handler" where
  "sol_handle env (UpdateRoots roots) = on_actor (update_roots env roots)"
| "sol_handle env PollProjectRoots = on_actor (drop_failure (update_project_roots env))"
| "sol_handle env NewContract = on_actor (step (trigger_update_contracts env))"
| "sol_handle env (ProcessDebouncedEvents es) = on_actor (process_debounced_events env es)"
| "sol_handle env UpdateContracts = update_contracts env"

text \<open>\<open>receiver\<close>: the path of the settings, when there is one, is the only root.\<close>

definition sol_receiver :: "path option \<Rightarrow> internal_msg \<Rightarrow> sol_msg option" where
  "sol_receiver abi_watch_path m =
    (case m of
      SettingsUpdated \<Rightarrow> map_option (\<lambda>p. UpdateRoots [p]) abi_watch_path
    | ContractFound \<Rightarrow> Some NewContract
    | _ \<Rightarrow> None)"

section \<open>Every change is followed by an update\<close>

definition pending :: "sol_actor \<Rightarrow> nat" where
  "pending s = count_list (so_mailbox s) UpdateContracts"

definition lost :: "sol_actor \<Rightarrow> nat" where
  "lost s = count_list (so_effects s) (NotQueued UpdateContracts)"

text \<open>The counter is the number of updates that are queued or were refused; nothing is ever recorded as a
  project root.\<close>

definition sol_ok :: "sol_actor \<Rightarrow> bool" where
  "sol_ok s \<longleftrightarrow> so_triggers s = pending s + lost s \<and> so_project_roots s = []"

lemma sol_ok_simps [simp]:
  "sol_ok (s\<lparr>so_abis := a\<rparr>) = sol_ok s" "sol_ok (s\<lparr>so_roots := r\<rparr>) = sol_ok s" "sol_ok (s\<lparr>so_watched := w\<rparr>) = sol_ok s"
  "sol_ok (s\<lparr>so_effects := so_effects s @ [FinishFoundry]\<rparr>) = sol_ok s"
  "sol_ok (s\<lparr>so_effects := so_effects s @ [NotifyContracts]\<rparr>) = sol_ok s"
  "sol_ok (insert_abi x s) = sol_ok s" "sol_ok (remove_abi p s) = sol_ok s"
  by (simp_all add: sol_ok_def pending_def lost_def insert_abi_def remove_abi_def)

lemma sol_ok_trigger [simp]: "sol_ok (trigger_update_contracts env s) = sol_ok s"
  by (simp add: sol_ok_def pending_def lost_def trigger_update_contracts_def queue_own_def)

lemma sol_ok_queue [simp]: "m \<noteq> UpdateContracts \<Longrightarrow> sol_ok (queue_own env m s) = sol_ok s"
  by (simp add: sol_ok_def pending_def lost_def queue_own_def)

lemma sol_ok_fold [simp]: "sol_ok (fold insert_abi as s) = sol_ok s"
  by (induction as arbitrary: s) simp_all

lemma run_seq_keeps_at: "\<forall>m \<in> set ms. keeps P m \<Longrightarrow> P s \<Longrightarrow> P (snd (run_seq ms s))"
  by (rule keepsD [where h = "run_seq ms"], rule keeps_run_seq)

lemma keeps_scan: "keeps sol_ok (scan_project env p)"
  by (auto simp: keeps_def scan_project_def Let_def split: option.split sum.split)

lemma keeps_watch: "keeps sol_ok (watch_dir env p)" "keeps sol_ok (unwatch_dir env p)"
  by (auto simp: keeps_def watch_dir_def unwatch_dir_def)

lemma keeps_update_project_roots: "keeps sol_ok (update_project_roots env)"
proof -
  have "sol_ok (snd (update_project_roots env s))" if "sol_ok s" for s
    unfolding update_project_roots_def Let_def
    by (rule run_seq_keeps_at [where P = sol_ok, OF _ that]) (auto intro: keeps_scan keeps_watch)
  then show ?thesis by (simp add: keeps_def)
qed

lemma keeps_drop_failure: "keeps P h \<Longrightarrow> keeps P (drop_failure h)"
  by (auto simp: keeps_def drop_failure_def split: prod.split sum.split sol_error.split)

lemma keeps_paths: "keeps sol_ok (sol_add_path env p)" "keeps sol_ok (sol_remove_path env p)"
  using keeps_update_project_roots by (auto simp: keeps_def sol_add_path_def sol_remove_path_def)

lemma keeps_update_roots: "keeps sol_ok (update_roots env roots)"
proof -
  have "sol_ok (snd (update_roots env roots s))" if "sol_ok s" for s
    unfolding update_roots_def Let_def
    by (rule run_seq_keeps_at [where P = sol_ok, OF _ that]) (auto intro!: keeps_drop_failure keeps_paths keeps_step)
  then show ?thesis by (simp add: keeps_def)
qed

lemma keeps_events: "keeps sol_ok (process_debounced_events env es)"
proof -
  have "keeps sol_ok (process_event env e)" for e
    by (auto simp: keeps_def process_event_def split: list.split sum.split option.split)
  then show ?thesis unfolding process_debounced_events_def by (intro keeps_run_seq) (auto intro: keeps_step)
qed

lemma sol_handle_ok: "m \<noteq> UpdateContracts \<Longrightarrow> sol_ok (fst w) \<Longrightarrow> sol_ok (fst (snd (sol_handle env m w)))"
proof (cases m)
  case PollProjectRoots
  assume "sol_ok (fst w)"
  with PollProjectRoots keeps_drop_failure [OF keeps_update_project_roots, THEN keepsD] show ?thesis
    by (simp add: on_actor_def split_beta)
qed (simp_all add: on_actor_def split_beta keeps_update_roots [THEN keepsD] keeps_events [THEN keepsD])

text \<open>The actor takes messages from outside and its own, in whatever order they arrive.\<close>

inductive sol_reaches :: "sol_actor \<times> db \<Rightarrow> bool" where
  sol_starts: "sol_reaches (sol_new, d)"
| sol_outside: "sol_reaches w \<Longrightarrow> m \<noteq> UpdateContracts \<Longrightarrow> sol_reaches (snd (sol_handle env m w))"
| sol_own: "sol_reaches (s, d) \<Longrightarrow> so_mailbox s = m # ms \<Longrightarrow> sol_reaches (snd (sol_handle env m (s\<lparr>so_mailbox := ms\<rparr>, d)))"

lemma sol_reaches_ok: "sol_reaches w \<Longrightarrow> sol_ok (fst w)"
proof (induction rule: sol_reaches.induct)
  case (sol_starts d)
  then show ?case by (simp add: sol_ok_def sol_new_def pending_def lost_def)
next
  case (sol_outside w m env)
  then show ?case by (simp add: sol_handle_ok)
next
  case (sol_own s d m ms env)
  show ?case
  proof (cases "m = UpdateContracts")
    case True
    with sol_own show ?thesis by (auto simp: update_contracts_def sol_ok_def pending_def lost_def Let_def)
  next
    case False
    with sol_own(2,3) have "sol_ok (s\<lparr>so_mailbox := ms\<rparr>)" by (simp add: sol_ok_def pending_def lost_def)
    with False show ?thesis by (simp add: sol_handle_ok)
  qed
qed

lemma matched_contracts_fields [simp]:
  "matched_contracts env (s\<lparr>so_mailbox := ms\<rparr>) cs = matched_contracts env s cs"
  "matched_contracts env (s\<lparr>so_triggers := n\<rparr>) cs = matched_contracts env s cs"
proof -
  have "get_abi_for (s\<lparr>so_mailbox := ms\<rparr>) c = get_abi_for s c" "get_abi_for (s\<lparr>so_triggers := n\<rparr>) c = get_abi_for s c" for c
    by (simp_all add: get_abi_for_def fetch_abis_def)
  then show "matched_contracts env (s\<lparr>so_mailbox := ms\<rparr>) cs = matched_contracts env s cs"
    "matched_contracts env (s\<lparr>so_triggers := n\<rparr>) cs = matched_contracts env s cs"
    by (simp_all only: matched_contracts_def)
qed

text \<open>C24. When the actor takes one of its own update messages, the counter never underflows, and the
  contracts of the database are named exactly when no other update is queued behind it, unless one
  was ever refused by a full mailbox: then no update does anything any more.\<close>

theorem last_update_names_contracts:
  assumes "sol_reaches (s, d)" "so_mailbox s = UpdateContracts # ms"
  shows "fst (sol_handle env UpdateContracts (s\<lparr>so_mailbox := ms\<rparr>, d)) = Inr ()
    \<and> snd (snd (sol_handle env UpdateContracts (s\<lparr>so_mailbox := ms\<rparr>, d)))
      = (if UpdateContracts \<in> set ms \<or> NotQueued UpdateContracts \<in> set (so_effects s) then d
         else fold (name_contract env) (matched_contracts env s (get_incomplete_contracts d)) d)"
proof -
  have "so_triggers s = Suc (count_list ms UpdateContracts + count_list (so_effects s) (NotQueued UpdateContracts))"
    using sol_reaches_ok [OF assms(1)] assms(2) by (simp add: sol_ok_def pending_def lost_def)
  moreover have "count_list ms UpdateContracts + count_list (so_effects s) (NotQueued UpdateContracts) = 0
      \<longleftrightarrow> \<not> (UpdateContracts \<in> set ms \<or> NotQueued UpdateContracts \<in> set (so_effects s))"
    by (simp add: count_list_0_iff)
  ultimately show ?thesis by (auto simp: update_contracts_def Let_def)
qed

lemma nothing_is_unwatched: "sol_reaches w \<Longrightarrow> so_project_roots (fst w) = []"
  using sol_reaches_ok by (simp add: sol_ok_def)

section \<open>Which contracts are named\<close>

definition contract_key :: "(u64 \<times> u64) \<times> address \<times> 'a \<Rightarrow> address \<times> u64 \<times> u64" where
  "contract_key x = (case x of ((chain, dedup), a, _) \<Rightarrow> (a, chain, dedup))"

lemma contract_key_simps [simp]: "contract_key ((chain, dedup), a, x) = (a, chain, dedup)"
  by (simp add: contract_key_def)

lemma name_contract_rows:
  assumes "hm_get (db_contracts d) (contract_key m) = Some r" "m = (i, a, c, abi)"
  shows "hm_get (db_contracts (name_contract env m d)) k
    = (if k = contract_key m then Some (r\<lparr>cr_name := Some (sa_name abi), cr_abi := Some (se_text env (sa_abi abi)), cr_code := Some c\<rparr>)
       else hm_get (db_contracts d) k)"
  using assms
  by (cases i) (simp add: name_contract_def insert_contract_with_abi_def put_contract_def network_id_from_def)

lemma name_contracts_rows:
  assumes "distinct (map contract_key ms)" "\<And>m. m \<in> set ms \<Longrightarrow> hm_get (db_contracts d) (contract_key m) \<noteq> None"
  shows "hm_get (db_contracts (fold (name_contract env) ms d)) k
    = (case map_of (map (\<lambda>m. (contract_key m, snd (snd m))) ms) k of
        None \<Rightarrow> hm_get (db_contracts d) k
      | Some (c, abi) \<Rightarrow> map_option (\<lambda>r. r\<lparr>cr_name := Some (sa_name abi), cr_abi := Some (se_text env (sa_abi abi)), cr_code := Some c\<rparr>)
          (hm_get (db_contracts d) k))"
  using assms
proof (induction ms arbitrary: d)
  case (Cons m ms)
  obtain i a c abi where m: "m = (i, a, c, abi)" by (metis prod.exhaust)
  obtain r where r: "hm_get (db_contracts d) (contract_key m) = Some r" using Cons.prems(2) [of m] by auto
  note rows = name_contract_rows [OF r m, of env]
  have "hm_get (db_contracts (name_contract env m d)) (contract_key m') \<noteq> None" if "m' \<in> set ms" for m'
    using Cons.prems that by (auto simp: rows)
  moreover have "distinct (map contract_key ms)" using Cons.prems(1) by simp
  ultimately have IH: "hm_get (db_contracts (fold (name_contract env) ms (name_contract env m d))) k
    = (case map_of (map (\<lambda>m. (contract_key m, snd (snd m))) ms) k of
        None \<Rightarrow> hm_get (db_contracts (name_contract env m d)) k
      | Some (c, abi) \<Rightarrow> map_option (\<lambda>r. r\<lparr>cr_name := Some (sa_name abi), cr_abi := Some (se_text env (sa_abi abi)), cr_code := Some c\<rparr>)
          (hm_get (db_contracts (name_contract env m d)) k))"
    by (intro Cons.IH) auto
  have "map_of (map (\<lambda>m. (contract_key m, snd (snd m))) ms) (contract_key m) = None"
    using Cons.prems(1) by (auto simp: map_of_eq_None_iff image_image comp_def)
  with IH rows r m show ?case by (cases "k = contract_key m") (auto split: option.splits)
qed simp

text \<open>What becomes of one row.\<close>

definition named_row :: "sol_env \<Rightarrow> sol_actor \<Rightarrow> address \<times> u64 \<times> u64 \<Rightarrow> contract_row \<Rightarrow> contract_row" where
  "named_row env s k r = (case k of (a, chain, dedup) \<Rightarrow>
    if cr_name r \<noteq> None \<and> cr_abi r \<noteq> None then r
    else
      (case contract_code env chain a (cr_code r) of
        None \<Rightarrow> r
      | Some c \<Rightarrow>
          (case get_abi_for s c of
            None \<Rightarrow> r
          | Some abi \<Rightarrow> r\<lparr>cr_name := Some (sa_name abi), cr_abi := Some (se_text env (sa_abi abi)), cr_code := Some c\<rparr>)))"

lemma matched_keys:
  "map contract_key (matched_contracts env s cs) = map contract_key (filter (\<lambda>((chain, dedup), a, code).
    \<exists>c abi. contract_code env chain a code = Some c \<and> get_abi_for s c = Some abi) cs)"
  by (induction cs) (auto simp: matched_contracts_def split: option.splits)

lemma map_of_matched:
  assumes "distinct (map contract_key cs)"
  shows "map_of (map (\<lambda>m. (contract_key m, snd (snd m))) (matched_contracts env s cs)) (a, chain, dedup) = Some (c, abi)
    \<longleftrightarrow> (\<exists>code. ((chain, dedup), a, code) \<in> set cs \<and> contract_code env chain a code = Some c \<and> get_abi_for s c = Some abi)"
proof -
  have "distinct (map contract_key (matched_contracts env s cs))"
    unfolding matched_keys using assms by (simp add: distinct_map_filter)
  then have "distinct (map fst (map (\<lambda>m. (contract_key m, snd (snd m))) (matched_contracts env s cs)))" by (simp add: comp_def)
  from map_of_eq_Some_iff [OF this]
  have "map_of (map (\<lambda>m. (contract_key m, snd (snd m))) (matched_contracts env s cs)) (a, chain, dedup) = Some (c, abi)
    \<longleftrightarrow> ((chain, dedup), a, c, abi) \<in> set (matched_contracts env s cs)"
    by (auto simp: image_iff contract_key_def intro!: bexI [of _ "((chain, dedup), a, c, abi)"])
  also have "\<dots> \<longleftrightarrow> (\<exists>code. ((chain, dedup), a, code) \<in> set cs \<and> contract_code env chain a code = Some c \<and> get_abi_for s c = Some abi)"
    by (induction cs) (auto simp: matched_contracts_def split: option.splits)
  finally show ?thesis .
qed

lemma incomplete_contracts_rows:
  assumes "hm_ok (db_contracts d)"
  shows "((chain, dedup), a, code) \<in> set (get_incomplete_contracts d)
      \<longleftrightarrow> (\<exists>r. hm_get (db_contracts d) (a, chain, dedup) = Some r \<and> \<not> (cr_name r \<noteq> None \<and> cr_abi r \<noteq> None) \<and> code = cr_code r)"
    "distinct (map contract_key (get_incomplete_contracts d))"
proof -
  show "((chain, dedup), a, code) \<in> set (get_incomplete_contracts d)
      \<longleftrightarrow> (\<exists>r. hm_get (db_contracts d) (a, chain, dedup) = Some r \<and> \<not> (cr_name r \<noteq> None \<and> cr_abi r \<noteq> None) \<and> code = cr_code r)"
    using assms by (auto simp: get_incomplete_contracts_def image_iff map_of_eq_Some_iff)
  have "map contract_key (get_incomplete_contracts d) = map fst (filter (\<lambda>(_, r). cr_name r = None \<or> cr_abi r = None) (db_contracts d))"
    by (auto simp: get_incomplete_contracts_def)
  with assms show "distinct (map contract_key (get_incomplete_contracts d))" by (simp add: distinct_map_filter)
qed

text \<open>C19. An update gives every contract of the database that lacks a name or an ABI, and whose code (as
  stored, or as the node has it) is close to that of an artifact, the name and ABI of the first such
  artifact in the order of the paths; every other contract stays as it is, and none is added.\<close>

theorem update_names_contracts:
  assumes "hm_ok (db_contracts d)"
  shows "hm_get (db_contracts (fold (name_contract env) (matched_contracts env s (get_incomplete_contracts d)) d)) k
    = map_option (named_row env s k) (hm_get (db_contracts d) k)"
proof -
  let ?cs = "get_incomplete_contracts d" and ?ms = "matched_contracts env s (get_incomplete_contracts d)"
  obtain a chain dedup where k: "k = (a, chain, dedup)" by (metis prod.exhaust)
  have dist: "distinct (map contract_key ?ms)"
    unfolding matched_keys using incomplete_contracts_rows(2) [OF assms] by (simp add: distinct_map_filter)
  have rows: "hm_get (db_contracts d) (contract_key m) \<noteq> None" if "m \<in> set ?ms" for m
  proof -
    have "contract_key m \<in> set (map contract_key ?ms)" using that by simp
    then have "contract_key m \<in> set (map contract_key ?cs)" unfolding matched_keys by auto
    then obtain chain dedup a code where "((chain, dedup), a, code) \<in> set ?cs" "contract_key m = (a, chain, dedup)" by auto
    with incomplete_contracts_rows(1) [OF assms] show ?thesis by auto
  qed
  show ?thesis
  proof (cases "map_of (map (\<lambda>m. (contract_key m, snd (snd m))) ?ms) k")
    case None
    have "named_row env s k r = r" if "hm_get (db_contracts d) k = Some r" for r
    proof (rule ccontr)
      assume "named_row env s k r \<noteq> r"
      then obtain c abi where "\<not> (cr_name r \<noteq> None \<and> cr_abi r \<noteq> None)" "contract_code env chain a (cr_code r) = Some c"
        "get_abi_for s c = Some abi"
        by (auto simp: named_row_def k split: if_splits option.splits)
      with that have "map_of (map (\<lambda>m. (contract_key m, snd (snd m))) ?ms) k = Some (c, abi)"
        unfolding k map_of_matched [OF incomplete_contracts_rows(2) [OF assms]] incomplete_contracts_rows(1) [OF assms] by blast
      with None show False by simp
    qed
    then have "map_option (named_row env s k) (hm_get (db_contracts d) k) = hm_get (db_contracts d) k"
      by (cases "hm_get (db_contracts d) k") simp_all
    then show ?thesis using name_contracts_rows [OF dist rows, of env k] None by simp
  next
    case (Some q)
    obtain c abi where q: "q = (c, abi)" by (cases q)
    from Some obtain r where "hm_get (db_contracts d) k = Some r" "\<not> (cr_name r \<noteq> None \<and> cr_abi r \<noteq> None)"
      "contract_code env chain a (cr_code r) = Some c" "get_abi_for s c = Some abi"
      unfolding q k map_of_matched [OF incomplete_contracts_rows(2) [OF assms]] incomplete_contracts_rows(1) [OF assms] by blast
    then show ?thesis using name_contracts_rows [OF dist rows, of env k] Some q by (auto simp: named_row_def k)
  qed
qed

section \<open>An artifact is written and its contract named\<close>

definition toy_sol_env :: sol_env where
  "toy_sol_env = \<lparr>se_tree = (\<lambda>_. None), se_exists = (\<lambda>_. True), se_glob = (\<lambda>_. Inr []),
    se_read = (\<lambda>_. Some (Some (JObj [(''abi'', JArr []), (''deployedBytecode'', JStr ''0x01'')]))),
    se_bytes = (\<lambda>_. Some [1]), se_text = (\<lambda>_. ''[]''), se_code = (\<lambda>_ _. None), se_foundry_finished = Inr True,
    se_watch = (\<lambda>_. True), se_unwatch = (\<lambda>_. True), se_queues = True\<rparr>"

definition toy_artifact_path :: path where
  "toy_artifact_path = [''p'', ''out'', ''C.sol'', ''C.json'']"

definition toy_artifact :: sol_artifact where
  "toy_artifact = \<lparr>sa_path = toy_artifact_path, sa_project = ''p'', sa_solidity_file = ''C.sol'', sa_name = ''C'', sa_code = [1],
    sa_abi = JArr [], sa_method_identifiers = JNull\<rparr>"

definition toy_sol_db :: db where
  "toy_sol_db = empty_db\<lparr>db_contracts := [((7, 1, 0), \<lparr>cr_abi = None, cr_name = None, cr_proxy_for = None, cr_proxied_by = None,
    cr_code = Some [1]\<rparr>)]\<rparr>"

lemma toy_artifact_of_path: "artifact_of_path toy_sol_env toy_artifact_path = Inr (Some toy_artifact)"
  by (simp add: artifact_of_path_def toy_artifact_path_def json_extension_def file_name_def toy_sol_env_def artifact_code_def
    json_is_null_def toy_artifact_def suffix_def)

lemma toy_events:
  "sol_handle toy_sol_env (ProcessDebouncedEvents [\<lparr>fe_access = False, fe_paths = [toy_artifact_path]\<rparr>]) (sol_new, toy_sol_db)
    = (Inr (), sol_new\<lparr>so_abis := [(toy_artifact_path, toy_artifact)], so_triggers := 1, so_mailbox := [UpdateContracts]\<rparr>, toy_sol_db)"
proof -
  have "process_event toy_sol_env \<lparr>fe_access = False, fe_paths = [toy_artifact_path]\<rparr> sol_new
      = (Inr (), sol_new\<lparr>so_abis := [(toy_artifact_path, toy_artifact)]\<rparr>)"
    by (simp add: process_event_def artifact_of_event_def toy_artifact_of_path insert_abi_def sol_new_def toy_artifact_def)
  moreover have "se_queues toy_sol_env" by (simp add: toy_sol_env_def)
  ultimately show ?thesis
    by (simp add: on_actor_def process_debounced_events_def trigger_update_contracts_def queue_own_def sol_new_def)
qed

theorem last_update_names_contracts_witness:
  "fst (sol_handle toy_sol_env UpdateContracts
      (sol_new\<lparr>so_abis := [(toy_artifact_path, toy_artifact)], so_triggers := 1, so_mailbox := []\<rparr>, toy_sol_db)) = Inr ()"
proof -
  have "sol_reaches (sol_new\<lparr>so_abis := [(toy_artifact_path, toy_artifact)], so_triggers := 1, so_mailbox := [UpdateContracts]\<rparr>, toy_sol_db)"
    using sol_outside [OF sol_starts [of toy_sol_db], of "ProcessDebouncedEvents [\<lparr>fe_access = False, fe_paths = [toy_artifact_path]\<rparr>]" toy_sol_env]
    unfolding toy_events by simp
  from last_update_names_contracts [OF this, of "[]" toy_sol_env] show ?thesis by simp
qed

theorem update_names_contracts_witness:
  "map_option cr_name (hm_get (db_contracts (fold (name_contract toy_sol_env)
    (matched_contracts toy_sol_env (sol_new\<lparr>so_abis := [(toy_artifact_path, toy_artifact)]\<rparr>) (get_incomplete_contracts toy_sol_db)) toy_sol_db)) (7, 1, 0))
    = Some (Some ''C'')"
proof -
  have "hm_ok (db_contracts toy_sol_db)" by (simp add: toy_sol_db_def)
  from update_names_contracts [OF this, of toy_sol_env "sol_new\<lparr>so_abis := [(toy_artifact_path, toy_artifact)]\<rparr>" "(7, 1, 0)"]
  show ?thesis
    by (simp add: named_row_def toy_sol_db_def contract_code_def get_abi_for_def fetch_abis_def toy_artifact_def diff_score_def below_threshold_def)
qed

text \<open>Reading an artifact takes it out of the index, as deleting it does.\<close>

lemma access_removes_artifact:
  assumes "process_event env \<lparr>fe_access = True, fe_paths = p # ps\<rparr> s = (Inr (), s')"
  shows "hm_get (so_abis s') p = None"
proof -
  from assms have "s' = remove_abi p s" by (simp add: process_event_def artifact_of_event_def)
  then show ?thesis by (simp add: remove_abi_def AList.delete_conv)
qed

text \<open>A pattern may stand anywhere in the name of the source file.\<close>

lemma attempt_is_skipped: "skipped [''p'', ''out'', ''Attempt.sol'', ''Attempt.json'']"
proof -
  have "''Attempt.sol'' = ''At'' @ ''temp'' @ ''t.sol''" by simp
  then have "sublist ''temp'' ''Attempt.sol''" unfolding sublist_def by blast
  then show ?thesis by (simp add: skipped_def skip_patterns_def)
qed

end
