(* ===== verification/App_Contracts.thy ===== *)
theory App_Contracts
  imports Sol_Artifacts Proxy_Detect Networks
begin

text \<open>
  Adding and removing a contract (\<open>add_contract\<close> and \<open>remove_contract\<close> in \<open>bin/src/commands.rs\<close>): a contract
  that is a proxy is followed to what it stands for. The networks, the index of compiled contracts and
  the detection of proxies are those of the model; the nodes and Etherscan are a parameter.
\<close>

section \<open>Adding\<close>

record contracts_env =
  ce_networks :: networks_actor
  ce_connects :: "url \<Rightarrow> bool"
  ce_node :: "url \<Rightarrow> proxy_node"
  ce_forked :: "url \<Rightarrow> string + u64 option"
  ce_probe :: probe
  ce_sol :: sol_actor
  ce_text :: "json \<Rightarrow> string"
  ce_etherscan_name :: "u64 \<Rightarrow> address \<Rightarrow> string + string option"
  ce_etherscan_abi :: "u64 \<Rightarrow> address \<Rightarrow> string + string option"

datatype add_error = AddFails string | AddPanic

text \<open>The name and the ABI that Etherscan has for a contract.\<close>

definition etherscan_info :: "contracts_env \<Rightarrow> u64 \<Rightarrow> address \<Rightarrow> add_error + string option \<times> string option" where
  "etherscan_info env chain a =
    (case ce_etherscan_name env chain a of
      Inl e \<Rightarrow> Inl (AddFails e)
    | Inr name \<Rightarrow> map_sum AddFails (Pair name) (ce_etherscan_abi env chain a))"

definition contract_info ::
    "contracts_env \<Rightarrow> u64 \<Rightarrow> network \<Rightarrow> address \<Rightarrow> bytes \<Rightarrow> proxy_type option \<Rightarrow> add_error + string option \<times> string option" where
  "contract_info env chain net a code proxy =
    (case proxy of
      Some (Eip1167 _) \<Rightarrow> Inr (Some ''EIP1167'', None)
    | _ \<Rightarrow>
        (case get_abi_for (ce_sol env) code of
          Some abi \<Rightarrow> Inr (Some (sa_name abi), Some (ce_text env (sa_abi abi)))
        | None \<Rightarrow>
            (case ce_forked env (http_url net) of
              Inr (Some fork_chain) \<Rightarrow> etherscan_info env fork_chain a
            | _ \<Rightarrow>
                (case is_dev (ce_probe env) net of
                  Inl e \<Rightarrow> Inl (AddFails e)
                | Inr dev \<Rightarrow> if \<not> dev then etherscan_info env chain a else Inr (None, None)))))"

text \<open>What is learnt of one contract: its code, its name and ABI, and what it stands for. The network is
  looked up by the chain alone.\<close>

definition examine :: "contracts_env \<Rightarrow> u64 \<Rightarrow> address \<Rightarrow> add_error + bytes \<times> (string option \<times> string option) \<times> address option" where
  "examine env chain a =
    (case nw_get (ce_networks env) (KeyChainId chain) of
      None \<Rightarrow> Inl (AddFails ''network not found'')
    | Some net \<Rightarrow>
        if \<not> ce_connects env (http_url net) then Inl (AddFails ''provider'')
        else
          (let node = ce_node env (http_url net) in
            case pn_code node a of
              Inl _ \<Rightarrow> Inl (AddFails ''Failed to get code'')
            | Inr code \<Rightarrow>
                (case detect_proxy node a of
                  Inl DetectPanic \<Rightarrow> Inl AddPanic
                | Inl _ \<Rightarrow> Inl (AddFails ''Failed to detect proxy type'')
                | Inr proxy \<Rightarrow>
                    map_sum id (\<lambda>info. (code, info, map_option implementation proxy)) (contract_info env chain net a code proxy))))"

text \<open>Both numbers are cut to 32 bits before the row is written.\<close>

definition added_id :: "u64 \<Rightarrow> u64 \<Rightarrow> network_id" where
  "added_id chain dedup = network_id_from (ucast (ucast chain :: u32), ucast (ucast dedup :: u32))"

text \<open>\<open>None\<close> is a call that does not return. The last component is what the user interface is told.\<close>

partial_function (option) cmd_add_contract ::
    "contracts_env \<Rightarrow> u64 \<Rightarrow> u64 \<Rightarrow> address \<Rightarrow> db \<Rightarrow> ((add_error + unit) \<times> db \<times> ui_notify list) option" where
  "cmd_add_contract env chain dedup a d =
    (case examine env chain a of
      Inl e \<Rightarrow> Some (Inl e, d, [])
    | Inr (code, (name, abi), proxy_for) \<Rightarrow>
        (let d' = insert_contract_with_abi (added_id chain dedup) a (Some code) abi name proxy_for d in
          case proxy_for of
            Some p \<Rightarrow> cmd_add_contract env chain dedup p d'
          | None \<Rightarrow> Some (Inr (), d', [ContractsUpdated])))"

declare cmd_add_contract.simps [code]

section \<open>When adding ends\<close>

text \<open>What a contract is followed to.\<close>

definition stands_for :: "contracts_env \<Rightarrow> u64 \<Rightarrow> address \<Rightarrow> address option" where
  "stands_for env chain a = (case examine env chain a of Inl _ \<Rightarrow> None | Inr (_, _, p) \<Rightarrow> p)"

lemma add_step:
  "stands_for env chain a = None \<Longrightarrow> cmd_add_contract env chain dedup a d \<noteq> None"
  "stands_for env chain a = Some p \<Longrightarrow> \<exists>d'. cmd_add_contract env chain dedup a d = cmd_add_contract env chain dedup p d'"
  by (subst cmd_add_contract.simps, auto simp: stands_for_def Let_def split: sum.splits prod.splits option.splits)+

definition followed :: "contracts_env \<Rightarrow> u64 \<Rightarrow> address \<Rightarrow> nat \<Rightarrow> address option" where
  "followed env chain a n = ((\<lambda>x. Option.bind x (stands_for env chain)) ^^ n) (Some a)"

lemma bind_pow_None: "((\<lambda>x. Option.bind x (f :: 'a \<Rightarrow> 'a option)) ^^ n) None = None"
  by (induction n) simp_all

lemma followed_Suc: "followed env chain a (Suc n) = (case stands_for env chain a of None \<Rightarrow> None | Some p \<Rightarrow> followed env chain p n)"
  unfolding followed_def by (simp only: funpow_Suc_right comp_def bind_simps) (simp add: bind_pow_None split: option.split)

lemma followed_0 [simp]: "followed env chain a 0 = Some a"
  by (simp add: followed_def)

lemma add_ends: "followed env chain a n = None \<Longrightarrow> cmd_add_contract env chain dedup a d \<noteq> None"
proof (induction n arbitrary: a d)
  case (Suc n)
  show ?case
  proof (cases "stands_for env chain a")
    case None
    then show ?thesis by (rule add_step)
  next
    case (Some p)
    from add_step(2) [OF this] obtain d' where "cmd_add_contract env chain dedup a d = cmd_add_contract env chain dedup p d'" by blast
    moreover have "followed env chain p n = None" using Suc.prems Some by (simp add: followed_Suc)
    ultimately show ?thesis using Suc.IH by simp
  qed
qed simp

lemma ended_add: "cmd_add_contract env chain dedup a d = Some y \<Longrightarrow> \<exists>n. followed env chain a n = None"
proof (induction rule: cmd_add_contract.raw_induct [rotated, consumes 1, case_names call])
  case (call rec env chain dedup a d y)
  show ?case
  proof (cases "stands_for env chain a")
    case None
    then have "followed env chain a (Suc 0) = None" by (simp add: followed_Suc)
    then show ?thesis by blast
  next
    case (Some p)
    then obtain d' where "rec env chain dedup p d' = Some y"
      using call(2) by (auto simp: stands_for_def Let_def split: sum.splits prod.splits)
    from call(1) [OF this] obtain n where "followed env chain p n = None" by blast
    with Some have "followed env chain a (Suc n) = None" by (simp add: followed_Suc)
    then show ?thesis by blast
  qed
qed

text \<open>C21. Adding a contract returns exactly when following it from proxy to implementation comes to an end;
  where proxies stand for each other in a circle it does not return.\<close>

theorem add_contract_ends_iff:
  "(\<exists>y. cmd_add_contract env chain dedup a d = Some y) = (\<exists>n. followed env chain a n = None)"
  by (metis add_ends ended_add not_None_eq)

lemma self_proxy_never_added: "stands_for env chain a = Some a \<Longrightarrow> cmd_add_contract env chain dedup a d = None"
proof -
  assume self: "stands_for env chain a = Some a"
  have "followed env chain a n = Some a" for n
    by (induction n) (simp_all add: followed_Suc self)
  then have "\<nexists>n. followed env chain a n = None" by simp
  then show ?thesis by (meson ended_add not_None_eq)
qed

text \<open>A chain above 32 bits is stored as another.\<close>

lemma added_under_another_chain: "id_chain_id (added_id 4294967297 0) = 1"
  by (simp add: added_id_def network_id_from_def)

section \<open>Removing\<close>

lemma delete_shorter: "hm_get m k \<noteq> None \<Longrightarrow> length (hm_remove k m) < length m"
proof (induction m)
  case (Cons e m)
  have "length (hm_remove k m) \<le> length m" by (simp add: AList.delete_eq)
  with Cons show ?case by (cases e) (auto split: if_splits)
qed simp

text \<open>The database and what the user interface is told: one message for every contract of the chain. The
  recursion ends because each call deletes a row.\<close>

function cmd_remove_contract :: "u64 \<Rightarrow> u32 \<Rightarrow> address \<Rightarrow> db \<Rightarrow> db \<times> ui_notify list" where
  "cmd_remove_contract chain dedup a d =
    (let has_proxy = get_proxy chain dedup a d; d' = remove_contract chain dedup a d in
      case has_proxy of
        Some proxy_for \<Rightarrow> (case cmd_remove_contract chain dedup proxy_for d' of (d'', notes) \<Rightarrow> (d'', notes @ [ContractsUpdated]))
      | None \<Rightarrow> (d', [ContractsUpdated]))"
  by pat_completeness auto

termination
proof (relation "measure (\<lambda>(_, _, _, d). length (db_contracts d))")
  fix chain :: u64 and dedup :: u32 and a :: address and d :: db and proxy d' p
  assume "proxy = get_proxy chain dedup a d" "d' = remove_contract chain dedup a d" "proxy = Some p"
  then show "((chain, dedup, p, d'), chain, dedup, a, d) \<in> measure (\<lambda>(_, _, _, d). length (db_contracts d))"
    using delete_shorter [of "db_contracts d" "(a, chain, dedup_key dedup)"]
    by (cases "hm_get (db_contracts d) (a, chain, dedup_key dedup)") (simp_all add: get_proxy_def remove_contract_def)
qed simp

declare cmd_remove_contract.simps [simp del]

text \<open>The contracts that are reached from one by following the rows of a network.\<close>

inductive proxied :: "u64 \<Rightarrow> u32 \<Rightarrow> db \<Rightarrow> address \<Rightarrow> address \<Rightarrow> bool" for chain dedup d where
  proxied_self: "proxied chain dedup d a a"
| proxied_next: "proxied chain dedup d p b \<Longrightarrow> get_proxy chain dedup a d = Some p \<Longrightarrow> proxied chain dedup d a b"

lemma get_proxy_remove:
  "get_proxy chain dedup b (remove_contract chain dedup a d) = (if b = a then None else get_proxy chain dedup b d)"
  by (simp add: get_proxy_def remove_contract_def AList.delete_conv)

lemma proxied_mono:
  "proxied chain dedup (remove_contract chain dedup a d) b c \<Longrightarrow> proxied chain dedup d b c"
proof (induction rule: proxied.induct)
  case (proxied_next p b x)
  then show ?case by (auto simp: get_proxy_remove intro: proxied.intros split: if_splits)
qed (rule proxied_self)

text \<open>What is reached without the row of \<open>a\<close>.\<close>

lemma proxied_without:
  assumes "proxied chain dedup d x c" "get_proxy chain dedup a d = Some p"
  shows "proxied chain dedup (remove_contract chain dedup a d) x c \<or> c = a
    \<or> proxied chain dedup (remove_contract chain dedup a d) p c"
  using assms
proof (induction rule: proxied.induct)
  case (proxied_next q c x)
  then show ?case by (cases "x = a") (auto simp: get_proxy_remove intro: proxied.intros)
qed (simp add: proxied_self)

lemma proxied_step:
  "get_proxy chain dedup a d = Some p \<Longrightarrow>
    proxied chain dedup d a b \<longleftrightarrow> b = a \<or> proxied chain dedup (remove_contract chain dedup a d) p b"
  by (metis proxied.simps proxied_mono proxied_without option.inject)

lemma proxied_end: "get_proxy chain dedup a d = None \<Longrightarrow> proxied chain dedup d a b \<longleftrightarrow> b = a"
  by (auto elim: proxied.cases intro: proxied_self)

text \<open>C20. Removing a contract ends, also where proxies stand for each other in a circle, and deletes exactly
  the rows of its network that are reached from it; every other row stays.\<close>

theorem remove_contract_removes_its_chain:
  "hm_get (db_contracts (fst (cmd_remove_contract chain dedup a d))) (b, c, i)
    = (if c = chain \<and> i = dedup_key dedup \<and> proxied chain dedup d a b then None else hm_get (db_contracts d) (b, c, i))"
proof (induction chain dedup a d rule: cmd_remove_contract.induct)
  case (1 chain dedup a d)
  let ?d = "remove_contract chain dedup a d"
  have del: "hm_get (db_contracts ?d) (b, c, i) = (if c = chain \<and> i = dedup_key dedup \<and> b = a then None else hm_get (db_contracts d) (b, c, i))" for b c i
    by (auto simp: remove_contract_def AList.delete_conv)
  show ?case
  proof (cases "get_proxy chain dedup a d")
    case None
    then show ?thesis by (simp add: cmd_remove_contract.simps [of chain dedup a d] del proxied_end)
  next
    case (Some p)
    have "fst (cmd_remove_contract chain dedup a d) = fst (cmd_remove_contract chain dedup p ?d)"
      by (simp add: cmd_remove_contract.simps [of chain dedup a d] Some Let_def split_beta)
    with 1 [OF refl refl Some] show ?thesis by (auto simp: del proxied_step [OF Some])
  qed
qed

end
