(* ===== verification/Docker.thy ===== *)
theory Docker
  imports Json "HOL-Library.Sublist"
begin

text \<open>
  The manager of the container of the local stacks (\<open>crates/stacks/src/docker.rs\<close>). The state of a manager
  is in its type, as in the code, where a field of type \<open>PhantomData\<close> holds it, so an operation can only be
  applied to a manager in its state. The machine (programs, files, variables, the HTTP API of the
  container) is a parameter with a state \<open>'m\<close> of its own; an error is its text.
\<close>

section \<open>The machine\<close>

record process =
  pr_success :: bool
  pr_stdout :: string
  pr_stderr :: string

text \<open>A request that was not answered, or the answer: whether its status is a success, the status, the body.\<close>

datatype http_reply = NoReply string | HttpReply bool string "json option"

record 'm machine =
  sv_run :: "string \<Rightarrow> string list \<Rightarrow> 'm \<Rightarrow> (string + process) \<times> 'm"
  sv_var :: "string \<Rightarrow> string option"
  sv_create_dir_all :: "string \<Rightarrow> 'm \<Rightarrow> (string + unit) \<times> 'm"
  sv_canonicalize :: "string \<Rightarrow> 'm \<Rightarrow> (string + string) \<times> 'm"
  sv_debug :: "string \<Rightarrow> string"
  sv_http :: "string \<Rightarrow> string \<Rightarrow> json option \<Rightarrow> 'm \<Rightarrow> http_reply \<times> 'm"
  sv_chain_id :: "string \<Rightarrow> 'm \<Rightarrow> (string + string) \<times> 'm"

type_synonym ('m, 'a) machine_handler = "('m, string, 'a) handler"

definition give :: "string + 'a \<Rightarrow> ('m, 'a) machine_handler" where
  "give r m = (r, m)"

text \<open>\<open>Path::join\<close> with a relative path.\<close>

definition path_join :: "string \<Rightarrow> string \<Rightarrow> string" where
  "path_join p q = (if p = [] \<or> last p = CHR ''/'' then p @ q else p @ ''/'' @ q)"

section \<open>Managers\<close>

datatype initial = Initial
datatype docker_socket_ready = DockerSocketReady
datatype docker_installed = DockerInstalled
datatype image_available = ImageAvailable
datatype data_directory_ready = DataDirectoryReady
datatype container_running = ContainerRunning
datatype container_not_running = ContainerNotRunning

datatype 's phantom = PhantomData

record 's docker_manager =
  dm_data_dir :: string
  dm_image_name :: string
  dm_container_name :: string
  dm_container_port :: u16
  dm_host_port :: u16
  dm_docker_bin :: "string option"
  dm_socket_path :: "string option"
  dm_state :: "'s phantom"

definition transition :: "'s docker_manager \<Rightarrow> 't docker_manager" where
  "transition d = \<lparr>dm_data_dir = dm_data_dir d, dm_image_name = dm_image_name d, dm_container_name = dm_container_name d,
    dm_container_port = dm_container_port d, dm_host_port = dm_host_port d, dm_docker_bin = dm_docker_bin d,
    dm_socket_path = dm_socket_path d, dm_state = PhantomData\<rparr>"

definition docker_bin :: "'s docker_manager \<Rightarrow> string + string" where
  "docker_bin d = ok_or ''Docker binary not set'' (dm_docker_bin d)"

definition socket_path :: "'s docker_manager \<Rightarrow> string + string" where
  "socket_path d = ok_or ''Socket path not set'' (dm_socket_path d)"

definition ps_args :: "string \<Rightarrow> string list" where
  "ps_args name = [''ps'', ''--filter'', ''name='' @ name, ''--format'', ''{{.Ports}}'']"

definition port_mapping :: "string \<Rightarrow> 's docker_manager \<Rightarrow> string" where
  "port_mapping sep d = show_dec (unat (dm_host_port d)) @ sep @ show_dec (unat (dm_container_port d))"

definition is_container_running :: "'m machine \<Rightarrow> 's docker_manager \<Rightarrow> ('m, bool) machine_handler" where
  "is_container_running mc d =
    and_then (give (docker_bin d)) (\<lambda>bin.
    and_then (sv_run mc bin (ps_args (dm_container_name d))) (\<lambda>out.
      give (Inr (sublist (port_mapping ''->'' d) (trim (pr_stdout out))))))"

definition dm_new :: "string \<Rightarrow> string \<Rightarrow> string \<Rightarrow> u16 \<Rightarrow> u16 \<Rightarrow> initial docker_manager" where
  "dm_new data_dir image_name container_name container_port host_port =
    \<lparr>dm_data_dir = data_dir, dm_image_name = image_name, dm_container_name = container_name,
     dm_container_port = container_port, dm_host_port = host_port, dm_docker_bin = None, dm_socket_path = None,
     dm_state = PhantomData\<rparr>"

section \<open>Getting ready\<close>

definition check_socket_and_bin :: "'m machine \<Rightarrow> initial docker_manager \<Rightarrow> ('m, docker_socket_ready docker_manager) machine_handler" where
  "check_socket_and_bin mc d m =
    (case sv_run mc ''podman'' [''--version''] m of (r, m') \<Rightarrow>
      (let podman = (case r of Inl _ \<Rightarrow> False | Inr out \<Rightarrow> pr_success out);
           xdg_runtime_dir = (case sv_var mc ''XDG_RUNTIME_DIR'' of None \<Rightarrow> ''/run/user/1000'' | Some v \<Rightarrow> v) in
        (Inr (transition
          (if podman then d\<lparr>dm_docker_bin := Some ''podman'', dm_socket_path := Some (xdg_runtime_dir @ ''/podman/podman.sock'')\<rparr>
           else d\<lparr>dm_docker_bin := Some ''docker'', dm_socket_path := Some ''/var/run/docker.sock''\<rparr>)), m')))"

definition check_docker_installed :: "'m machine \<Rightarrow> docker_socket_ready docker_manager \<Rightarrow> ('m, docker_installed docker_manager) machine_handler" where
  "check_docker_installed mc d =
    and_then (give (docker_bin d)) (\<lambda>bin.
    and_then (sv_run mc bin [''--version'']) (\<lambda>out.
      give (if pr_success out then Inr (transition d) else Inl ''Docker/Podman is not installed'')))"

definition check_image_available :: "'m machine \<Rightarrow> docker_installed docker_manager \<Rightarrow> ('m, image_available docker_manager) machine_handler" where
  "check_image_available mc d =
    and_then (give (docker_bin d)) (\<lambda>bin.
    and_then (sv_run mc bin [''pull'', dm_image_name d]) (\<lambda>pulled.
      if \<not> pr_success pulled then give (Inl (''Failed to pull image '' @ dm_image_name d @ '': '' @ pr_stderr pulled))
      else and_then (sv_run mc bin [''images'', ''-q'', dm_image_name d]) (\<lambda>verified.
        give (if trim (pr_stdout verified) = [] then Inl (''Image not found after pull: '' @ dm_image_name d)
              else Inr (transition d)))))"

definition ensure_data_directory :: "'m machine \<Rightarrow> image_available docker_manager \<Rightarrow> ('m, data_directory_ready docker_manager) machine_handler" where
  "ensure_data_directory mc d m =
    (case sv_create_dir_all mc (dm_data_dir d) m of
      (Inl _, m') \<Rightarrow> (Inl (''Failed to create directory: '' @ sv_debug mc (dm_data_dir d)), m')
    | (Inr _, m') \<Rightarrow> (Inr (transition d), m'))"

definition dm_initialize :: "data_directory_ready docker_manager \<Rightarrow> container_not_running docker_manager" where
  "dm_initialize d = transition d"

section \<open>Running the container\<close>

definition stop_container :: "'m machine \<Rightarrow> string \<Rightarrow> 's docker_manager \<Rightarrow> ('m, unit) machine_handler" where
  "stop_container mc bin d =
    and_then (sv_run mc bin [''stop'', dm_container_name d]) (\<lambda>out.
      give (if pr_success out then Inr () else Inl (''Failed to stop container: '' @ pr_stderr out)))"

text \<open>Whether the removal succeeds does not matter.\<close>

definition remove_container :: "'m machine \<Rightarrow> string \<Rightarrow> 's docker_manager \<Rightarrow> ('m, unit) machine_handler" where
  "remove_container mc bin d = and_then (sv_run mc bin [''rm'', dm_container_name d]) (\<lambda>_. give (Inr ()))"

definition run_args :: "string \<Rightarrow> string \<Rightarrow> string \<Rightarrow> string \<Rightarrow> 's docker_manager \<Rightarrow> string list" where
  "run_args bin socket home_root data_root d =
    [''run'', ''-d'', ''-v'', data_root @ '':'' @ home_root, ''-e'', ''DATA_ROOT='' @ home_root,
     ''-v'', socket @ '':/var/run/docker.sock'', ''--init'', ''-p'', port_mapping '':'' d,
     if sublist ''podman'' bin then ''--replace'' else ''--rm'', ''--name='' @ dm_container_name d, dm_image_name d]"

definition start_container :: "'m machine \<Rightarrow> string \<Rightarrow> 's docker_manager \<Rightarrow> ('m, container_running docker_manager) machine_handler" where
  "start_container mc bin d =
    and_then (give (socket_path d)) (\<lambda>socket.
    and_then (sv_canonicalize mc (case sv_var mc ''HOME'' of None \<Rightarrow> ''/home/user'' | Some h \<Rightarrow> h)) (\<lambda>home.
    and_then (sv_canonicalize mc (dm_data_dir d)) (\<lambda>data_root.
    and_then (sv_run mc bin (run_args bin socket (path_join home ''.config/ethui/stacks/local'') data_root d)) (\<lambda>out.
      give (if pr_success out then Inr (transition d) else Inl (''Failed to start container: '' @ pr_stderr out))))))"

text \<open>\<open>run\<close> of a manager whose data directory is ready.\<close>

definition run_ready :: "'m machine \<Rightarrow> data_directory_ready docker_manager \<Rightarrow> ('m, container_running docker_manager) machine_handler" where
  "run_ready mc d =
    and_then (give (docker_bin d)) (\<lambda>bin.
    and_then (is_container_running mc d) (\<lambda>running.
    and_then (if running \<and> sublist ''docker'' bin then stop_container mc bin d else give (Inr ())) (\<lambda>_.
    and_then (if sublist ''docker'' bin then remove_container mc bin d else give (Inr ())) (\<lambda>_.
      start_container mc bin d))))"

text \<open>\<open>run\<close> of a manager whose container does not run: what does not run is not removed either.\<close>

definition run_stopped :: "'m machine \<Rightarrow> container_not_running docker_manager \<Rightarrow> ('m, container_running docker_manager) machine_handler" where
  "run_stopped mc d =
    and_then (give (docker_bin d)) (\<lambda>bin.
    and_then (is_container_running mc d) (\<lambda>running.
    and_then (if running \<and> sublist ''docker'' bin
        then and_then (stop_container mc bin d) (\<lambda>_. remove_container mc bin d) else give (Inr ())) (\<lambda>_.
      start_container mc bin d)))"

definition check_health :: "'m machine \<Rightarrow> container_running docker_manager \<Rightarrow> ('m, container_running docker_manager) machine_handler" where
  "check_health mc d = and_then (is_container_running mc d) (\<lambda>running.
    give (if running then Inr d else Inl (''Container not running: '' @ dm_container_name d)))"

definition dm_stop :: "'m machine \<Rightarrow> container_running docker_manager \<Rightarrow> ('m, container_not_running docker_manager) machine_handler" where
  "dm_stop mc d =
    and_then (is_container_running mc d) (\<lambda>running.
      if \<not> running then give (Inr (transition d))
      else and_then (give (docker_bin d)) (\<lambda>bin.
        and_then (stop_container mc bin d) (\<lambda>_.
        and_then (remove_container mc bin d) (\<lambda>_. give (Inr (transition d))))))"

definition check_stopped :: "'m machine \<Rightarrow> container_not_running docker_manager \<Rightarrow> ('m, container_not_running docker_manager) machine_handler" where
  "check_stopped mc d = and_then (is_container_running mc d) (\<lambda>running.
    give (if \<not> running then Inr d else Inl (''Container '' @ dm_container_name d @ '' is still running'')))"

text \<open>\<open>initialize\<close>: a manager of the image of the stacks; whether its container runs is not looked at.\<close>

definition stacks_manager :: "u16 \<Rightarrow> string \<Rightarrow> initial docker_manager" where
  "stacks_manager port config_dir =
    dm_new (path_join config_dir ''local/'') ''ghcr.io/ethui/stacks:latest'' ''ethui-local-stacks'' 4000 port"

definition initialize :: "'m machine \<Rightarrow> u16 \<Rightarrow> string \<Rightarrow> ('m, container_not_running docker_manager) machine_handler" where
  "initialize mc port config_dir =
    and_then (check_socket_and_bin mc (stacks_manager port config_dir)) (\<lambda>d1.
    and_then (check_docker_installed mc d1) (\<lambda>d2.
    and_then (check_image_available mc d2) (\<lambda>d3.
    and_then (ensure_data_directory mc d3) (\<lambda>d4.
      give (Inr (dm_initialize d4))))))"

section \<open>The API of the container\<close>

definition api_url :: "'s docker_manager \<Rightarrow> string" where
  "api_url d = ''http://api.local.ethui.dev:'' @ show_dec (unat (dm_host_port d)) @ ''/stacks''"

definition create_stack :: "'m machine \<Rightarrow> container_running docker_manager \<Rightarrow> string \<Rightarrow> ('m, unit) machine_handler" where
  "create_stack mc d slug m =
    (case sv_http mc ''POST'' (api_url d) (Some (JObj [(''slug'', JStr slug)])) m of
      (NoReply _, m') \<Rightarrow> (Inl (''Failed to send POST to '' @ api_url d), m')
    | (HttpReply success status _, m') \<Rightarrow> (if success then Inr () else Inl (''Failed to create stack: '' @ status), m'))"

text \<open>A derived structure is read from an object by its fields, or from an array by their order.\<close>

fun stack_info :: "json \<Rightarrow> string option" where
  "stack_info (JObj m) = as_str (json_get ''slug'' (JObj m))"
| "stack_info (JArr [j]) = as_str j"
| "stack_info _ = None"

fun stack_infos :: "json \<Rightarrow> string list option" where
  "stack_infos (JArr js) = those (map stack_info js)"
| "stack_infos _ = None"

fun list_stacks_response :: "json \<Rightarrow> string list option" where
  "list_stacks_response (JObj m) = stack_infos (json_get ''data'' (JObj m))"
| "list_stacks_response (JArr [j]) = stack_infos j"
| "list_stacks_response _ = None"

definition list_stacks :: "'m machine \<Rightarrow> container_running docker_manager \<Rightarrow> ('m, string list) machine_handler" where
  "list_stacks mc d m =
    (case sv_http mc ''GET'' (api_url d) None m of
      (NoReply _, m') \<Rightarrow> (Inl (''Failed to send GET to '' @ api_url d), m')
    | (HttpReply success status body, m') \<Rightarrow>
        (if \<not> success then Inl (''Failed to list stacks: '' @ status)
         else ok_or ''Failed to parse stacks response'' (Option.bind body list_stacks_response), m'))"

definition remove_stack :: "'m machine \<Rightarrow> container_running docker_manager \<Rightarrow> string \<Rightarrow> ('m, unit) machine_handler" where
  "remove_stack mc d slug m =
    (let url = api_url d @ ''/'' @ slug in
      case sv_http mc ''DELETE'' url None m of
        (NoReply _, m') \<Rightarrow> (Inl (''Failed to send Delete to '' @ url), m')
      | (HttpReply success status _, m') \<Rightarrow> (if success then Inr () else Inl (''Failed to delete stack: '' @ status), m'))"

section \<open>What a manager is configured with\<close>

lemma give_simps [simp]: "and_then (give (Inr x)) f = f x" "and_then (give (Inl e)) f = (\<lambda>m. (Inl e, m))" "give r m = (r, m)"
  by (simp_all add: fun_eq_iff and_then_def give_def)

lemma and_then_Inr: "fst (and_then h f m) = Inr y \<longleftrightarrow> (\<exists>x m'. h m = (Inr x, m') \<and> fst (f x m') = Inr y)"
  by (auto simp: and_then_def split: prod.splits sum.splits)

lemma transition_simps [simp]:
  "dm_data_dir (transition d) = dm_data_dir d" "dm_image_name (transition d) = dm_image_name d"
  "dm_container_name (transition d) = dm_container_name d" "dm_container_port (transition d) = dm_container_port d"
  "dm_host_port (transition d) = dm_host_port d" "dm_docker_bin (transition d) = dm_docker_bin d"
  "dm_socket_path (transition d) = dm_socket_path d"
  by (simp_all add: transition_def)

lemma transition_transition [simp]: "transition (transition d) = transition d"
  by (simp add: transition_def)

text \<open>Every operation gives back the manager it was given, in its next state.\<close>

lemma ready_steps:
  "fst (check_docker_installed mc d1 m) = Inr d2 \<Longrightarrow> d2 = transition d1"
  "fst (check_image_available mc d2 m) = Inr d3 \<Longrightarrow> d3 = transition d2"
  "fst (ensure_data_directory mc d3 m) = Inr d4 \<Longrightarrow> d4 = transition d3"
  by (auto simp: check_docker_installed_def check_image_available_def ensure_data_directory_def and_then_Inr
    split: if_splits prod.splits sum.splits)

lemma run_steps:
  "fst (start_container mc bin d m) = Inr d' \<Longrightarrow> d' = transition d"
  "fst (run_ready mc r m) = Inr d' \<Longrightarrow> d' = transition r"
  "fst (run_stopped mc s m) = Inr d' \<Longrightarrow> d' = transition s"
  "fst (dm_stop mc d' m) = Inr s \<Longrightarrow> s = transition d'"
proof -
  show start: "d' = transition d" if "fst (start_container mc bin d m) = Inr d'" for bin d m
    using that by (auto simp: start_container_def and_then_Inr split: if_splits)
  show "d' = transition r" if "fst (run_ready mc r m) = Inr d'"
    using that by (auto simp: run_ready_def and_then_Inr dest: start)
  show "d' = transition s" if "fst (run_stopped mc s m) = Inr d'"
    using that by (auto simp: run_stopped_def and_then_Inr dest: start)
  show "s = transition d'" if "fst (dm_stop mc d' m) = Inr s"
    using that by (auto simp: dm_stop_def and_then_Inr split: if_splits)
qed

definition dm_configured :: "u16 \<Rightarrow> string \<Rightarrow> 's docker_manager \<Rightarrow> bool" where
  "dm_configured port config_dir d \<longleftrightarrow>
    dm_data_dir d = path_join config_dir ''local/'' \<and> dm_image_name d = ''ghcr.io/ethui/stacks:latest''
    \<and> dm_container_name d = ''ethui-local-stacks'' \<and> dm_container_port d = 4000 \<and> dm_host_port d = port
    \<and> (dm_docker_bin d = Some ''podman'' \<and> dm_socket_path d \<noteq> None
       \<or> dm_docker_bin d = Some ''docker'' \<and> dm_socket_path d = Some ''/var/run/docker.sock'')"

lemma configured_transition [simp]: "dm_configured port dir (transition d) = dm_configured port dir d"
  by (simp add: dm_configured_def)

lemma initialize_configured: "fst (initialize mc port dir m) = Inr d \<Longrightarrow> dm_configured port dir d"
proof -
  assume "fst (initialize mc port dir m) = Inr d"
  then obtain d1 m1 d2 m2 d3 m3 d4 m4 where steps: "check_socket_and_bin mc (stacks_manager port dir) m = (Inr d1, m1)"
    "check_docker_installed mc d1 m1 = (Inr d2, m2)" "check_image_available mc d2 m2 = (Inr d3, m3)"
    "ensure_data_directory mc d3 m3 = (Inr d4, m4)" "d = transition d4"
    by (auto simp: initialize_def and_then_Inr dm_initialize_def)
  then have "d = transition d1"
    using ready_steps(1) [of mc d1 m1 d2] ready_steps(2) [of mc d2 m2 d3] ready_steps(3) [of mc d3 m3 d4] by simp
  moreover have "dm_configured port dir d1"
    using steps(1)
    by (auto simp: check_socket_and_bin_def dm_configured_def Let_def stacks_manager_def dm_new_def split: prod.splits sum.splits if_splits)
  ultimately show ?thesis by simp
qed

section \<open>The commands that are run\<close>

text \<open>A machine that also records the program and the first argument of what is run.\<close>

definition logged :: "'m machine \<Rightarrow> ('m \<times> (string \<times> string) list) machine" where
  "logged mc = \<lparr>sv_run = (\<lambda>bin args (m, cmds). case sv_run mc bin args m of (r, m') \<Rightarrow> (r, m', cmds @ [(bin, hd args)])),
     sv_var = sv_var mc,
     sv_create_dir_all = (\<lambda>p (m, cmds). case sv_create_dir_all mc p m of (r, m') \<Rightarrow> (r, m', cmds)),
     sv_canonicalize = (\<lambda>p (m, cmds). case sv_canonicalize mc p m of (r, m') \<Rightarrow> (r, m', cmds)),
     sv_debug = sv_debug mc,
     sv_http = (\<lambda>v u b (m, cmds). case sv_http mc v u b m of (r, m') \<Rightarrow> (r, m', cmds)),
     sv_chain_id = (\<lambda>u (m, cmds). case sv_chain_id mc u m of (r, m') \<Rightarrow> (r, m', cmds))\<rparr>"

lemma logged_simps [simp]:
  "sv_run (logged mc) bin args (m, cmds) = (fst (sv_run mc bin args m), snd (sv_run mc bin args m), cmds @ [(bin, hd args)])"
  "sv_canonicalize (logged mc) p (m, cmds) = (fst (sv_canonicalize mc p m), snd (sv_canonicalize mc p m), cmds)"
  "sv_var (logged mc) = sv_var mc"
  by (simp_all add: logged_def split_beta)

text \<open>What a handler runs is the beginning of one of the plans, and all of it when it succeeds.\<close>

definition issues :: "string \<Rightarrow> string list list \<Rightarrow> ('m \<times> (string \<times> string) list, 'a) machine_handler \<Rightarrow> bool" where
  "issues bin plans h \<longleftrightarrow> (\<forall>m cmds. \<exists>plan \<in> set plans. \<exists>q. prefix q plan
    \<and> snd (snd (h (m, cmds))) = cmds @ map (Pair bin) q \<and> (is_ok (fst (h (m, cmds))) \<longrightarrow> q = plan))"

lemma issues_give [simp]: "issues bin [[]] (give r)"
  by (simp add: issues_def)

lemma issues_run: "issues bin [[hd args]] (sv_run (logged mc) bin args)"
proof -
  have "prefix [hd args] [hd args]" by simp
  then show ?thesis unfolding issues_def by (intro allI bexI [of _ "[hd args]"] exI [of _ "[hd args]"]) simp_all
qed

lemma issues_canonicalize: "issues bin [[]] (sv_canonicalize (logged mc) p)"
  by (simp add: issues_def)

lemma issues_mono: "issues bin ps h \<Longrightarrow> set ps \<subseteq> set qs \<Longrightarrow> issues bin qs h"
  unfolding issues_def by (meson subset_iff)

lemma issues_and_then:
  assumes "issues bin ps h" "\<And>x. issues bin qs (f x)"
  shows "issues bin (concat (map (\<lambda>p. map ((@) p) qs) ps)) (and_then h f)"
  unfolding issues_def
proof (intro allI)
  fix m cmds
  obtain r m' cmds' where h: "h (m, cmds) = (r, m', cmds')" by (metis prod.exhaust)
  obtain p q where p: "p \<in> set ps" "prefix q p" "cmds' = cmds @ map (Pair bin) q" "is_ok r \<longrightarrow> q = p"
    using assms(1) h unfolding issues_def by (metis fst_conv snd_conv)
  let ?goal = "\<lambda>plan q. plan \<in> set (concat (map (\<lambda>p. map ((@) p) qs) ps)) \<and> prefix q plan
    \<and> snd (snd (and_then h f (m, cmds))) = cmds @ map (Pair bin) q \<and> (is_ok (fst (and_then h f (m, cmds))) \<longrightarrow> q = plan)"
  have "\<exists>plan q. ?goal plan q"
  proof (cases r)
    case (Inl e)
    obtain p' where "p' \<in> set qs" using assms(2) unfolding issues_def by blast
    with p Inl h have "?goal (p @ p') q" by (auto simp: and_then_def prefix_append)
    then show ?thesis by blast
  next
    case (Inr x)
    obtain p' q' where p': "p' \<in> set qs" "prefix q' p'" "snd (snd (f x (m', cmds'))) = cmds' @ map (Pair bin) q'"
      "is_ok (fst (f x (m', cmds'))) \<longrightarrow> q' = p'"
      using assms(2) [of x] unfolding issues_def by blast
    with p Inr h have "?goal (p @ p') (p @ q')" by (auto simp: and_then_def)
    then show ?thesis by blast
  qed
  then show "\<exists>plan \<in> set (concat (map (\<lambda>p. map ((@) p) qs) ps)). \<exists>q. prefix q plan
    \<and> snd (snd (and_then h f (m, cmds))) = cmds @ map (Pair bin) q \<and> (is_ok (fst (and_then h f (m, cmds))) \<longrightarrow> q = plan)"
    by blast
qed

lemma issues_step:
  assumes "issues bin [p] h" "\<And>x. issues bin qs (f x)"
  shows "issues bin (map ((@) p) qs) (and_then h f)"
  using issues_and_then [OF assms] by simp

lemma issues_commands:
  "issues bin [[''stop'']] (stop_container (logged mc) bin d)"
  "issues bin [[''rm'']] (remove_container (logged mc) bin d)"
  "issues bin [[''run'']] (start_container (logged mc) bin d)"
  "docker_bin d = Inr bin \<Longrightarrow> issues bin [[''ps'']] (is_container_running (logged mc) d)"
proof -
  have run: "issues bin [[c]] (and_then (sv_run (logged mc) bin (c # args)) (\<lambda>x. give (f x)))" for c args and f :: "process \<Rightarrow> string + 'x"
    using issues_step [OF issues_run [of bin "c # args" mc] issues_give, of f] by simp
  show "issues bin [[''stop'']] (stop_container (logged mc) bin d)" "issues bin [[''rm'']] (remove_container (logged mc) bin d)"
    by (simp_all only: stop_container_def remove_container_def run)
  show "issues bin [[''ps'']] (is_container_running (logged mc) d)" if "docker_bin d = Inr bin"
    by (simp only: is_container_running_def that give_simps ps_args_def run)
  show "issues bin [[''run'']] (start_container (logged mc) bin d)"
    unfolding start_container_def run_args_def
    by (intro issues_step [where p = "[]" and qs = "[[''run'']]", simplified] issues_canonicalize issues_give run)
qed

lemma issues_replace:
  "issues bin [[''rm'', ''run'']] (and_then (remove_container (logged mc) bin d) (\<lambda>_. start_container (logged mc) bin d))"
  "issues bin [[''stop'', ''rm'', ''run'']]
    (and_then (stop_container (logged mc) bin d) (\<lambda>_. and_then (remove_container (logged mc) bin d) (\<lambda>_. start_container (logged mc) bin d)))"
  "issues bin [[''stop'', ''rm'', ''run'']]
    (and_then (and_then (stop_container (logged mc) bin d) (\<lambda>_. remove_container (logged mc) bin d)) (\<lambda>_. start_container (logged mc) bin d))"
proof -
  show rm: "issues bin [[''rm'', ''run'']] (and_then (remove_container (logged mc) bin d) (\<lambda>_. start_container (logged mc) bin d))"
    by (intro issues_step [where p = "[''rm'']" and qs = "[[''run'']]", simplified] issues_commands)
  show "issues bin [[''stop'', ''rm'', ''run'']]
    (and_then (stop_container (logged mc) bin d) (\<lambda>_. and_then (remove_container (logged mc) bin d) (\<lambda>_. start_container (logged mc) bin d)))"
    by (intro issues_step [where p = "[''stop'']" and qs = "[[''rm'', ''run'']]", simplified] issues_commands rm)
  have stop: "issues bin [[''stop'', ''rm'']] (and_then (stop_container (logged mc) bin d) (\<lambda>_. remove_container (logged mc) bin d))"
    by (intro issues_step [where p = "[''stop'']" and qs = "[[''rm'']]", simplified] issues_commands)
  show "issues bin [[''stop'', ''rm'', ''run'']]
    (and_then (and_then (stop_container (logged mc) bin d) (\<lambda>_. remove_container (logged mc) bin d)) (\<lambda>_. start_container (logged mc) bin d))"
    by (intro issues_step [where p = "[''stop'', ''rm'']" and qs = "[[''run'']]", simplified] issues_commands stop)
qed

text \<open>Of podman a container is only replaced. Of docker one that runs is stopped and removed before
  the next is started; with its data directory just made ready the manager also removes one that does
  not run, while a manager whose container does not run starts at once. No command follows one that
  failed, and all of a plan is run when the manager reports success.\<close>

theorem run_commands:
  assumes "dm_configured port dir d" "dm_docker_bin d = Some bin"
  shows "issues bin (if bin = ''docker'' then [[''ps'', ''stop'', ''rm'', ''run''], [''ps'', ''rm'', ''run'']] else [[''ps'', ''run'']])
      (run_ready (logged mc) d)
    \<and> issues bin (if bin = ''docker'' then [[''ps'', ''stop'', ''rm'', ''run''], [''ps'', ''run'']] else [[''ps'', ''run'']])
      (run_stopped (logged mc) (transition d))"
proof -
  let ?d = "transition d :: container_not_running docker_manager"
  have bin: "docker_bin d = Inr bin" "docker_bin ?d = Inr bin"
    using assms(2) by (simp_all add: docker_bin_def)
  note ps = issues_commands(4) [OF bin(1), of mc] issues_commands(4) [OF bin(2), of mc]
  show ?thesis
  proof (cases "bin = ''docker''")
    case True
    then have docker: "sublist ''docker'' bin = True" by simp
    have "issues bin [[''stop'', ''rm'', ''run''], [''rm'', ''run'']]
        (and_then (if running then stop_container (logged mc) bin d else give (Inr ())) (\<lambda>_.
         and_then (remove_container (logged mc) bin d) (\<lambda>_. start_container (logged mc) bin d)))" for running
      by (cases running) (simp_all add: issues_mono [OF issues_replace(1)] issues_mono [OF issues_replace(2)])
    then have "issues bin [[''ps'', ''stop'', ''rm'', ''run''], [''ps'', ''rm'', ''run'']]
        (and_then (is_container_running (logged mc) d) (\<lambda>running.
          and_then (if running then stop_container (logged mc) bin d else give (Inr ())) (\<lambda>_.
          and_then (remove_container (logged mc) bin d) (\<lambda>_. start_container (logged mc) bin d))))"
      by (intro issues_step [where p = "[''ps'']" and qs = "[[''stop'', ''rm'', ''run''], [''rm'', ''run'']]", simplified] ps)
    then have ready: "issues bin [[''ps'', ''stop'', ''rm'', ''run''], [''ps'', ''rm'', ''run'']] (run_ready (logged mc) d)"
      by (simp only: run_ready_def bin docker give_simps if_True simp_thms)
    have "issues bin [[''stop'', ''rm'', ''run''], [''run'']]
        (and_then (if running then and_then (stop_container (logged mc) bin ?d) (\<lambda>_. remove_container (logged mc) bin ?d)
           else give (Inr ())) (\<lambda>_. start_container (logged mc) bin ?d))" for running
      by (cases running) (simp_all add: issues_mono [OF issues_commands(3)] issues_mono [OF issues_replace(3)])
    then have "issues bin [[''ps'', ''stop'', ''rm'', ''run''], [''ps'', ''run'']]
        (and_then (is_container_running (logged mc) ?d) (\<lambda>running.
          and_then (if running then and_then (stop_container (logged mc) bin ?d) (\<lambda>_. remove_container (logged mc) bin ?d)
           else give (Inr ())) (\<lambda>_. start_container (logged mc) bin ?d)))"
      by (intro issues_step [where p = "[''ps'']" and qs = "[[''stop'', ''rm'', ''run''], [''run'']]", simplified] ps)
    then have "issues bin [[''ps'', ''stop'', ''rm'', ''run''], [''ps'', ''run'']] (run_stopped (logged mc) ?d)"
      by (simp only: run_stopped_def bin docker give_simps if_True simp_thms)
    with ready True show ?thesis by simp
  next
    case False
    with assms have podman: "bin = ''podman''" by (auto simp: dm_configured_def)
    have "issues bin [[''ps'', ''run'']] (and_then (is_container_running (logged mc) d) (\<lambda>_. start_container (logged mc) bin d))"
      "issues bin [[''ps'', ''run'']] (and_then (is_container_running (logged mc) ?d) (\<lambda>_. start_container (logged mc) bin ?d))"
      by (intro issues_step [where p = "[''ps'']" and qs = "[[''run'']]", simplified] ps issues_commands)+
    moreover have "sublist ''docker'' bin = False" unfolding podman by (simp add: sublist_code)
    ultimately show ?thesis using False podman by (simp only: run_ready_def run_stopped_def bin give_simps simp_thms if_False)
  qed
qed

text \<open>A machine with docker and one container, of which its state tells whether it runs.\<close>

definition toy_machine :: "bool machine" where
  "toy_machine =
    \<lparr>sv_run = (\<lambda>bin args up. if bin = ''podman'' then (Inl ''not found'', up)
       else (Inr \<lparr>pr_success = True, pr_stdout = (if hd args = ''images'' then ''1a2b''
           else if hd args = ''ps'' \<and> up then ''0.0.0.0:9010->4000/tcp'' else ''''), pr_stderr = ''''\<rparr>,
         if hd args = ''run'' then True else if hd args = ''stop'' then False else up)),
     sv_var = (\<lambda>_. None), sv_create_dir_all = (\<lambda>_ up. (Inr (), up)), sv_canonicalize = (\<lambda>p up. (Inr p, up)), sv_debug = id,
     sv_http = (\<lambda>_ _ _ up. (if up then HttpReply True ''200'' None else NoReply ''refused'', up)),
     sv_chain_id = (\<lambda>_ up. (if up then Inr ''0x7a69'' else Inl ''refused'', up))\<rparr>"

definition toy_manager :: "data_directory_ready docker_manager" where
  "toy_manager = transition ((stacks_manager 9010 ''/c'')\<lparr>dm_docker_bin := Some ''docker'', dm_socket_path := Some ''/var/run/docker.sock''\<rparr>)"

theorem run_commands_witness:
  "issues ''docker'' [[''ps'', ''stop'', ''rm'', ''run''], [''ps'', ''rm'', ''run'']] (run_ready (logged toy_machine) toy_manager)"
proof -
  have "dm_configured 9010 ''/c'' toy_manager" "dm_docker_bin toy_manager = Some ''docker''"
    by (simp_all add: toy_manager_def dm_configured_def stacks_manager_def dm_new_def)
  from run_commands [OF this, of toy_machine] show ?thesis by simp
qed

end
