(* ===== verification/Stacks.thy ===== *)
theory Stacks
  imports Docker Ethui_Types
begin

text \<open>
  The actor of the local stacks (\<open>crates/stacks/src/actor/mod.rs\<close>), its start and its messages from the
  bus (\<open>init.rs\<close>), and the commands of the user interface (\<open>commands.rs\<close>, \<open>utils.rs\<close>). The state of
  the machine goes along with the state of the actor.
\<close>

section \<open>The actor\<close>

datatype runtime_state =
    RuntimeError string
  | RuntimeInitializing
  | Stopped "container_not_running docker_manager"
  | Running "container_running docker_manager"

fun as_runtime_str :: "runtime_state \<Rightarrow> string" where
  "as_runtime_str (RuntimeError e) = e"
| "as_runtime_str RuntimeInitializing = ''Initializing''"
| "as_runtime_str (Stopped _) = ''Stopped''"
| "as_runtime_str (Running _) = ''Running''"

record stacks_actor =
  sk_enabled :: bool
  sk_port :: u16
  sk_config_dir :: string
  sk_manager :: runtime_state

record runtime_state_response =
  rs_enabled :: bool
  rs_error :: bool
  rs_state :: string

definition stacks_new :: "u16 \<Rightarrow> string \<Rightarrow> stacks_actor" where
  "stacks_new port config_dir =
    \<lparr>sk_enabled = False, sk_port = port, sk_config_dir = config_dir, sk_manager = RuntimeInitializing\<rparr>"

type_synonym 'm stacks_world = "stacks_actor \<times> 'm"

text \<open>A container that cannot be stopped is only logged; after an error the actor waits to be initialised.\<close>

definition set_enabled :: "'m machine \<Rightarrow> bool \<Rightarrow> 'm stacks_world \<Rightarrow> 'm stacks_world" where
  "set_enabled mc enabled w =
    (case w of (a, m) \<Rightarrow>
      if sk_enabled a = enabled then (a, m)
      else
        (let a1 = a\<lparr>sk_enabled := enabled\<rparr> in
          case (sk_manager a, enabled) of
            (Stopped d, True) \<Rightarrow>
              (case run_stopped mc d m of
                (Inr running, m') \<Rightarrow> (a1\<lparr>sk_manager := Running running\<rparr>, m')
              | (Inl e, m') \<Rightarrow> (a1\<lparr>sk_manager := RuntimeError e\<rparr>, m'))
          | (Running d, False) \<Rightarrow>
              (case dm_stop mc d m of
                (Inr stopped, m') \<Rightarrow> (a1\<lparr>sk_manager := Stopped stopped\<rparr>, m')
              | (Inl e, m') \<Rightarrow> (a1, m'))
          | (RuntimeError _, True) \<Rightarrow> (a1\<lparr>sk_manager := RuntimeInitializing\<rparr>, m)
          | _ \<Rightarrow> (a1, m)))"

definition get_config :: "stacks_actor \<Rightarrow> u16 \<times> string" where
  "get_config a = (sk_port a, sk_config_dir a)"

definition sk_list_stacks :: "'m machine \<Rightarrow> ('m stacks_world, string, string list) handler" where
  "sk_list_stacks mc w = (case w of (a, m) \<Rightarrow>
    case sk_manager a of Running d \<Rightarrow> (case list_stacks mc d m of (r, m') \<Rightarrow> (r, a, m')) | _ \<Rightarrow> (Inr [], w))"

definition sk_create_stack :: "'m machine \<Rightarrow> string \<Rightarrow> ('m stacks_world, string, unit) handler" where
  "sk_create_stack mc slug w = (case w of (a, m) \<Rightarrow>
    case sk_manager a of Running d \<Rightarrow> (case create_stack mc d slug m of (r, m') \<Rightarrow> (r, a, m')) | _ \<Rightarrow> (Inr (), w))"

definition sk_remove_stack :: "'m machine \<Rightarrow> string \<Rightarrow> ('m stacks_world, string, unit) handler" where
  "sk_remove_stack mc slug w = (case w of (a, m) \<Rightarrow>
    case sk_manager a of Running d \<Rightarrow> (case remove_stack mc d slug m of (r, m') \<Rightarrow> (r, a, m')) | _ \<Rightarrow> (Inr (), w))"

definition shutdown :: "'m machine \<Rightarrow> 'm stacks_world \<Rightarrow> 'm stacks_world" where
  "shutdown mc w = (case w of (a, m) \<Rightarrow>
    case sk_manager a of
      Running d \<Rightarrow>
        (case dm_stop mc d m of
          (Inr stopped, m') \<Rightarrow> (a\<lparr>sk_manager := Stopped stopped\<rparr>, m')
        | (Inl e, m') \<Rightarrow> (a, m'))
    | _ \<Rightarrow> w)"

definition initializing :: "'m machine \<Rightarrow> 'm stacks_world \<Rightarrow> 'm stacks_world" where
  "initializing mc w = (case w of (a, m) \<Rightarrow>
    case sk_manager a of
      RuntimeInitializing \<Rightarrow>
        (case initialize mc (sk_port a) (sk_config_dir a) m of
          (Inl e, m') \<Rightarrow> (a\<lparr>sk_manager := RuntimeError e\<rparr>, m')
        | (Inr d, m') \<Rightarrow>
            if sk_enabled a then
              (case run_stopped mc d m' of
                (Inr running, m'') \<Rightarrow> (a\<lparr>sk_manager := Running running\<rparr>, m'')
              | (Inl e, m'') \<Rightarrow> (a\<lparr>sk_manager := RuntimeError e\<rparr>, m''))
            else (a\<lparr>sk_manager := Stopped d\<rparr>, m'))
    | _ \<Rightarrow> w)"

definition get_runtime_state :: "stacks_actor \<Rightarrow> runtime_state_response" where
  "get_runtime_state a =
    \<lparr>rs_enabled = sk_enabled a, rs_error = (case sk_manager a of RuntimeError _ \<Rightarrow> True | _ \<Rightarrow> False),
     rs_state = as_runtime_str (sk_manager a)\<rparr>"

datatype stacks_msg =
    SetEnabled bool
  | GetConfig
  | ListStacks
  | CreateStack string
  | RemoveStack string
  | Shutdown
  | Initialize
  | GetRuntimeState

text \<open>What a message leaves behind.\<close>

fun stacks_handle :: "'m machine \<Rightarrow> stacks_msg \<Rightarrow> 'm stacks_world \<Rightarrow> 'm stacks_world" where
  "stacks_handle mc (SetEnabled b) w = set_enabled mc b w"
| "stacks_handle mc ListStacks w = snd (sk_list_stacks mc w)"
| "stacks_handle mc (CreateStack slug) w = snd (sk_create_stack mc slug w)"
| "stacks_handle mc (RemoveStack slug) w = snd (sk_remove_stack mc slug w)"
| "stacks_handle mc Shutdown w = shutdown mc w"
| "stacks_handle mc Initialize w = initializing mc w"
| "stacks_handle mc _ w = w"

section \<open>Start and messages from the bus\<close>

text \<open>The settings are read before the container is looked for, and its being enabled comes after.\<close>

definition stacks_init :: "'m machine \<Rightarrow> u16 \<Rightarrow> string \<Rightarrow> string + bool \<Rightarrow> 'm \<Rightarrow> (string + unit) \<times> 'm stacks_world" where
  "stacks_init mc port config_dir run_local_stacks m =
    (let w = (stacks_new port config_dir, m) in
      case run_local_stacks of
        Inl e \<Rightarrow> (Inl e, w)
      | Inr b \<Rightarrow> (Inr (), stacks_handle mc (SetEnabled b) (stacks_handle mc Initialize w)))"

definition stacks_receiver :: "bool \<Rightarrow> internal_msg \<Rightarrow> stacks_msg option" where
  "stacks_receiver run_local_stacks m = (case m of SettingsUpdated \<Rightarrow> Some (SetEnabled run_local_stacks) | _ \<Rightarrow> None)"

section \<open>The managers that are held\<close>

definition manager_ok :: "u16 \<Rightarrow> string \<Rightarrow> runtime_state \<Rightarrow> bool" where
  "manager_ok port dir r =
    (case r of Stopped d \<Rightarrow> dm_configured port dir d | Running d \<Rightarrow> dm_configured port dir d | _ \<Rightarrow> True)"

definition stacks_ok :: "u16 \<Rightarrow> string \<Rightarrow> 'm stacks_world \<Rightarrow> bool" where
  "stacks_ok port dir w \<longleftrightarrow> sk_port (fst w) = port \<and> sk_config_dir (fst w) = dir \<and> manager_ok port dir (sk_manager (fst w))"

lemma stacks_ok_init: "stacks_ok port dir (stacks_new port dir, m)"
  by (simp add: stacks_ok_def stacks_new_def manager_ok_def)

lemma stacks_ok_handle:
  assumes "stacks_ok port dir w"
  shows "stacks_ok port dir (stacks_handle mc msg w)"
proof -
  obtain a m where w: "w = (a, m)" by (cases w)
  have started: "dm_configured p q d'" if "run_stopped mc d m1 = (Inr d', m2)" "dm_configured p q d" for p q d d' m1 m2
    using run_steps(3) [of mc d m1 d'] that by simp
  have stopped: "dm_configured p q d'" if "dm_stop mc d m1 = (Inr d', m2)" "dm_configured p q d" for p q d d' m1 m2
    using run_steps(4) [of mc d m1 d'] that by simp
  have ready: "dm_configured p q d" if "initialize mc p q m1 = (Inr d, m2)" for p q d m1 m2
    using initialize_configured [of mc p q m1 d] that by simp
  note [split] = runtime_state.splits sum.splits prod.splits
  show ?thesis
  proof (cases msg)
    case (SetEnabled b)
    with assms w show ?thesis
      by (auto simp: stacks_ok_def manager_ok_def set_enabled_def Let_def dest: started stopped)
  next
    case Initialize
    with assms w show ?thesis
      by (auto simp: stacks_ok_def manager_ok_def initializing_def dest: started ready)
  next
    case Shutdown
    with assms w show ?thesis by (auto simp: stacks_ok_def manager_ok_def shutdown_def dest: stopped)
  qed (use assms w in \<open>auto simp: sk_list_stacks_def sk_create_stack_def sk_remove_stack_def stacks_ok_def\<close>)
qed

text \<open>The actor takes messages; between them the machine may change in any way.\<close>

inductive stacks_reaches :: "'m machine \<Rightarrow> u16 \<Rightarrow> string \<Rightarrow> 'm stacks_world \<Rightarrow> bool" for mc port dir where
  stacks_starts: "stacks_reaches mc port dir (stacks_new port dir, m)"
| stacks_takes: "stacks_reaches mc port dir w \<Longrightarrow> stacks_reaches mc port dir (stacks_handle mc msg w)"
| machine_changes: "stacks_reaches mc port dir (a, m) \<Longrightarrow> stacks_reaches mc port dir (a, m')"

lemma stacks_reaches_ok: "stacks_reaches mc port dir w \<Longrightarrow> stacks_ok port dir w"
proof (induction rule: stacks_reaches.induct)
  case (machine_changes a m m')
  then show ?case by (simp add: stacks_ok_def)
qed (simp_all add: stacks_ok_init stacks_ok_handle)

text \<open>C26. Every manager the actor ever holds, running or stopped, is of the container of the local stacks with
  the port and the directory the actor was started with, and has a program and a socket: the errors
  for a missing one cannot happen, and its requests go to its own port.\<close>

theorem held_managers_are_configured:
  assumes "stacks_reaches mc port dir (a, m)"
  shows "case sk_manager a of
      Stopped d \<Rightarrow> dm_configured port dir d \<and> is_ok (docker_bin d) \<and> is_ok (socket_path d)
    | Running d \<Rightarrow> dm_configured port dir d \<and> is_ok (docker_bin d) \<and> is_ok (socket_path d)
        \<and> api_url d = ''http://api.local.ethui.dev:'' @ show_dec (unat port) @ ''/stacks''
    | _ \<Rightarrow> True"
  using stacks_reaches_ok [OF assms]
  by (auto simp: stacks_ok_def manager_ok_def dm_configured_def docker_bin_def socket_path_def api_url_def split: runtime_state.split)

lemma toy_image: "trim ''1a2b'' = ''1a2b''"
  by code_simp

theorem held_managers_are_configured_witness:
  "\<exists>d. sk_manager (fst (stacks_handle toy_machine Initialize (stacks_new 9010 ''/c'', False))) = Stopped d \<and> dm_configured 9010 ''/c'' d"
proof -
  let ?w = "stacks_handle toy_machine Initialize (stacks_new 9010 ''/c'', False)"
  have "\<exists>d. sk_manager (fst ?w) = Stopped d"
    by (simp add: stacks_new_def initializing_def initialize_def check_socket_and_bin_def toy_machine_def check_docker_installed_def
      check_image_available_def ensure_data_directory_def and_then_def give_def docker_bin_def stacks_manager_def dm_new_def
      transition_def Let_def toy_image)
  moreover have "stacks_reaches toy_machine 9010 ''/c'' (fst ?w, snd ?w)"
    by (simp del: stacks_handle.simps) (intro stacks_takes stacks_starts)
  from held_managers_are_configured [OF this] have "case sk_manager (fst ?w) of Stopped d \<Rightarrow> dm_configured 9010 ''/c'' d | _ \<Rightarrow> True"
    by (auto split: runtime_state.splits)
  ultimately show ?thesis by auto
qed

section \<open>The life cycle\<close>

datatype phase = PError | PInitializing | PStopped | PRunning

fun phase_of :: "runtime_state \<Rightarrow> phase" where
  "phase_of (RuntimeError _) = PError"
| "phase_of RuntimeInitializing = PInitializing"
| "phase_of (Stopped _) = PStopped"
| "phase_of (Running _) = PRunning"

text \<open>What the life cycle allows: only an enabled actor starts the container, only a waiting one is
  initialised, and only enabling leaves an error.\<close>

fun life_step :: "stacks_msg \<Rightarrow> bool \<times> phase \<Rightarrow> bool \<times> phase \<Rightarrow> bool" where
  "life_step (SetEnabled b) (e, p) (e', p') \<longleftrightarrow> e' = b \<and>
    (p' = p \<and> (e = b \<or> \<not> (p = PStopped \<and> b) \<and> \<not> (p = PError \<and> b))
     \<or> p = PStopped \<and> b \<and> \<not> e \<and> (p' = PRunning \<or> p' = PError)
     \<or> p = PRunning \<and> \<not> b \<and> e \<and> p' = PStopped
     \<or> p = PError \<and> b \<and> \<not> e \<and> p' = PInitializing)"
| "life_step Shutdown (e, p) (e', p') \<longleftrightarrow> e' = e \<and> (p' = p \<or> p = PRunning \<and> p' = PStopped)"
| "life_step Initialize (e, p) (e', p') \<longleftrightarrow> e' = e \<and>
    (if p = PInitializing then p' = PError \<or> p' = (if e then PRunning else PStopped) else p' = p)"
| "life_step _ (e, p) (e', p') \<longleftrightarrow> e' = e \<and> p' = p"

definition abs_stacks :: "'m stacks_world \<Rightarrow> bool \<times> phase" where
  "abs_stacks w = (sk_enabled (fst w), phase_of (sk_manager (fst w)))"

text \<open>C25. Whatever the machine answers, every message the actor handles is a step of its life cycle.\<close>

theorem stacks_follow_life_cycle: "life_step msg (abs_stacks w) (abs_stacks (stacks_handle mc msg w))"
proof -
  obtain a m where w: "w = (a, m)" by (cases w)
  note [split] = runtime_state.split sum.split prod.split
  show ?thesis
  proof (cases msg)
    case (SetEnabled b)
    then show ?thesis by (cases b; simp add: w abs_stacks_def set_enabled_def Let_def)
  qed (simp_all add: w abs_stacks_def shutdown_def initializing_def sk_list_stacks_def sk_create_stack_def sk_remove_stack_def)
qed

section \<open>A start that fails\<close>

definition stacks_run :: "'m machine \<Rightarrow> stacks_msg list \<Rightarrow> 'm stacks_world \<Rightarrow> 'm stacks_world" where
  "stacks_run mc = fold (stacks_handle mc)"

text \<open>Only the start of the program sends \<open>Initialize\<close>.\<close>

lemma waiting_stays_waiting:
  assumes "Initialize \<notin> set msgs" "sk_manager (fst w) = RuntimeInitializing"
  shows "sk_manager (fst (stacks_run mc msgs w)) = RuntimeInitializing"
  using assms
proof (induction msgs arbitrary: w)
  case (Cons msg msgs)
  obtain a m where w: "w = (a, m)" by (cases w)
  have "sk_manager (fst (stacks_handle mc msg w)) = RuntimeInitializing"
    using Cons.prems
    by (cases msg) (simp_all add: w set_enabled_def shutdown_def sk_list_stacks_def sk_create_stack_def sk_remove_stack_def Let_def)
  with Cons show ?case by (simp add: stacks_run_def)
qed (simp add: stacks_run_def)

text \<open>C18. Where stacks are enabled in the settings and the container cannot be made ready (there is no
  docker, or the image cannot be pulled), the actor replaces the error by \<open>Initializing\<close> before the
  start is over, and whatever messages the program sends from then on it stays so: it never runs a
  container, and never reports an error.\<close>

theorem failed_start_waits_for_ever:
  assumes "fst (initialize mc port dir m) = Inl e" "Initialize \<notin> set msgs"
  shows "get_runtime_state (fst (stacks_run mc msgs (snd (stacks_init mc port dir (Inr True) m))))
    = \<lparr>rs_enabled = sk_enabled (fst (stacks_run mc msgs (snd (stacks_init mc port dir (Inr True) m)))),
       rs_error = False, rs_state = ''Initializing''\<rparr>"
proof -
  from assms(1) have "sk_manager (fst (snd (stacks_init mc port dir (Inr True) m))) = RuntimeInitializing"
    by (cases "initialize mc port dir m") (simp add: stacks_init_def initializing_def stacks_new_def set_enabled_def Let_def)
  from waiting_stays_waiting [OF assms(2) this] show ?thesis by (simp add: get_runtime_state_def)
qed

definition no_docker :: "bool machine" where
  "no_docker = toy_machine\<lparr>sv_run := (\<lambda>bin args up. (Inl ''not found'', up))\<rparr>"

theorem failed_start_waits_for_ever_witness:
  "rs_error (get_runtime_state (fst (stacks_run no_docker [SetEnabled False, SetEnabled True, ListStacks]
    (snd (stacks_init no_docker 9010 ''/c'' (Inr True) False))))) = False"
proof -
  have "fst (initialize no_docker 9010 ''/c'' False) = Inl ''not found''"
    by (simp add: no_docker_def toy_machine_def initialize_def check_socket_and_bin_def check_docker_installed_def and_then_def give_def
      docker_bin_def stacks_manager_def dm_new_def transition_def Let_def)
  from failed_start_waits_for_ever [OF this, of "[SetEnabled False, SetEnabled True, ListStacks]"] show ?thesis by simp
qed

text \<open>After \<open>shutdown\<close> the actor is still enabled, so enabling it changes nothing.\<close>

lemma shutdown_is_not_undone:
  "stacks_reaches mc port dir w \<Longrightarrow> sk_enabled (fst w) \<Longrightarrow>
    stacks_handle mc (SetEnabled True) (stacks_handle mc Shutdown w) = stacks_handle mc Shutdown w"
  by (cases w) (auto simp: set_enabled_def shutdown_def split: runtime_state.split sum.split prod.split)

text \<open>A container that cannot be stopped keeps running in a disabled actor, and disabling it again does not
  try again.\<close>

lemma failed_stop_is_not_retried:
  assumes "sk_manager a = Running d" "sk_enabled a" "dm_stop mc d m = (Inl e, m')"
  shows "stacks_handle mc (SetEnabled False) (a, m) = (a\<lparr>sk_enabled := False\<rparr>, m')"
    "stacks_handle mc (SetEnabled False) (a\<lparr>sk_enabled := False\<rparr>, m') = (a\<lparr>sk_enabled := False\<rparr>, m')"
  using assms by (simp_all add: set_enabled_def Let_def)

text \<open>Where stacks are not enabled, the container is taken to be stopped without looking.\<close>

lemma start_does_not_look:
  assumes "initialize mc port dir m = (Inr d, m')"
  shows "stacks_init mc port dir (Inr False) m
    = (Inr (), \<lparr>sk_enabled = False, sk_port = port, sk_config_dir = dir, sk_manager = Stopped d\<rparr>, m')"
  using assms by (simp add: stacks_init_def initializing_def stacks_new_def set_enabled_def)

text \<open>A container is taken for this one when its host port ends with this port.\<close>

lemma longer_port_is_taken:
  assumes "sv_run mc bin (ps_args (dm_container_name d)) m = (Inr out, m')" "dm_docker_bin d = Some bin"
    "trim (pr_stdout out) = ''0.0.0.0:1'' @ port_mapping ''->'' d @ ''/tcp''"
  shows "is_container_running mc d m = (Inr True, m')"
proof -
  have "sublist (port_mapping ''->'' d) (trim (pr_stdout out))" unfolding assms(3) sublist_def by blast
  with assms(1,2) show ?thesis by (simp add: is_container_running_def docker_bin_def and_then_def give_def)
qed

section \<open>Commands\<close>

datatype command_error = CommandFails string | CommandPanic

text \<open>Slicing a string from byte 2 panics past its end and inside a character.\<close>

definition slice_from_2 :: "string \<Rightarrow> string option" where
  "slice_from_2 s = (if length s < 2 \<or> 2 < length s \<and> (let b = of_char (s ! 2) :: nat in 128 \<le> b \<and> b < 192) then None else Some (drop 2 s))"

text \<open>\<open>sv_chain_id\<close> is the \<open>result\<close> of \<open>eth_chainId\<close> at a URL.\<close>

definition get_chain_id :: "'m machine \<Rightarrow> string \<Rightarrow> ('m, command_error, u64) handler" where
  "get_chain_id mc rpc_url m =
    (case sv_chain_id mc rpc_url m of
      (Inl e, m') \<Rightarrow> (Inl (CommandFails e), m')
    | (Inr result, m') \<Rightarrow>
        (case slice_from_2 result of
          None \<Rightarrow> Inl CommandPanic
        | Some digits \<Rightarrow> ok_or (CommandFails ''chain id'') (from_str_radix digits 16), m'))"

definition stack_url :: "string \<Rightarrow> u16 \<Rightarrow> string" where
  "stack_url slug port = ''http://'' @ slug @ ''.local.ethui.dev:'' @ show_dec (unat port)"

definition stack_network :: "string \<Rightarrow> u16 \<Rightarrow> u64 \<Rightarrow> new_network_params" where
  "stack_network slug port chain =
    \<lparr>np_name = slug, np_chain_id = chain, np_explorer_url = Some (stack_url slug port), np_http_url = Url (stack_url slug port),
     np_ws_url = None, np_currency = ''ETH'', np_decimals = 18, np_is_stack = True\<rparr>"

text \<open>The result is what is sent on the bus. The address is only parsed after it was used for a request.\<close>

definition stacks_create :: "'m machine \<Rightarrow> string \<Rightarrow> ('m stacks_world, command_error, internal_msg) handler" where
  "stacks_create mc slug w =
    (let slug = map lower_char slug in
      case sk_create_stack mc slug w of
        (Inl e, w') \<Rightarrow> (Inl (CommandFails e), w')
      | (Inr _, a, m) \<Rightarrow>
          (case get_chain_id mc (stack_url slug (fst (get_config a))) m of
            (r, m') \<Rightarrow> (map_sum id (\<lambda>chain. StackAdd (stack_network slug (fst (get_config a)) chain)) r, a, m')))"

definition stacks_list :: "'m machine \<Rightarrow> ('m stacks_world, string, string list) handler" where
  "stacks_list mc = sk_list_stacks mc"

definition stacks_remove :: "'m machine \<Rightarrow> string \<Rightarrow> ('m stacks_world, string, internal_msg) handler" where
  "stacks_remove mc slug w = (case sk_remove_stack mc slug w of (r, w') \<Rightarrow> (map_sum id (\<lambda>_. StackRemove slug) r, w'))"

text \<open>A stack is online when a request for its chain is answered with a success and a string.\<close>

definition check_stack_online :: "http_reply \<Rightarrow> bool" where
  "check_stack_online reply =
    (case reply of HttpReply True _ (Some body) \<Rightarrow> as_str (json_get ''result'' body) \<noteq> None | _ \<Rightarrow> False)"

definition stacks_get_status :: "'m machine \<Rightarrow> string \<Rightarrow> 'm stacks_world \<Rightarrow> string \<times> 'm stacks_world" where
  "stacks_get_status mc slug w = (case w of (a, m) \<Rightarrow>
    case sv_http mc ''POST'' (stack_url slug (fst (get_config a)))
      (Some (JObj [(''jsonrpc'', JStr ''2.0''), (''method'', JStr ''eth_chainId''), (''params'', JArr []), (''id'', JInt 1)])) m of
      (reply, m') \<Rightarrow> (if check_stack_online reply then ''online'' else ''offline'', a, m'))"

text \<open>A created stack is announced under its lower-case name on the chain it answers with, whether or not
  the container runs: without one nothing is created, and it is the request for the chain that fails.\<close>

lemma stacks_create_announces:
  assumes "stacks_create mc slug w = (Inr msg, w')"
  shows "\<exists>chain. msg = StackAdd (stack_network (map lower_char slug) (sk_port (fst w)) chain) \<and> fst w' = fst w"
proof -
  obtain a m where w: "w = (a, m)" by (cases w)
  have actor: "a' = a" if "sk_create_stack mc s (a, m) = (r, a', m')" for s r a' m'
    using that by (auto simp: sk_create_stack_def split: runtime_state.splits prod.splits)
  show ?thesis
    using assms by (auto simp: stacks_create_def w get_config_def map_sum_eq_iff Let_def split: prod.splits sum.splits dest: actor)
qed

lemma short_chain_id_panics:
  "sk_create_stack mc (map lower_char slug) w = (Inr u, a, m) \<Longrightarrow> sv_chain_id mc (stack_url (map lower_char slug) (sk_port a)) m = (Inr ''7'', m')
    \<Longrightarrow> fst (stacks_create mc slug w) = Inl CommandPanic"
  by (simp add: stacks_create_def get_chain_id_def slice_from_2_def get_config_def)

end
