(* ===== verification/Stack_Networks.thy ===== *)
theory Stack_Networks
  imports Stacks Networks
begin

text \<open>
  The stacks and the networks together: the commands of the stacks tell the networks actor over the bus
  (\<open>crates/stacks/src/commands.rs\<close>, \<open>crates/networks/src/init.rs\<close>).
\<close>

lemma nw_remove_nets_name: "hm_get (nets (snd (nw_remove i name s))) name = None"
proof -
  have "nets (snd (nw_remove i name s)) = hm_remove name (nets s)"
    by (auto simp: nw_remove_eq Let_def split: option.split list.split sum.split)
  then show ?thesis by (simp add: AList.delete_conv)
qed

text \<open>A created stack that the networks actor accepts is a development network under its lower-case name, and
  removing it under that name takes the network away again.\<close>

lemma created_stack_becomes_network:
  assumes "stacks_create mc slug w = (Inr msg, w')" "nw_receiver msg = Some req" "nw_handle (probe, i, req) s = (Inr (), s')"
  shows "\<exists>n. hm_get (nets s') (map lower_char slug) = Some n \<and> is_dev probe n = Inr True
      \<and> http_url n = Url (stack_url (map lower_char slug) (sk_port (fst w)))"
    and "hm_get (nets (snd (nw_handle (probe', i', the (nw_receiver (StackRemove (map lower_char slug)))) s'))) (map lower_char slug) = None"
proof -
  let ?name = "map lower_char slug"
  obtain chain where msg: "msg = StackAdd (stack_network ?name (sk_port (fst w)) chain)"
    using stacks_create_announces [OF assms(1)] by blast
  define n where "n = into_network (stack_network ?name (sk_port (fst w)) chain) (of_nat (get_chain_id_count s chain))"
  have stack: "is_stack n" "http_url n = Url (stack_url ?name (sk_port (fst w)))"
    by (simp_all add: n_def into_network_def stack_network_def)
  moreover have "hm_get (nets s') ?name = Some n"
    using assms(2,3) stack(1)
    by (auto simp: msg nw_add_eq Let_def save_then_def stack_network_def n_def split: if_splits sum.splits)
  ultimately show "\<exists>n. hm_get (nets s') ?name = Some n \<and> is_dev probe n = Inr True
      \<and> http_url n = Url (stack_url ?name (sk_port (fst w)))"
    by auto
  show "hm_get (nets (snd (nw_handle (probe', i', the (nw_receiver (StackRemove ?name))) s'))) ?name = None"
    by (simp add: nw_remove_nets_name)
qed

text \<open>While the container does not run, removing a stack reports success and takes its network away, though the
  stack is still there.\<close>

lemma stack_removed_without_container:
  assumes "sk_manager a = Stopped d"
  shows "stacks_remove mc slug (a, m) = (Inr (StackRemove slug), a, m)"
  using assms by (simp add: stacks_remove_def sk_remove_stack_def)

end
