(* ===== verification/Logging.thy ===== *)
theory Logging
  imports Prelude
begin

text \<open>
  The log of the program (\<open>crates/tracing/src/lib.rs\<close>) and what the user interface shows of it
  (\<open>logging_get_snapshot\<close> in \<open>bin/src/commands.rs\<close>): what is logged before the configuration directory is
  known is kept in memory, and written first when the file of the session is opened. How a record is
  formatted and which records the filters let through is left to the subscriber; a line is its bytes.
\<close>

section \<open>State\<close>

text \<open>An open file is known by its path: it is opened to append, and its handle is only used to write.\<close>

datatype writer_state = LogBuffer bytes | LogFile string

text \<open>The cells that are set once: the writer, the handle of the filter, the path. The writer is there exactly
  when the subscriber is.\<close>

record logging =
  lg_subscriber :: bool
  lg_filter :: "string option"
  lg_writer :: "writer_state option"
  lg_path :: "string option"
  lg_files :: "string \<Rightarrow> bytes option"

text \<open>What the machine answers to the operations of one step: \<open>li_write\<close> is \<open>Some k\<close> where writing fails
  after \<open>k\<close> bytes.\<close>

record log_io =
  li_mkdir :: bool
  li_open :: bool
  li_now :: string
  li_write :: "nat option"
  li_flush :: bool
  li_opened_line :: "string \<Rightarrow> bytes"

datatype log_error = NotSetUp | AlreadySetUp | BadDirectives | LogIo

definition logging_new :: "(string \<Rightarrow> bytes option) \<Rightarrow> logging" where
  "logging_new files = \<lparr>lg_subscriber = False, lg_filter = None, lg_writer = None, lg_path = None, lg_files = files\<rparr>"

section \<open>Writing\<close>

definition append_file :: "string \<Rightarrow> bytes \<Rightarrow> (string \<Rightarrow> bytes option) \<Rightarrow> string \<Rightarrow> bytes option" where
  "append_file p b files = files(p := Some (case files p of None \<Rightarrow> b | Some c \<Rightarrow> c @ b))"

text \<open>\<open>write_all\<close> and \<open>flush\<close>: what was written before the failure stays in the file.\<close>

definition write_all :: "log_io \<Rightarrow> string \<Rightarrow> bytes \<Rightarrow> (logging, log_error, unit) handler" where
  "write_all i p b s =
    (case li_write i of
      None \<Rightarrow> (if li_flush i then Inr () else Inl LogIo, s\<lparr>lg_files := append_file p b (lg_files s)\<rparr>)
    | Some k \<Rightarrow> (Inl LogIo, s\<lparr>lg_files := append_file p (take k b) (lg_files s)\<rparr>))"

definition log_write :: "log_io \<Rightarrow> bytes \<Rightarrow> (logging, log_error, nat) handler" where
  "log_write i buf s =
    (case lg_writer s of
      None \<Rightarrow> (Inr (length buf), s)
    | Some (LogBuffer b) \<Rightarrow> (Inr (length buf), s\<lparr>lg_writer := Some (LogBuffer (b @ buf))\<rparr>)
    | Some (LogFile p) \<Rightarrow> (case write_all i p buf s of (r, s') \<Rightarrow> (map_sum id (\<lambda>_. length buf) r, s')))"

section \<open>Setting up\<close>

definition log_setup :: "string \<Rightarrow> (logging, log_error, unit) handler" where
  "log_setup env_filter s =
    (if lg_subscriber s then (Inl AlreadySetUp, s)
     else (Inr (), s\<lparr>lg_subscriber := True, lg_filter := Some env_filter, lg_writer := Some (LogBuffer [])\<rparr>))"

definition session_path :: "string \<Rightarrow> string \<Rightarrow> string" where
  "session_path dir now = dir @ ''/session-'' @ now @ ''.log''"

text \<open>The line that tells of the file is the first of the new writer; whether it is written is not looked at.\<close>

definition setup_file_logging :: "log_io \<Rightarrow> log_io \<Rightarrow> string \<Rightarrow> (logging, log_error, unit) handler" where
  "setup_file_logging i i' dir s =
    (case lg_writer s of
      None \<Rightarrow> (Inl NotSetUp, s)
    | Some w \<Rightarrow>
        if \<not> li_mkdir i then (Inl LogIo, s)
        else if \<not> li_open i then (Inl LogIo, s)
        else
          (let p = session_path dir (li_now i); s1 = s\<lparr>lg_files := append_file p [] (lg_files s)\<rparr> in
            case (case w of
                LogBuffer b \<Rightarrow> write_all i p b s1
              | LogFile _ \<Rightarrow> (if li_flush i then Inr () else Inl LogIo, s1)) of
              (Inl e, s2) \<Rightarrow> (Inl e, s2)
            | (Inr _, s2) \<Rightarrow>
                (let s3 = s2\<lparr>lg_writer := Some (LogFile p), lg_path := (case lg_path s2 of None \<Rightarrow> Some p | q \<Rightarrow> q)\<rparr> in
                  (Inr (), snd (log_write i' (li_opened_line i p) s3)))))"

text \<open>\<open>parse\<close> of a filter is left to the subscriber.\<close>

definition log_reload :: "(string \<Rightarrow> bool) \<Rightarrow> string \<Rightarrow> (logging, log_error, unit) handler" where
  "log_reload parses directives s =
    (if \<not> parses directives then (Inl BadDirectives, s)
     else
       (case lg_filter s of
         None \<Rightarrow> (Inl NotSetUp, s)
       | Some _ \<Rightarrow> (Inr (), s\<lparr>lg_filter := Some directives\<rparr>)))"

section \<open>What is shown\<close>

record log_snapshot =
  ls_path :: string
  ls_content :: bytes
  ls_truncated :: bool

text \<open>The bytes that are read as text; a file that cannot be read is an error.\<close>

definition logging_get_snapshot :: "nat option \<Rightarrow> logging \<Rightarrow> log_error + log_snapshot" where
  "logging_get_snapshot limit s =
    (case lg_path s of
      None \<Rightarrow> Inl NotSetUp
    | Some p \<Rightarrow>
        (case lg_files s p of
          None \<Rightarrow> Inl LogIo
        | Some bytes \<Rightarrow>
            (let n = (case limit of None \<Rightarrow> 64 * 1024 | Some l \<Rightarrow> l); truncated = n < length bytes in
              Inr \<lparr>ls_path = p, ls_content = (if truncated then drop (length bytes - n) bytes else bytes),
                ls_truncated = truncated\<rparr>)))"

section \<open>Nothing that is logged is lost\<close>

datatype log_step = Logs bytes | OpensFile log_io log_io string | Reloads "string \<Rightarrow> bool" string

definition io_fine :: "log_io \<Rightarrow> bool" where
  "io_fine i = (li_write i = None \<and> li_flush i)"

fun log_event :: "log_io \<Rightarrow> log_step \<Rightarrow> logging \<Rightarrow> logging" where
  "log_event i (Logs b) s = snd (log_write i b s)"
| "log_event i (OpensFile j j' dir) s = snd (setup_file_logging j j' dir s)"
| "log_event i (Reloads parses d) s = snd (log_reload parses d s)"

text \<open>An attempt to open the file that fails before it writes.\<close>

fun opens_nothing :: "log_step \<Rightarrow> bool" where
  "opens_nothing (OpensFile j _ _) = (\<not> li_mkdir j \<or> \<not> li_open j)"
| "opens_nothing _ = True"

fun logged_bytes :: "log_step \<Rightarrow> bytes" where
  "logged_bytes (Logs b) = b"
| "logged_bytes _ = []"

definition log_run :: "log_io \<Rightarrow> log_step list \<Rightarrow> logging \<Rightarrow> logging" where
  "log_run i = fold (log_event i)"

lemma buffer_grows:
  assumes "list_all opens_nothing es" "lg_writer s = Some (LogBuffer b)"
  shows "lg_writer (log_run i es s) = Some (LogBuffer (b @ concat (map logged_bytes es)))
    \<and> lg_files (log_run i es s) = lg_files s \<and> lg_path (log_run i es s) = lg_path s"
  using assms
proof (induction es arbitrary: s b)
  case (Cons e es)
  have "lg_writer (log_event i e s) = Some (LogBuffer (b @ logged_bytes e)) \<and> lg_files (log_event i e s) = lg_files s
      \<and> lg_path (log_event i e s) = lg_path s"
    using Cons.prems by (cases e) (auto simp: log_write_def setup_file_logging_def log_reload_def split: option.split)
  with Cons.IH [of "log_event i e s" "b @ logged_bytes e"] Cons.prems show ?case by (simp add: log_run_def)
qed (simp add: log_run_def)

lemma file_grows:
  assumes "list_all opens_nothing es" "io_fine i" "lg_writer s = Some (LogFile p)" "lg_files s p = Some c"
  shows "lg_writer (log_run i es s) = Some (LogFile p) \<and> lg_files (log_run i es s) p = Some (c @ concat (map logged_bytes es))
    \<and> lg_path (log_run i es s) = lg_path s"
  using assms
proof (induction es arbitrary: s c)
  case (Cons e es)
  have "lg_writer (log_event i e s) = Some (LogFile p) \<and> lg_files (log_event i e s) p = Some (c @ logged_bytes e)
      \<and> lg_path (log_event i e s) = lg_path s"
    using Cons.prems
    by (cases e) (auto simp: log_write_def setup_file_logging_def log_reload_def write_all_def io_fine_def append_file_def split: option.split)
  with Cons.IH [of "log_event i e s" "c @ logged_bytes e"] Cons.prems show ?case by (simp add: log_run_def)
qed (simp add: log_run_def)

lemma opening_moves_buffer:
  assumes "lg_writer s = Some (LogBuffer b)" "li_mkdir j" "li_open j" "io_fine j" "io_fine j'" "p = session_path dir (li_now j)"
    "lg_path s = None"
  shows "lg_writer (log_event i (OpensFile j j' dir) s) = Some (LogFile p)
    \<and> lg_files (log_event i (OpensFile j j' dir) s) p = Some ((case lg_files s p of None \<Rightarrow> [] | Some c \<Rightarrow> c) @ b @ li_opened_line j p)
    \<and> lg_path (log_event i (OpensFile j j' dir) s) = Some p"
  using assms
  by (auto simp: setup_file_logging_def log_write_def write_all_def io_fine_def append_file_def Let_def split: option.split)

text \<open>C22. From its start until its end the program shows the last bytes of everything that it logged, in the
  order in which it was logged and also what was logged before there was a file, as long as writing
  to the file does not fail; the file may be opened only at the second attempt, and what was in it
  before comes first.\<close>

theorem snapshot_shows_the_end_of_the_log:
  assumes "log_setup env_filter (logging_new files) = (Inr (), s0)"
    and "list_all opens_nothing before" "list_all opens_nothing after"
    and "li_mkdir j" "li_open j" "io_fine j" "io_fine j'" "io_fine i"
    and "p = session_path dir (li_now j)"
    and "everything = (case files p of None \<Rightarrow> [] | Some c \<Rightarrow> c) @ concat (map logged_bytes before) @ li_opened_line j p
      @ concat (map logged_bytes after)"
  shows "logging_get_snapshot (Some limit) (log_run i (before @ OpensFile j j' dir # after) s0)
    = Inr \<lparr>ls_path = p, ls_content = drop (length everything - limit) everything, ls_truncated = (limit < length everything)\<rparr>"
proof -
  let ?s1 = "log_run i before s0" and ?s2 = "log_event i (OpensFile j j' dir) (log_run i before s0)"
  from assms(1) have s0: "lg_writer s0 = Some (LogBuffer [])" "lg_files s0 = files" "lg_path s0 = None"
    by (auto simp: log_setup_def logging_new_def)
  note s1 = buffer_grows [OF assms(2) s0(1), of i]
  then have s2: "lg_writer ?s2 = Some (LogFile p)" "lg_path ?s2 = Some p"
    "lg_files ?s2 p = Some ((case files p of None \<Rightarrow> [] | Some c \<Rightarrow> c) @ concat (map logged_bytes before) @ li_opened_line j p)"
    using opening_moves_buffer [of ?s1 _ j j' p dir i] assms(4-9) s0 by simp_all
  from file_grows [OF assms(3,8) s2(1,3)] s2(2)
  have "lg_files (log_run i after ?s2) p = Some everything" "lg_path (log_run i after ?s2) = Some p"
    using assms(10) by simp_all
  moreover have "log_run i (before @ OpensFile j j' dir # after) s0 = log_run i after ?s2" by (simp add: log_run_def)
  ultimately show ?thesis by (simp add: logging_get_snapshot_def Let_def)
qed

text \<open>The path is set once: after a second file the first is shown, though the second is written.\<close>

lemma second_file_is_not_shown:
  assumes "lg_writer s = Some (LogFile q)" "lg_path s = Some q" "li_mkdir j" "li_open j" "io_fine j" "p = session_path dir (li_now j)"
  shows "lg_writer (log_event i (OpensFile j j' dir) s) = Some (LogFile p) \<and> lg_path (log_event i (OpensFile j j' dir) s) = Some q"
  using assms by (auto simp: setup_file_logging_def log_write_def write_all_def io_fine_def Let_def split: option.split)

definition fine_io :: log_io where
  "fine_io = \<lparr>li_mkdir = True, li_open = True, li_now = ''20250101-000000'', li_write = None, li_flush = True, li_opened_line = (\<lambda>_. [7, 8])\<rparr>"

theorem snapshot_shows_the_end_of_the_log_witness:
  "map_sum id ls_content (logging_get_snapshot (Some 4) (log_run fine_io
    ([Logs [1], Logs [2]] @ OpensFile fine_io fine_io ''/c/logs'' # [Logs [3]]) (snd (log_setup '''' (logging_new (\<lambda>_. None))))))
    = Inr [2, 7, 8, 3]"
proof -
  have "log_setup '''' (logging_new (\<lambda>_. None)) = (Inr (), snd (log_setup '''' (logging_new (\<lambda>_. None))))"
    by (simp add: log_setup_def logging_new_def)
  from snapshot_shows_the_end_of_the_log [OF this, of "[Logs [1], Logs [2]]" "[Logs [3]]" fine_io fine_io fine_io
      "session_path ''/c/logs'' (li_now fine_io)" "''/c/logs''" "[1, 2, 7, 8, 3]" 4]
  show ?thesis by (simp add: io_fine_def fine_io_def)
qed

end
