(* ===== verification/App.thy ===== *)
theory App
  imports Dialogs Ethui_Types
begin

text \<open>
  The shell of the application (\<open>bin/src\<close>): its start and its end (\<open>app.rs\<close>), the windows (\<open>windows/\<close>),
  the menu and the tray, and the events it counts (\<open>crates/analytics\<close>). The windows of the framework
  are a map from labels, the machine and the settings are parameters.
\<close>

section \<open>Windows\<close>

record window =
  wn_url :: string
  wn_visible :: bool
  wn_dialog :: "u32 option"

text \<open>What is emitted is recorded with the label of its window, or without one when it goes to all; what is
  spawned to close a dialog is recorded with its id.\<close>

record shell =
  sh_windows :: "(string, window) hmap"
  sh_emitted :: "(string option \<times> string) list"
  sh_closing :: "u32 list"
  sh_exit :: "int option"

definition shell_new :: shell where
  "shell_new = \<lparr>sh_windows = [], sh_emitted = [], sh_closing = [], sh_exit = None\<rparr>"

text \<open>An \<open>unwrap\<close> or \<open>expect\<close> that fails ends the task.\<close>

datatype app_error = AppFails string | AppPanic

type_synonym 'a shell_handler = "(shell, app_error, 'a) handler"

text \<open>A label that is taken is an error of the framework.\<close>

definition build_window :: "string \<Rightarrow> string \<Rightarrow> u32 option \<Rightarrow> unit shell_handler" where
  "build_window label url dialog s =
    (if hm_contains (sh_windows s) label then (Inl AppPanic, s)
     else (Inr (), s\<lparr>sh_windows := hm_insert label \<lparr>wn_url = url, wn_visible = True, wn_dialog = dialog\<rparr> (sh_windows s)\<rparr>))"

definition set_visible :: "string \<Rightarrow> bool \<Rightarrow> shell \<Rightarrow> shell" where
  "set_visible label b s =
    (case hm_get (sh_windows s) label of
      None \<Rightarrow> s
    | Some w \<Rightarrow> s\<lparr>sh_windows := hm_insert label (w\<lparr>wn_visible := b\<rparr>) (sh_windows s)\<rparr>)"

text \<open>The settings tell whether the onboarding is finished; without them it panics.\<close>

definition main_show :: "bool option \<Rightarrow> unit shell_handler" where
  "main_show onboarded s =
    (case onboarded of
      None \<Rightarrow> (Inl AppPanic, s)
    | Some finished \<Rightarrow>
        if hm_contains (sh_windows s) ''main'' then (Inr (), set_visible ''main'' True s)
        else build_window ''main'' (if finished then ''index.html#/home/account'' else ''index.html#/home/onboarding'') None s)"

definition main_hide :: "shell \<Rightarrow> shell" where
  "main_hide s = set_visible ''main'' False s"

section \<open>Windows of dialogs\<close>

text \<open>A window that is asked to close tells its dialog, and again when it is gone.\<close>

datatype window_event = CloseRequested | Destroyed | OtherWindowEvent

definition on_event :: "u32 \<Rightarrow> window_event \<Rightarrow> shell \<Rightarrow> shell" where
  "on_event window_id e s =
    (if e = CloseRequested \<or> e = Destroyed then s\<lparr>sh_closing := sh_closing s @ [window_id]\<rparr> else s)"

definition window_events :: "window \<Rightarrow> window_event list \<Rightarrow> shell \<Rightarrow> shell" where
  "window_events w es s = (case wn_dialog w of None \<Rightarrow> s | Some i \<Rightarrow> fold (on_event i) es s)"

definition close_window :: "string \<Rightarrow> shell \<Rightarrow> shell" where
  "close_window label s =
    (case hm_get (sh_windows s) label of
      None \<Rightarrow> s
    | Some w \<Rightarrow> window_events w [CloseRequested, Destroyed] (s\<lparr>sh_windows := hm_remove label (sh_windows s)\<rparr>))"

definition emit_to :: "string option \<Rightarrow> string \<Rightarrow> shell \<Rightarrow> shell" where
  "emit_to label event s = s\<lparr>sh_emitted := sh_emitted s @ [(label, event)]\<rparr>"

section \<open>Messages for the user interface\<close>

datatype ui_msg = Notify ui_notify | DialogWindow window_msg | MainWindowShow | MainWindowHide

text \<open>One message of \<open>event_listener\<close>: a notification is ignored while there is no main window, and otherwise
  goes to all windows.\<close>

fun ui_handle :: "bool option \<Rightarrow> ui_msg \<Rightarrow> unit shell_handler" where
  "ui_handle onboarded (Notify n) s =
    (Inr (), if hm_contains (sh_windows s) ''main'' then emit_to None (ui_label n) s else s)"
| "ui_handle onboarded (DialogWindow (WinOpen i label title url)) s = build_window label url (Some i) s"
| "ui_handle onboarded (DialogWindow (WinClose label)) s = (Inr (), close_window label s)"
| "ui_handle onboarded (DialogWindow (WinSend label event payload)) s = (Inr (), emit_to (Some label) event s)"
| "ui_handle onboarded MainWindowShow s = main_show onboarded s"
| "ui_handle onboarded MainWindowHide s = (Inr (), main_hide s)"

definition event_listener :: "bool option \<Rightarrow> ui_msg list \<Rightarrow> unit shell_handler" where
  "event_listener onboarded msgs = run_seq (map (ui_handle onboarded) msgs)"

section \<open>Menu and tray\<close>

definition menu_event :: "string \<Rightarrow> string \<Rightarrow> shell \<Rightarrow> shell" where
  "menu_event window_label i s =
    (if i = ''quit'' then s\<lparr>sh_exit := Some 0\<rparr>
     else if i = ''close'' then close_window window_label s
     else if i = ''settings'' then emit_to None ''menu:settings'' s
     else emit_to None ''go'' s)"

text \<open>Showing the window goes over the bus.\<close>

definition tray_event :: "string \<Rightarrow> shell \<Rightarrow> ui_msg list \<times> shell" where
  "tray_event i s =
    (if i = ''tray/quit'' then ([], s\<lparr>sh_exit := Some 0\<rparr>)
     else if i = ''tray/hide'' then ([], main_hide s)
     else if i = ''tray/show'' then ([MainWindowShow], s)
     else ([], s))"

section \<open>Start and end\<close>

datatype init_step =
    InitLogs | InitDb | InitListener | InitSync | InitSettings | InitWs | InitConnections | InitWallets | InitNetworks
  | InitWalletconnect | InitSolArtifacts | InitAnalytics | TrackStarted | InitStacks

definition init_steps :: "bool \<Rightarrow> init_step list" where
  "init_steps stacks = [InitLogs, InitDb, InitListener, InitSync, InitSettings, InitWs, InitConnections, InitWallets, InitNetworks,
    InitWalletconnect, InitSolArtifacts, InitAnalytics, TrackStarted] @ (if stacks then [InitStacks] else [])"

text \<open>Each step may fail or panic, which ends the start; the state is what was started.\<close>

definition app_init :: "(init_step \<Rightarrow> app_error option) \<Rightarrow> bool \<Rightarrow> (init_step list, app_error, unit) handler" where
  "app_init fails stacks = run_seq (map (\<lambda>i started.
    case fails i of None \<Rightarrow> (Inr (), started @ [i]) | Some e \<Rightarrow> (Inl e, started)) (init_steps stacks))"

record app_settings =
  as_start_minimized :: bool
  as_onboarded :: bool

text \<open>\<open>run\<close> shows the main window unless the program was started hidden.\<close>

definition app_run :: "bool \<Rightarrow> app_settings option \<Rightarrow> unit shell_handler" where
  "app_run hidden settings s =
    (let start_minimized = (case settings of None \<Rightarrow> False | Some x \<Rightarrow> as_start_minimized x) in
      if \<not> hidden \<and> \<not> start_minimized then main_show (map_option as_onboarded settings) s else (Inr (), s))"

datatype lock_result = LockError string | LockHeld | LockFree

text \<open>The messages for the user interface stay in the process that sends them, so they reach the listener of
  that process when it has started one.\<close>

definition deliver_ui :: "bool \<Rightarrow> bool option \<Rightarrow> ui_msg \<Rightarrow> unit shell_handler" where
  "deliver_ui listening onboarded m s = (if listening then ui_handle onboarded m s else (Inr (), s))"

definition start_or_open ::
    "lock_result \<Rightarrow> (init_step \<Rightarrow> app_error option) \<Rightarrow> bool \<Rightarrow> bool \<Rightarrow> app_settings option \<Rightarrow> (app_error + unit) \<times> init_step list \<times> shell" where
  "start_or_open lock fails stacks hidden settings =
    (case lock of
      LockError e \<Rightarrow> (Inl (AppFails e), [], shell_new)
    | LockHeld \<Rightarrow> (case deliver_ui False (map_option as_onboarded settings) MainWindowShow shell_new of (r, s) \<Rightarrow> (r, [], s))
    | LockFree \<Rightarrow>
        (case app_init fails stacks [] of
          (Inl e, started) \<Rightarrow> (Inl e, started, shell_new)
        | (Inr _, started) \<Rightarrow> (case app_run hidden settings shell_new of (r, s) \<Rightarrow> (r, started, s))))"

datatype run_event = ExitRequested "int option" | Exit | OtherRunEvent
datatype run_action = PreventExit | TrackExited | ShutdownWalletconnect | ShutdownStacks

text \<open>Without a code it is the last window that was closed: the program goes on in the tray.\<close>

fun on_run_event :: "bool \<Rightarrow> run_event \<Rightarrow> run_action list" where
  "on_run_event stacks (ExitRequested code) = (if code = None then [PreventExit] else [])"
| "on_run_event stacks Exit = [TrackExited, ShutdownWalletconnect] @ (if stacks then [ShutdownStacks] else [])"
| "on_run_event stacks OtherRunEvent = []"

text \<open>A second start of the program shows nothing, whether or not the first shows its window.\<close>

lemma second_start_shows_nothing:
  "start_or_open LockHeld fails stacks hidden settings = (Inr (), [], shell_new)"
  by (simp add: start_or_open_def deliver_ui_def)

text \<open>Where the settings cannot be read, \<open>run\<close> assumes they are not to start minimized and then panics.\<close>

lemma unreadable_settings_panic: "fst (app_run False None s) = Inl AppPanic"
  by (simp add: app_run_def main_show_def)

text \<open>What was started is the beginning of the list, up to what failed.\<close>

lemma init_starts_until_failure:
  "\<exists>rest. snd (run_seq (map (\<lambda>i started. case fails i of None \<Rightarrow> (Inr (), started @ [i]) | Some e \<Rightarrow> (Inl e, started)) steps) before) @ rest
    = before @ steps"
proof (induction steps arbitrary: before)
  case (Cons i steps)
  then show ?case
  proof (cases "fails i")
    case None
    with Cons [of "before @ [i]"] show ?thesis by simp
  qed simp
qed simp

end
