(* ===== verification/Analytics.thy ===== *)
theory Analytics
  imports Dialogs Ethui_Types
begin

text \<open>
  The events that are counted (\<open>crates/analytics\<close>): the identifier of the machine, and which messages of
  the two buses are events. Sending an event to the service is left out.
\<close>

section \<open>The identifier of the machine\<close>

record machine_names =
  mn_mac :: "string option"
  mn_hostname :: "string option"

definition get_machine_identifier :: "machine_names \<Rightarrow> string" where
  "get_machine_identifier m =
    (case mn_mac m of
      Some mac \<Rightarrow> mac
    | None \<Rightarrow>
        (case mn_hostname m of
          Some h \<Rightarrow> if h \<noteq> [] then ''fallback-'' @ h else ''fallback-unknown-machine''
        | None \<Rightarrow> ''fallback-unknown-machine''))"

text \<open>The first sixteen bytes, filled up with zeros; a UUID of version 8 then has its version in the high half
  of byte 6 and its variant in the two high bits of byte 8.\<close>

definition id_bytes :: "string \<Rightarrow> bytes" where
  "id_bytes s = take 16 (map byte_of_char s @ replicate 16 0)"

definition new_v8 :: "bytes \<Rightarrow> bytes" where
  "new_v8 b = b[6 := or (and (b ! 6) 0x0F) 0x80, 8 := or (and (b ! 8) 0x3F) 0x80]"

definition machine_user_id :: "machine_names \<Rightarrow> bytes" where
  "machine_user_id m = new_v8 (id_bytes (get_machine_identifier m))"

text \<open>\<open>user_id\<close> is the identifier's text; the properties of an event replace common ones of the same name.\<close>

definition event_properties :: "string \<Rightarrow> (string, json) hmap option \<Rightarrow> (string, json) hmap" where
  "event_properties user_id props =
    fold (\<lambda>(k, v). hm_insert k v) (case props of None \<Rightarrow> [] | Some p \<Rightarrow> p) [(''user_id'', JStr user_id)]"

section \<open>Events\<close>

definition internal_event :: "internal_msg \<Rightarrow> (string \<times> (string, json) hmap option) option" where
  "internal_event m =
    (case m of
      PeerAdded \<Rightarrow> Some (''peer_added'', None)
    | WalletCreated \<Rightarrow> Some (''wallet_created'', None)
    | WalletConnected wallet_type \<Rightarrow> Some (''wallet_connected'', Some [(''wallet_type'', JStr wallet_type)])
    | TransactionSubmitted c \<Rightarrow> Some (''transaction_submitted'', Some [(''chain_id'', JInt (int (unat c)))])
    | _ \<Rightarrow> None)"

definition ui_event :: "window_msg \<Rightarrow> (string \<times> (string, json) hmap option) option" where
  "ui_event m =
    (case m of WinOpen _ _ title _ \<Rightarrow> Some (''dialog_open'', Some [(''title'', JStr title)]) | _ \<Rightarrow> None)"

section \<open>What tells machines apart\<close>

lemma id_bytes_take: "id_bytes s = id_bytes (take 16 s)"
proof -
  have "take 16 (map byte_of_char s @ replicate 16 0) = take 16 (map byte_of_char (take 16 s) @ replicate 16 0)"
    by (cases "length s \<le> 16") (simp_all add: take_map)
  then show ?thesis by (simp add: id_bytes_def)
qed

text \<open>Only sixteen characters count, and an address of a network card has seventeen: its last digit does not.\<close>

lemma last_digit_is_lost:
  assumes "mn_mac m = Some (s @ [c])" "mn_mac m' = Some (s @ [c'])" "length s = 16"
  shows "machine_user_id m = machine_user_id m'"
  using assms id_bytes_take [of "s @ [c]"] id_bytes_take [of "s @ [c']"]
  by (simp add: machine_user_id_def get_machine_identifier_def)

text \<open>Of the name of a machine without a network card seven characters count.\<close>

lemma long_names_collide:
  assumes "mn_mac m = None" "mn_mac m' = None" "mn_hostname m = Some (''DESKTOP'' @ s)" "mn_hostname m' = Some (''DESKTOP'' @ t)"
  shows "machine_user_id m = machine_user_id m'"
  using assms id_bytes_take [of "''fallback-DESKTOP'' @ s"] id_bytes_take [of "''fallback-DESKTOP'' @ t"]
  by (simp add: machine_user_id_def get_machine_identifier_def)

end
