(* ===== verification/Simulator.thy ===== *)
theory Simulator
  imports Db_Transactions Networks Wallets
begin

text \<open>
  Simulating a transaction (\<open>crates/simulator\<close>): what the simulation is given of the node's state and of
  the request, and how often the user's wallets have called a contract. The node and the virtual
  machine are a parameter.
\<close>

section \<open>Simulating\<close>

record simulation_request =
  sq_from :: address
  sq_to :: "address option"
  sq_data :: "bytes option"
  sq_gas_limit :: u64
  sq_value :: "u256 option"

record sim_result =
  sr_gas_used :: u64
  sr_success :: bool
  sr_logs :: "json list"
  sr_return_data :: "bytes option"

text \<open>A block whose state is taken: one with a number, or the latest.\<close>

datatype block_id = Latest | BlockNumber u64

record sim_block =
  sb_state_of :: block_id
  sb_number :: u256
  sb_timestamp :: u256

record sim_tx =
  st_caller :: address
  st_to :: address
  st_data :: bytes
  st_value :: u256
  st_nonce :: u64

record sim_env =
  sim_connects :: bool
  sim_nonce :: "block_id \<Rightarrow> address \<Rightarrow> string + u64"
  sim_block_number :: "string + u64"
  sim_timestamp :: "u64 \<Rightarrow> string + u64 option"
  sim_now :: u64
  sim_transact :: "sim_block \<Rightarrow> sim_tx \<Rightarrow> sim_result option"

text \<open>The later of the node's time and the machine's; the next second of it in the next block. Words wrap.\<close>

definition sim_block_of :: "sim_env \<Rightarrow> block_id \<Rightarrow> u64 \<Rightarrow> u64 \<Rightarrow> sim_block" where
  "sim_block_of env b block_number block_time =
    \<lparr>sb_state_of = b, sb_number = ucast (block_number + 1), sb_timestamp = ucast (max block_time (sim_now env) + 1)\<rparr>"

definition sim_tx_of :: "simulation_request \<Rightarrow> u64 \<Rightarrow> sim_tx" where
  "sim_tx_of tx nonce =
    \<lparr>st_caller = sq_from tx, st_to = (case sq_to tx of None \<Rightarrow> 0 | Some a \<Rightarrow> a), st_data = (case sq_data tx of None \<Rightarrow> [] | Some b \<Rightarrow> b),
     st_value = (case sq_value tx of None \<Rightarrow> 0 | Some v \<Rightarrow> v), st_nonce = nonce\<rparr>"

definition simulate_once :: "sim_env \<Rightarrow> simulation_request \<Rightarrow> u64 option \<Rightarrow> string + sim_result" where
  "simulate_once env tx fork_block_number =
    (if \<not> sim_connects env then Inl ''connect''
     else
       (let b = (case fork_block_number of None \<Rightarrow> Latest | Some n \<Rightarrow> BlockNumber n) in
         case sim_nonce env b (sq_from tx) of
           Inl e \<Rightarrow> Inl e
         | Inr nonce \<Rightarrow>
             (case sim_block_number env of
               Inl e \<Rightarrow> Inl e
             | Inr n \<Rightarrow>
                 (case sim_timestamp env n of
                   Inl e \<Rightarrow> Inl e
                 | Inr t \<Rightarrow>
                     ok_or ''Failed to transact''
                       (sim_transact env (sim_block_of env b n (case t of None \<Rightarrow> 0 | Some x \<Rightarrow> x)) (sim_tx_of tx nonce))))))"

definition simulator_run :: "(url \<Rightarrow> sim_env) \<Rightarrow> networks_actor \<Rightarrow> u64 \<Rightarrow> simulation_request \<Rightarrow> string + sim_result" where
  "simulator_run envs s chain tx =
    (case nw_get s (KeyChainId chain) of
      None \<Rightarrow> Inl ''Network not found''
    | Some n \<Rightarrow> simulate_once (envs (http_url n)) tx None)"

text \<open>The limit of gas that is asked for is not used, and a transaction that creates a contract is simulated as
  a call of the address zero.\<close>

lemma gas_limit_is_not_used: "simulate_once env (tx\<lparr>sq_gas_limit := g\<rparr>) b = simulate_once env tx b"
  by (simp add: simulate_once_def sim_tx_of_def cong: sum.case_cong)

lemma creation_is_simulated_as_call:
  "simulate_once env (tx\<lparr>sq_to := None\<rparr>) b = simulate_once env (tx\<lparr>sq_to := Some 0\<rparr>) b"
  by (simp add: simulate_once_def sim_tx_of_def cong: sum.case_cong)

section \<open>Counting calls\<close>

text \<open>The sum wraps as a release build does.\<close>

definition call_count_of :: "(string \<times> address) list \<Rightarrow> u64 \<Rightarrow> address \<Rightarrow> db \<Rightarrow> u32" where
  "call_count_of addrs chain to d = foldl (\<lambda>res (_, caller). res + get_call_count chain caller to d) 0 addrs"

definition simulator_get_call_count :: "wallet_env \<Rightarrow> wallets_state \<Rightarrow> u64 \<Rightarrow> address \<Rightarrow> db \<Rightarrow> wl_error + u32" where
  "simulator_get_call_count env s chain to d =
    map_sum id (\<lambda>addrs. call_count_of addrs chain to d) (get_all_addresses env s)"

lemma call_count_append:
  "foldl (\<lambda>res (_, caller). res + get_call_count chain caller to d) r addrs = r + call_count_of addrs chain to d"
proof (induction addrs arbitrary: r)
  case (Cons x addrs)
  obtain n a where "x = (n, a)" by (cases x)
  with Cons [of "r + get_call_count chain a to d"] Cons [of "get_call_count chain a to d"] show ?case
    by (simp add: call_count_of_def add.assoc)
qed (simp add: call_count_of_def)

lemma call_count_Cons [simp]:
  "call_count_of ((n, a) # addrs) chain to d = get_call_count chain a to d + call_count_of addrs chain to d"
  using call_count_append [of chain to d "get_call_count chain a to d" addrs] by (simp add: call_count_of_def)

text \<open>An address that two wallets have counts twice.\<close>

lemma shared_address_counts_twice:
  "call_count_of [(n, a), (n', a)] chain to d = 2 * get_call_count chain a to d"
  by (simp add: call_count_of_def)

text \<open>Where no two wallets share an address, the count the user is shown is the number of transactions
  that any of the wallets' addresses sent to the contract on the chain.\<close>

theorem call_count_counts_calls:
  assumes "simulator_get_call_count env s chain to d = Inr n" "get_all_addresses env s = Inr addrs" "distinct (map snd addrs)"
  shows "n = of_nat (length (filter (\<lambda>(c, t). c = chain \<and> tx_from t \<in> set (map snd addrs) \<and> tx_to t = Some to) (db_txs d)))"
proof -
  have "call_count_of addrs chain to d
      = of_nat (length (filter (\<lambda>(c, t). c = chain \<and> tx_from t \<in> set (map snd addrs) \<and> tx_to t = Some to) (db_txs d)))"
    using assms(3)
  proof (induction addrs)
    case Nil
    then show ?case by (simp add: call_count_of_def case_prod_beta)
  next
    case (Cons x addrs)
    obtain m a where x: "x = (m, a)" by (cases x)
    let ?P = "\<lambda>(c, t). c = chain \<and> tx_from t = a \<and> tx_to t = Some to"
    let ?Q = "\<lambda>(c, t). c = chain \<and> tx_from t \<in> set (map snd addrs) \<and> tx_to t = Some to"
    let ?R = "\<lambda>(c, t). c = chain \<and> tx_from t \<in> set (map snd (x # addrs)) \<and> tx_to t = Some to"
    have split: "length (filter ?R ts) = length (filter ?P ts) + length (filter ?Q ts)" for ts
      using Cons.prems x by (induction ts) auto
    have IH: "call_count_of addrs chain to d = of_nat (length (filter ?Q (db_txs d)))" using Cons by simp
    have "call_count_of (x # addrs) chain to d = of_nat (length (filter ?P (db_txs d))) + of_nat (length (filter ?Q (db_txs d)))"
      unfolding x by (simp only: call_count_Cons IH get_call_count_def)
    also have "\<dots> = of_nat (length (filter ?R (db_txs d)))" by (simp only: split of_nat_add)
    finally show ?case .
  qed
  with assms(1,2) show ?thesis by (simp add: simulator_get_call_count_def)
qed

end
