(* ===== verification/Forge_Traces.thy ===== *)
theory Forge_Traces
  imports Rpc
begin

text \<open>
  The traces of \<open>forge test\<close> (\<open>crates/forge-traces/src/lib.rs\<close>), which a second process of the program
  reads and sends to the first, and the method of the RPC handler that takes them
  (\<open>methods/ethui/forge_test_traces.rs\<close>). Running \<open>forge\<close>, reading JSON and the socket are parameters.
\<close>

section \<open>Reading the output\<close>

record forge_trace =
  ft_test_name :: string
  ft_contract_name :: string
  ft_trace_data :: json
  ft_gas_used :: "u64 option"
  ft_success :: bool

text \<open>The last part of a path that colons separate.\<close>

definition contract_of_path :: "string \<Rightarrow> string" where
  "contract_of_path p = rev (takeWhile (\<lambda>c. c \<noteq> CHR '':'') (rev p))"

definition gas_of_kind :: "json \<Rightarrow> u64 option" where
  "gas_of_kind kind =
    (case json_member ''Unit'' kind of
      Some u \<Rightarrow> Option.bind (json_member ''gas'' u) as_u64
    | None \<Rightarrow>
        (case json_member ''Fuzz'' kind of
          Some f \<Rightarrow> Option.bind (json_member ''median_gas'' f) as_u64
        | None \<Rightarrow> None))"

definition trace_of_result :: "string \<Rightarrow> string \<times> json \<Rightarrow> forge_trace" where
  "trace_of_result contract_name t = (case t of (test_name, result) \<Rightarrow>
    \<lparr>ft_test_name = test_name, ft_contract_name = contract_name,
     ft_trace_data = (case json_member ''traces'' result of None \<Rightarrow> JArr [] | Some v \<Rightarrow> v),
     ft_gas_used = Option.bind (json_member ''kind'' result) gas_of_kind,
     ft_success = (Option.bind (json_member ''status'' result) as_str = Some ''Success'')\<rparr>)"

text \<open>The tests of a contract are those of its object \<open>test_results\<close>, when it has one. The maps are read in
  the order of their keys, which is that of the lists.\<close>

definition contract_tests :: "json \<Rightarrow> (string \<times> json) list" where
  "contract_tests results =
    (case Option.bind (json_member ''test_results'' results) as_object of None \<Rightarrow> [] | Some ts \<Rightarrow> ts)"

definition traces_of_output :: "json \<Rightarrow> forge_trace list" where
  "traces_of_output j =
    (case as_object j of
      None \<Rightarrow> []
    | Some contracts \<Rightarrow> concat (map (\<lambda>(path, results). map (trace_of_result (contract_of_path path)) (contract_tests results)) contracts))"

definition parse_forge_output :: "(string \<Rightarrow> string + json) \<Rightarrow> string \<Rightarrow> string + forge_trace list" where
  "parse_forge_output from_str output = map_sum id traces_of_output (from_str output)"

section \<open>Sending\<close>

definition trace_to_json :: "forge_trace \<Rightarrow> json" where
  "trace_to_json t = JObj [(''contract_name'', JStr (ft_contract_name t)),
    (''gas_used'', case ft_gas_used t of None \<Rightarrow> JNull | Some g \<Rightarrow> JInt (int (unat g))),
    (''success'', JBool (ft_success t)), (''test_name'', JStr (ft_test_name t)), (''trace_data'', ft_trace_data t)]"

definition submit_request :: "forge_trace list \<Rightarrow> json" where
  "submit_request traces = JObj [(''id'', JInt 1), (''jsonrpc'', JStr ''2.0''), (''method'', JStr ''ethui_forgeTestSubmitRun''),
    (''params'', JObj [(''traces'', JArr (map trace_to_json traces))])]"

text \<open>What running \<open>forge\<close> gives: whether it succeeds, and what it writes.\<close>

record forge_env =
  fo_run :: "string list \<Rightarrow> string \<Rightarrow> string + bool \<times> string \<times> string"
  fo_from_str :: "string \<Rightarrow> string + json"
  fo_connect :: "u16 \<Rightarrow> string option"
  fo_send :: "json \<Rightarrow> string option"

text \<open>The request that is sent; no answer is waited for.\<close>

definition send_traces_to_rpc :: "forge_env \<Rightarrow> u16 \<Rightarrow> forge_trace list \<Rightarrow> string + json" where
  "send_traces_to_rpc env ws_port traces =
    (case fo_connect env ws_port of
      Some e \<Rightarrow> Inl e
    | None \<Rightarrow> (case fo_send env (submit_request traces) of Some e \<Rightarrow> Inl e | None \<Rightarrow> Inr (submit_request traces)))"

definition run_tests :: "forge_env \<Rightarrow> string \<Rightarrow> u16 \<Rightarrow> string list \<Rightarrow> string + json option" where
  "run_tests env project_path ws_port extra_args =
    (case fo_run env ([''test'', ''--json'', ''-vvvvv''] @ extra_args) project_path of
      Inl e \<Rightarrow> Inl e
    | Inr (success, stdout, stderr) \<Rightarrow>
        if \<not> success then Inl (''Forge test failed: '' @ stderr)
        else
          (case parse_forge_output (fo_from_str env) stdout of
            Inl e \<Rightarrow> Inl e
          | Inr traces \<Rightarrow> if traces = [] then Inr None else map_sum id Some (send_traces_to_rpc env ws_port traces)))"

section \<open>Receiving\<close>

text \<open>The derived deserializer: an object by its fields, of which the gas may be missing, or an array in
  their order.\<close>

definition gas_of_json :: "json \<Rightarrow> u64 option option" where
  "gas_of_json j = (if j = JNull then Some None else map_option Some (as_u64 j))"

definition trace_of_fields :: "json option \<Rightarrow> json option \<Rightarrow> json option \<Rightarrow> u64 option option \<Rightarrow> json option \<Rightarrow> forge_trace option" where
  "trace_of_fields test_name contract_name trace_data gas_used success =
    (case (Option.bind test_name as_str, Option.bind contract_name as_str, trace_data, gas_used, Option.bind success as_bool) of
      (Some t, Some c, Some d, Some g, Some b) \<Rightarrow>
        Some \<lparr>ft_test_name = t, ft_contract_name = c, ft_trace_data = d, ft_gas_used = g, ft_success = b\<rparr>
    | _ \<Rightarrow> None)"

fun trace_of_json :: "json \<Rightarrow> forge_trace option" where
  "trace_of_json (JObj m) =
    trace_of_fields (hm_get m ''test_name'') (hm_get m ''contract_name'') (hm_get m ''trace_data'')
      (case hm_get m ''gas_used'' of None \<Rightarrow> Some None | Some j \<Rightarrow> gas_of_json j) (hm_get m ''success'')"
| "trace_of_json (JArr [t, c, d, g, b]) = trace_of_fields (Some t) (Some c) (Some d) (gas_of_json g) (Some b)"
| "trace_of_json _ = None"

fun traces_param :: "json \<Rightarrow> forge_trace list option" where
  "traces_param (JObj m) = Option.bind (Option.bind (hm_get m ''traces'') as_array) (\<lambda>js. those (map trace_of_json js))"
| "traces_param (JArr [j]) = Option.bind (as_array j) (\<lambda>js. those (map trace_of_json js))"
| "traces_param _ = None"

definition forge_test_traces_build :: "json \<Rightarrow> rpc_error + forge_trace list" where
  "forge_test_traces_build params =
    (case extract_single_param params of
      None \<Rightarrow> Inl (RpcPanic ''index out of bounds'')
    | Some j \<Rightarrow> ok_or (Serde ''traces'') (traces_param j))"

definition forge_test_traces_run :: "forge_trace list \<Rightarrow> json" where
  "forge_test_traces_run traces = JObj [(''status'', JStr ''processed''), (''trace_count'', JInt (int (length traces)))]"

section \<open>What is sent is what is received\<close>

lemma trace_roundtrip: "trace_of_json (trace_to_json t) = Some t"
  using unsigned_less [of "the (ft_gas_used t)"]
  by (cases t) (auto simp: trace_to_json_def trace_of_fields_def gas_of_json_def split: option.split)

lemma traces_roundtrip: "those (map trace_of_json (map trace_to_json ts)) = Some ts"
  by (induction ts) (simp_all add: trace_roundtrip)

lemma length_traces_of_output: "length (traces_of_output (JObj cs)) = sum_list (map (\<lambda>(_, r). length (contract_tests r)) cs)"
  by (simp add: traces_of_output_def length_concat comp_def split_def)

text \<open>C27. What one process makes of the output of \<open>forge\<close> and sends, the other receives as it was: the
  request it is sent reads back to the same traces, and the answer counts every test of the output.\<close>

theorem forge_traces_arrive:
  "case json_get ''params'' (submit_request (traces_of_output (JObj cs))) of params \<Rightarrow>
    forge_test_traces_build params = Inr (traces_of_output (JObj cs))
    \<and> json_get ''trace_count'' (forge_test_traces_run (traces_of_output (JObj cs)))
      = JInt (int (sum_list (map (\<lambda>(_, r). length (contract_tests r)) cs)))"
  using traces_roundtrip [of "traces_of_output (JObj cs)"]
  by (simp add: submit_request_def forge_test_traces_build_def extract_single_param_def forge_test_traces_run_def length_traces_of_output)

text \<open>A run of which a test fails ends \<open>forge\<close> with an error, so its traces are not read: of what is sent,
  every run succeeded.\<close>

lemma failed_run_is_not_sent:
  "fo_run env ([''test'', ''--json'', ''-vvvvv''] @ args) path = Inr (False, stdout, stderr)
    \<Longrightarrow> run_tests env path port args = Inl (''Forge test failed: '' @ stderr)"
  by (simp add: run_tests_def)

end
