(* ===== verification/Spec2Isabelle.thy ===== *)
theory Spec2Isabelle
  imports Networks_Migrations Settings_Migrations Wc_Interleaving Connections_Migrations
    Dialog_Locks Ws_Peers Rpc_Handler Devnet_Consumer App_Contracts Stack_Networks Logging App Analytics Simulator
    Forge_Traces
begin

text \<open>
  A model of the Rust core of ethui, an Ethereum wallet for developers (\<open>crates\<close>), with the theorems
  that make its parts correct.

  \<^bold>\<open>The parts and how they interact.\<close> A dApp opens a websocket; its requests go through the RPC
  handler, which reads the connection's context, asks the user through dialogs and acts on actors
  (networks, settings), on wallets and on the database. Changes are announced as messages of an
  internal bus, which the websocket peers, the database and the synchronisation workers follow.
  WalletConnect sessions are a second way into the RPC handler. The theories model:

  \<^item> \<open>Prelude\<close>: results and handlers (a state passing function whose result is \<open>Inl\<close> an error or
    \<open>Inr\<close> a value), \<open>run_seq\<close> for sequences that stop at the first error, hash maps as association
    lists under the locale \<open>hash_map\<close>. \<open>Text\<close>, \<open>Json\<close>: numbers in text and JSON values.
  \<^item> \<open>Ethui_Types\<close> (\<open>crates/types\<close>, \<open>crates/broadcast\<close>): networks, identifiers, affinities, messages.
    \<open>Components\<close>: the contract of an actor whose changes are saved, as a locale.
  \<^item> \<open>Networks\<close>, \<open>Networks_Migrations\<close> (\<open>crates/networks\<close>); \<open>Settings\<close>, \<open>Onboarding\<close>,
    \<open>Settings_Migrations\<close> (\<open>crates/settings\<close>): the actors' states, every message, the file each
    saves to, and the migrations of the file.
  \<^item> \<open>Connections\<close>, \<open>Connections_Migrations\<close> (\<open>crates/connections\<close>): the affinity of each domain and
    the context of a connection. \<open>Ws_Peers\<close> (\<open>crates/ws\<close>): the peers, the events they are told and
    the life of a connection.
  \<^item> \<open>Crypto\<close>, \<open>Secret_Cache\<close>, \<open>Wallet_Kinds\<close>, \<open>Wallets\<close> (\<open>crates/crypto\<close>, \<open>crates/wallets\<close>): secrets
    under a password, the cache that forgets them after a minute, the six kinds of wallets, the list.
  \<^item> \<open>Wc_Pairing\<close>, \<open>Walletconnect\<close>, \<open>Wc_Interleaving\<close> (\<open>crates/walletconnect\<close>): envelopes, proposals,
    sessions and requests, and the interleavings of proposals with expiring pairings.
  \<^item> \<open>Dialogs\<close>, \<open>Dialog_Locks\<close> (\<open>crates/dialogs\<close>): dialogs with their channels and windows, and the order
    in which the tasks take the two locks.
  \<^item> \<open>Rpc\<close>, \<open>Rpc_Sign\<close>, \<open>Rpc_Chains\<close>, \<open>Rpc_Transactions\<close>, \<open>Rpc_Tokens\<close>, \<open>Rpc_Handler\<close> (\<open>crates/rpc\<close>): the
    methods the handler answers itself, signing, adding and updating networks, sending transactions,
    watching tokens, and the table that a request goes through.
  \<^item> \<open>Db\<close>, \<open>Db_Nfts\<close>, \<open>Db_Transactions\<close>, \<open>Db_Contracts\<close> (\<open>crates/db\<close>, \<open>migrations\<close>): the tables as maps and
    lists of rows, and each query as a function on them.
  \<^item> \<open>Alchemy\<close>, \<open>Sync\<close> (\<open>crates/sync\<close>, \<open>crates/sync/alchemy\<close>): a poll of an account, and the worker that
    keeps one polling task for each account and chain.
  \<^item> \<open>Devnet\<close>, \<open>Devnet_Consumer\<close> (\<open>crates/sync/devnet\<close>), \<open>Proxy_Detect\<close> (\<open>crates/proxy-detect\<close>): the worker
    that follows the blocks of a development node, what the consumers of its runs, side by side, write
    to the database, and the detection of proxies among the contracts it finds.

  \<^item> \<open>Sol_Projects\<close>, \<open>Sol_Artifacts\<close> (\<open>crates/sol-artifacts\<close>): the projects below the watched
    directories, and the index of compiled contracts that names those of the database.
    \<open>App_Contracts\<close> (\<open>bin/src/commands.rs\<close>): adding and removing a contract over the networks, that
    index, the detection of proxies and the database.
  \<^item> \<open>Docker\<close>, \<open>Stacks\<close> (\<open>crates/stacks\<close>): the manager of a container, whose state is in its type, and
    the actor that runs and stops it; \<open>Stack_Networks\<close>: what its commands do to the networks.
    \<open>Simulator\<close> (\<open>crates/simulator\<close>), \<open>Forge_Traces\<close>
    (\<open>crates/forge-traces\<close>, \<open>methods/ethui\<close> of the RPC handler): what a simulation is given, and the
    traces of tests that one process sends another.
  \<^item> \<open>App\<close> (\<open>bin/src\<close>), \<open>Logging\<close> (\<open>crates/tracing\<close>), \<open>Analytics\<close> (\<open>crates/analytics\<close>): windows, start
    and end, the log and what is shown of it, the counted events.

  \<^bold>\<open>How code becomes a definition.\<close> A struct is a record, an enum a datatype, a \<open>u64\<close> or \<open>U256\<close> a word
  with its wrap-around; a hash map is a list of entries with distinct keys; an actor's operation is a
  handler on its state, with the file it saves to as part of the state. A panic is an error of its
  own, and leaves the state as it was changed before it. Tasks that run at the same time are states of a step relation, and their properties hold in
  every interleaving. What the code gets from outside (nodes, signers, ciphers, parsers of formats,
  the operating system) is a parameter, a function in an environment record.

  \<^bold>\<open>What the lemmas show.\<close> Each theory has the laws of its operations first, then the invariant kept
  by each operation, then the properties, each stated in words before its theorem; a property with
  premises is followed by an instance that meets them. Where the code does not do what it is meant
  to, a lemma shows what it does instead.

  \<^bold>\<open>Loops.\<close> Loops over collections are structural. Loops on messages or rows that may not end are
  \<open>partial_function (option)\<close>: \<open>wait_answer\<close> and \<open>tx_dialog\<close> end when the user answers,
  \<open>get_contract_impl_abi\<close> and \<open>cmd_add_contract\<close> end when proxies do not go in a circle.
  \<open>cmd_remove_contract\<close> deletes a row in each call and is total. No definition uses fuel.

  \<^bold>\<open>Not modelled.\<close> What only calls a library or declares data: the virtual machine and the tracer behind
  the simulator, the connection to the WalletConnect relay, the ABIs, price feeds and token lists that
  are read from files, the arguments of the command line, the updater, and how the framework builds
  its application. The user interface and the browser extension are not Rust. Of the shell only what
  decides something is modelled: which windows are shown, what the start does in which order, what
  the end shuts down.
\<close>

end
